theory Spec2Isabelle
  imports Main "HOL-Library.Word" "HOL-Library.Sublist"
begin

section \<open>Data model\<close>

text \<open>
  The host-side driver \<^verbatim>\<open>skywallet.go\<close> talks to a hardware wallet through a
  transport handle (\<^verbatim>\<open>usb.Device\<close>) obtained from a \<^verbatim>\<open>DeviceDriver\<close>. The
  transport, the driver, the message builders and the decoders live outside the file; they
  are modelled as an explicit outside world: a script of replies, an oracle for the outcome
  of every other transport call, and a log of every transport call made.
\<close>

type_synonym byte = "8 word"
type_synonym uint32 = "32 word"
type_synonym handle = nat

text \<open>One 64-byte frame as produced by a message builder (\<^verbatim>\<open>[64]byte\<close>).\<close>
type_synonym chunk = "byte list"

text \<open>Modelled from the spec: the \<^verbatim>\<open>DeviceType\<close> enumeration of the driver.\<close>
datatype DeviceType = DeviceTypeUSB | DeviceTypeEmulator | DeviceTypeInvalid

text \<open>
  Modelled from the spec: the message kinds (\<^verbatim>\<open>messages.MessageType_...\<close>) the driver
  compares \<^verbatim>\<open>msg.Kind\<close> with; every other kind is opaque.
\<close>
datatype MessageType =
    MessageType_Success
  | MessageType_Failure
  | MessageType_ButtonRequest
  | MessageType_EntropyRequest
  | MessageType_PinMatrixRequest
  | MessageType_WordRequest
  | MessageType_PassphraseRequest
  | MessageType_Features
  | MessageType_Entropy
  | MessageType_Other nat

record Message =
  Kind :: MessageType
  Data :: "byte list"

text \<open>
  Error values. The named ones are the package variables; \<open>ErrNew\<close> is
  \<^verbatim>\<open>errors.New(text)\<close>; \<open>ErrExternal\<close> is an error value handed back by the
  transport, the driver, a message builder, a decoder or the file system.
\<close>
datatype error =
    ErrAddressNZero
  | ErrUsePassPhraseNil
  | ErrRemovePinNil
  | ErrDeviceTypeEmulator
  | ErrInvalidWordCount
  | ErrNoDeviceConnected
  | ErrNew string
  | ErrUnexpectedMessageType MessageType
  | ErrInvalidButtonType "32 word"
  | ErrWrongDeviceType DeviceType
  | ErrFileSize nat nat
  | ErrNotExist
  | ErrExternal nat

text \<open>\<^verbatim>\<open>ButtonType\<close> is an \<^verbatim>\<open>int32\<close>: a 32-bit word, read as signed by \<open>sint\<close>.\<close>
type_synonym ButtonType = "32 word"

definition ButtonLeft :: ButtonType where "ButtonLeft = 0"
definition ButtonRight :: ButtonType where "ButtonRight = 1"
definition ButtonBoth :: ButtonType where "ButtonBoth = 2"

definition entropyBufferSize :: nat where "entropyBufferSize = 32"

text \<open>
  The arguments of the message builders (\<^verbatim>\<open>MessageAddressGen\<close>, \<^verbatim>\<open>MessageButtonAck\<close>,
  ...): one constructor per builder the driver calls.
\<close>
datatype request =
    ReqInitialize
  | ReqAddressGen uint32 uint32 bool
  | ReqApplySettings bool string string
  | ReqBackup
  | ReqCancel
  | ReqCheckMessageSignature string string string
  | ReqChangePin bool
  | ReqConnected
  | ReqEntropyAck nat
  | ReqFirmwareErase "byte list"
  | ReqFirmwareUpload "byte list" "byte list"
  | ReqGetFeatures
  | ReqGenerateMnemonic uint32 bool
  | ReqRecovery uint32 bool bool
  | ReqSetMnemonic string
  | ReqTransactionSign "byte list list" "byte list list"
  | ReqSignMessage int string
  | ReqWipe
  | ReqButtonAck
  | ReqPassphraseAck string
  | ReqWordAck string
  | ReqPinMatrixAck string
  | ReqSimulateButtonPress ButtonType

text \<open>Every call on the transport is logged, whatever its outcome.\<close>
datatype event =
    EvOpen handle
  | EvOpenFailed
  | EvClose handle
  | EvWrite handle chunk
  | EvRead handle
  | EvBusClose

text \<open>
  The \<^verbatim>\<open>Device\<close> struct (first four fields; \<open>Driver\<close> holds what
  \<^verbatim>\<open>d.Driver.DeviceType()\<close> answers) together with the outside world:
  \<^item> \<open>trace\<close>: the transport calls made so far, oldest first;
  \<^item> \<open>replies\<close>: what the successive reads of a logical message will return; when it
    is empty the device stays silent and a read never returns (there is no timeout);
  \<^item> \<open>io_err\<close>: the outcome of every other transport call, by its position in the trace;
  \<^item> \<open>encode\<close>, \<open>DecodeFailMsg\<close>, \<open>DecodeResponseEntropyMessage\<close>: the message
    builders and decoders, which are pure functions defined outside the file;
  \<^item> \<open>files\<close>, \<open>stdout\<close>, \<open>fs_err\<close>, \<open>fs_clock\<close>: the file system the entropy sink
    writes to, with the outcome of its k-th call;
  \<^item> \<open>device_infos\<close>: what \<^verbatim>\<open>d.Driver.GetDeviceInfos()\<close> answers (the number of
    attached devices, or an error).
\<close>
record system =
  Driver :: DeviceType
  dev :: "handle option"
  simulateButtonPress :: bool
  simulateButtonType :: ButtonType
  trace :: "event list"
  replies :: "(error + Message) list"
  io_err :: "nat \<Rightarrow> error option"
  encode :: "request \<Rightarrow> error + chunk list"
  DecodeFailMsg :: "Message \<Rightarrow> error + string"
  DecodeResponseEntropyMessage :: "Message \<Rightarrow> error + byte list"
  files :: "string \<Rightarrow> byte list option"
  stdout :: "byte list list"
  fs_err :: "nat \<Rightarrow> error option"
  fs_clock :: nat
  device_infos :: "error + nat"

section \<open>Running code against the world\<close>

text \<open>
  A call either returns a value, never returns (a read on a silent device), or panics (a
  method call on a nil \<^verbatim>\<open>d.dev\<close>). The last two abort the run: nothing after them is
  executed.
\<close>
datatype 'a outcome = Returns 'a | Blocks | Panics

type_synonym 'a io = "system \<Rightarrow> 'a outcome \<times> system"

definition io_return :: "'a \<Rightarrow> 'a io" where
  "io_return x s = (Returns x, s)"

definition io_bind :: "'a io \<Rightarrow> ('a \<Rightarrow> 'b io) \<Rightarrow> 'b io" where
  "io_bind m f s =
     (case m s of
        (Returns x, s') \<Rightarrow> f x s'
      | (Blocks, s') \<Rightarrow> (Blocks, s')
      | (Panics, s') \<Rightarrow> (Panics, s'))"

text \<open>
  \<^verbatim>\<open>if err := f(); err != nil { return ..., err }\<close> for a call returning only an error.
  The second argument builds what the enclosing function returns with the error: \<open>Inl\<close>
  where it returns \<^verbatim>\<open>(wire.Message, error)\<close>, \<open>Some\<close> where it returns \<^verbatim>\<open>error\<close>.
\<close>
definition io_check :: "error option io \<Rightarrow> (error \<Rightarrow> 'r) \<Rightarrow> 'r io \<Rightarrow> 'r io" where
  "io_check m failed k =
     io_bind m (\<lambda>err. case err of Some e \<Rightarrow> io_return (failed e) | None \<Rightarrow> k)"

text \<open>\<^verbatim>\<open>x, err := f(); if err != nil { return ..., err }\<close>.\<close>
definition io_try :: "(error + 'a) io \<Rightarrow> (error \<Rightarrow> 'r) \<Rightarrow> ('a \<Rightarrow> 'r io) \<Rightarrow> 'r io" where
  "io_try m failed k =
     io_bind m (\<lambda>r. case r of Inl e \<Rightarrow> io_return (failed e) | Inr x \<Rightarrow> k x)"

text \<open>\<^verbatim>\<open>defer cleanup()\<close> followed by the rest of the function body.\<close>
definition deferred :: "'c io \<Rightarrow> 'a io \<Rightarrow> 'a io" where
  "deferred cleanup body = io_bind body (\<lambda>r. io_bind cleanup (\<lambda>_. io_return r))"

text \<open>A method call on \<^verbatim>\<open>d.dev\<close>: a nil interface value panics.\<close>
definition with_dev :: "(handle \<Rightarrow> 'a io) \<Rightarrow> 'a io" where
  "with_dev f s = (case dev s of None \<Rightarrow> (Panics, s) | Some h \<Rightarrow> f h s)"

subsection \<open>The transport (\<^verbatim>\<open>usb.Device\<close>, \<^verbatim>\<open>wire.ReadFrom\<close>, \<^verbatim>\<open>DeviceDriver\<close>)\<close>

definition log_event :: "event \<Rightarrow> system \<Rightarrow> system" where
  "log_event e s = s\<lparr>trace := trace s @ [e]\<rparr>"

definition dev_Write :: "handle \<Rightarrow> chunk \<Rightarrow> error option io" where
  "dev_Write h c s = (Returns (io_err s (length (trace s))), log_event (EvWrite h c) s)"

definition dev_Close :: "handle \<Rightarrow> error option io" where
  "dev_Close h s = (Returns (io_err s (length (trace s))), log_event (EvClose h) s)"

definition ReadFrom :: "handle \<Rightarrow> (error + Message) io" where
  "ReadFrom h s =
     (case replies s of
        [] \<Rightarrow> (Blocks, log_event (EvRead h) s)
      | r # rs \<Rightarrow> (Returns r, log_event (EvRead h) (s\<lparr>replies := rs\<rparr>)))"

text \<open>\<^verbatim>\<open>d.Driver.GetDevice()\<close>: a fresh handle, or an error.\<close>
definition GetDevice :: "(error + handle) io" where
  "GetDevice s =
     (case io_err s (length (trace s)) of
        Some e \<Rightarrow> (Returns (Inl e), log_event EvOpenFailed s)
      | None \<Rightarrow> (Returns (Inr (length (trace s))), log_event (EvOpen (length (trace s))) s))"

text \<open>A message builder: a pure function of its arguments.\<close>
definition build :: "request \<Rightarrow> (error + chunk list) io" where
  "build r s = (Returns (encode s r), s)"

text \<open>
  Modelled from the spec: \<^verbatim>\<open>sendToDeviceNoAnswer\<close> writes the frames in order and
  expects no reply; it stops at the first write that fails.
\<close>
fun sendToDeviceNoAnswer :: "handle \<Rightarrow> chunk list \<Rightarrow> error option io" where
  "sendToDeviceNoAnswer h [] s = (Returns None, s)"
| "sendToDeviceNoAnswer h (c # cs) s =
     (case dev_Write h c s of
        (Returns None, s') \<Rightarrow> sendToDeviceNoAnswer h cs s'
      | (r, s') \<Rightarrow> (r, s'))"

text \<open>
  Modelled from the spec: \<^verbatim>\<open>Driver.SendToDevice\<close> writes all frames, then reads and
  reassembles one logical response.
\<close>
definition SendToDevice :: "handle \<Rightarrow> chunk list \<Rightarrow> (error + Message) io" where
  "SendToDevice h chunks = io_check (sendToDeviceNoAnswer h chunks) Inl (ReadFrom h)"

text \<open>
  Modelled from the spec: \<^verbatim>\<open>Initialize\<close> runs a low-level initialization request and
  keeps only its error.
\<close>
definition Initialize :: "handle \<Rightarrow> error option io" where
  "Initialize h =
     io_try (build ReqInitialize) Some (\<lambda>chunks.
       io_try (SendToDevice h chunks) Some (\<lambda>_. io_return None))"

section \<open>Connection lifecycle\<close>

text \<open>\<^verbatim>\<open>Connect\<close>: close any existing connection, then ask the driver for a device.\<close>
definition Connect :: "error option io" where
  "Connect =
     io_bind (\<lambda>s. case dev s of
                 None \<Rightarrow> (Returns (), s)
               | Some h \<Rightarrow> (Returns (), (snd (dev_Close h s))\<lparr>dev := None\<rparr>))
       (\<lambda>_. io_bind GetDevice (\<lambda>r. case r of
          Inl e \<Rightarrow> io_return (Some e)
        | Inr h \<Rightarrow> (\<lambda>s. (Returns None, s\<lparr>dev := Some h\<rparr>))))"

text \<open>
  The goroutine that answers an \<^verbatim>\<open>EntropyRequest\<close>: build the entropy ack and write
  every frame; a failure to build or to write is logged and nothing else. In the source
  the goroutine runs concurrently with the next read, and \<^verbatim>\<open>wg.Wait()\<close> comes after
  that read (on a read error the function returns without waiting). The source leaves
  the order between these writes and that read open; the log below records one of the
  possible orders, the writes first. What the device answers is scripted and does not
  depend on that order, so the values returned are those of every order. The theorem
  on the drain of \<^verbatim>\<open>Connected\<close> is stated on the reads of the log and on its writes,
  each kind apart, which are the same in every order.
\<close>
definition entropy_ack :: "handle \<Rightarrow> system \<Rightarrow> system" where
  "entropy_ack h s =
     (case encode s (ReqEntropyAck entropyBufferSize) of
        Inl e \<Rightarrow> s
      | Inr entropyChunks \<Rightarrow> fold (\<lambda>element s'. snd (dev_Write h element s')) entropyChunks s)"

lemma replies_log_event [simp]: "replies (log_event e s) = replies s"
  by (simp add: log_event_def)

lemma replies_dev_Write [simp]: "replies (snd (dev_Write h c s)) = replies s"
  by (simp add: dev_Write_def)

lemma replies_fold_Write [simp]:
  "replies (fold (\<lambda>element s'. snd (dev_Write h element s')) cs s) = replies s"
  by (induction cs arbitrary: s) simp_all

lemma replies_entropy_ack [simp]: "replies (entropy_ack h s) = replies s"
  by (simp add: entropy_ack_def split: sum.splits)

lemma ReadFrom_Returns_shorter:
  "ReadFrom h s = (Returns r, s') \<Longrightarrow> length (replies s') < length (replies s)"
  by (auto simp: ReadFrom_def split: list.splits)

text \<open>
  The \<^verbatim>\<open>for msg.Kind == EntropyRequest\<close> loop of \<^verbatim>\<open>Connected\<close>. Each round logs the
  writes of the acknowledgement and then the read, one of the orders the source allows.
\<close>
function Connected_loop :: "handle \<Rightarrow> Message \<Rightarrow> bool io" where
  "Connected_loop h msg s =
     (if Kind msg = MessageType_EntropyRequest then
        (case ReadFrom h (entropy_ack h s) of
           (Returns (Inr msg'), s') \<Rightarrow> Connected_loop h msg' s'
         | (Returns (Inl e), s') \<Rightarrow> (Returns False, s')
         | (Blocks, s') \<Rightarrow> (Blocks, s')
         | (Panics, s') \<Rightarrow> (Panics, s'))
      else (Returns (Kind msg = MessageType_Success), s))"
  by pat_completeness auto
termination
proof (relation "measure (\<lambda>(h, msg, s). length (replies s))")
  show "wf (measure (\<lambda>(h, msg, s). length (replies s)))" by simp
next
  fix h :: handle and msg :: Message and s x1 s' x1a msg'
  assume "(x1, s') = ReadFrom h (entropy_ack h s)" "x1 = Returns x1a" "x1a = Inr msg'"
  then have "ReadFrom h (entropy_ack h s) = (Returns (Inr msg'), s')" by simp
  from ReadFrom_Returns_shorter [OF this]
  show "((h, msg', s'), (h, msg, s)) \<in> measure (\<lambda>(h, msg, s). length (replies s))"
    by simp
qed

declare Connected_loop.simps [simp del]

text \<open>\<^verbatim>\<open>Connected\<close>: can we communicate with a connected wallet?\<close>
definition Connected :: "bool io" where
  "Connected s =
     (case dev s of
        None \<Rightarrow> (Returns False, s)
      | Some h \<Rightarrow>
         (case encode s ReqConnected of
            Inl e \<Rightarrow> (Returns False, s)
          | Inr chunks \<Rightarrow>
             (case sendToDeviceNoAnswer h chunks s of
                (Returns (Some e), s1) \<Rightarrow> (Returns False, s1)
              | (Returns None, s1) \<Rightarrow>
                 (case ReadFrom h s1 of
                    (Returns (Inl e), s2) \<Rightarrow> (Returns False, s2)
                  | (Returns (Inr msg), s2) \<Rightarrow> Connected_loop h msg s2
                  | (Blocks, s2) \<Rightarrow> (Blocks, s2)
                  | (Panics, s2) \<Rightarrow> (Panics, s2))
              | (Blocks, s1) \<Rightarrow> (Blocks, s1)
              | (Panics, s1) \<Rightarrow> (Panics, s1))))"

text \<open>\<^verbatim>\<open>Disconnect\<close>: close the device if \<^verbatim>\<open>Connected\<close> says it answers.\<close>
definition Disconnect :: "error option io" where
  "Disconnect =
     io_bind Connected (\<lambda>c.
       if \<not> c then io_return (Some (ErrNew ''device is not connected''))
       else with_dev dev_Close)"

section \<open>Reads consume the reply script\<close>

text \<open>
  The loops of the driver end because every round reads one reply. \<open>keeps_replies\<close>: a
  computation never lengthens the script; \<open>consumes_reply\<close>: it shortens it whenever it
  returns a value without error.
\<close>
definition keeps_replies :: "'a io \<Rightarrow> bool" where
  "keeps_replies m = (\<forall>s. length (replies (snd (m s))) \<le> length (replies s))"

definition consumes_reply :: "(error + 'a) io \<Rightarrow> bool" where
  "consumes_reply m =
     (\<forall>s x s'. m s = (Returns (Inr x), s') \<longrightarrow> length (replies s') < length (replies s))"

named_theorems keeps \<open>computations that never lengthen the reply script\<close>

lemma keeps_repliesD: "keeps_replies m \<Longrightarrow> m s = (r, s') \<Longrightarrow> length (replies s') \<le> length (replies s)"
  unfolding keeps_replies_def by (metis snd_conv)

lemma consumes_replyD:
  "consumes_reply m \<Longrightarrow> m s = (Returns (Inr x), s') \<Longrightarrow> length (replies s') < length (replies s)"
  unfolding consumes_reply_def by blast

lemma keeps_return [keeps]: "keeps_replies (io_return x)"
  by (simp add: keeps_replies_def io_return_def)

lemma keeps_bind [keeps]:
  assumes "keeps_replies m" and "\<And>x. keeps_replies (f x)"
  shows "keeps_replies (io_bind m f)"
  unfolding keeps_replies_def
proof
  fix s
  obtain r s1 where m: "m s = (r, s1)" by (cases "m s")
  from keeps_repliesD [OF assms(1) m] have le1: "length (replies s1) \<le> length (replies s)" .
  show "length (replies (snd (io_bind m f s))) \<le> length (replies s)"
  proof (cases r)
    case (Returns x)
    obtain r2 s2 where f: "f x s1 = (r2, s2)" by (cases "f x s1")
    from keeps_repliesD [OF assms(2) f] le1 show ?thesis
      by (simp add: io_bind_def m Returns f)
  next
    case Blocks
    with le1 show ?thesis by (simp add: io_bind_def m)
  next
    case Panics
    with le1 show ?thesis by (simp add: io_bind_def m)
  qed
qed

lemma keeps_check [keeps]:
  "keeps_replies m \<Longrightarrow> keeps_replies k \<Longrightarrow> keeps_replies (io_check m failed k)"
  unfolding io_check_def by (rule keeps_bind) (auto split: option.splits intro: keeps_return)

lemma keeps_try [keeps]:
  "keeps_replies m \<Longrightarrow> (\<And>x. keeps_replies (k x)) \<Longrightarrow> keeps_replies (io_try m failed k)"
  unfolding io_try_def by (rule keeps_bind) (auto split: sum.splits intro: keeps_return)

lemma keeps_deferred [keeps]:
  "keeps_replies cleanup \<Longrightarrow> keeps_replies body \<Longrightarrow> keeps_replies (deferred cleanup body)"
  unfolding deferred_def by (intro keeps_bind keeps_return)

lemma keeps_with_dev [keeps]: "(\<And>h. keeps_replies (f h)) \<Longrightarrow> keeps_replies (with_dev f)"
  by (auto simp: keeps_replies_def with_dev_def split: option.splits)

lemma keeps_if [keeps]:
  "keeps_replies m \<Longrightarrow> keeps_replies n \<Longrightarrow> keeps_replies (if b then m else n)"
  by simp

lemma keeps_case_sum [keeps]:
  "(\<And>e. keeps_replies (f e)) \<Longrightarrow> (\<And>x. keeps_replies (g x)) \<Longrightarrow>
   keeps_replies (case r of Inl e \<Rightarrow> f e | Inr x \<Rightarrow> g x)"
  by (cases r) simp_all

lemma keeps_case_option [keeps]:
  "keeps_replies m \<Longrightarrow> (\<And>x. keeps_replies (g x)) \<Longrightarrow>
   keeps_replies (case r of None \<Rightarrow> m | Some x \<Rightarrow> g x)"
  by (cases r) simp_all

lemma keeps_dev_Write [keeps]: "keeps_replies (dev_Write h c)"
  by (simp add: keeps_replies_def)

lemma keeps_dev_Close [keeps]: "keeps_replies (dev_Close h)"
  by (simp add: keeps_replies_def dev_Close_def)

lemma keeps_ReadFrom [keeps]: "keeps_replies (ReadFrom h)"
  by (simp add: keeps_replies_def ReadFrom_def split: list.splits)

lemma keeps_GetDevice [keeps]: "keeps_replies GetDevice"
  by (simp add: keeps_replies_def GetDevice_def split: option.splits)

lemma keeps_build [keeps]: "keeps_replies (build r)"
  by (simp add: keeps_replies_def build_def)

lemma replies_sendToDeviceNoAnswer [simp]:
  "replies (snd (sendToDeviceNoAnswer h cs s)) = replies s"
proof (induction cs arbitrary: s)
  case Nil
  show ?case by simp
next
  case (Cons c cs)
  from Cons [of "log_event (EvWrite h c) s"] show ?case
    by (simp add: dev_Write_def split: option.splits)
qed

lemma keeps_sendToDeviceNoAnswer [keeps]: "keeps_replies (sendToDeviceNoAnswer h cs)"
  by (simp add: keeps_replies_def)

lemma keeps_SendToDevice [keeps]: "keeps_replies (SendToDevice h cs)"
  unfolding SendToDevice_def by (intro keeps)

lemma keeps_Initialize [keeps]: "keeps_replies (Initialize h)"
  unfolding Initialize_def by (intro keeps)

lemma keeps_Connect [keeps]: "keeps_replies Connect"
  unfolding Connect_def
  by (intro keeps) (simp_all add: keeps_replies_def dev_Close_def split: option.splits)

lemma consumes_ReadFrom: "consumes_reply (ReadFrom h)"
  by (auto simp: consumes_reply_def dest: ReadFrom_Returns_shorter)

lemma consumes_bind:
  assumes "keeps_replies m" and "\<And>x. consumes_reply (f x)"
  shows "consumes_reply (io_bind m f)"
  unfolding consumes_reply_def
proof (intro allI impI)
  fix s y s'
  assume run: "io_bind m f s = (Returns (Inr y), s')"
  obtain r s1 where m: "m s = (r, s1)" by (cases "m s")
  from keeps_repliesD [OF assms(1) m] have le1: "length (replies s1) \<le> length (replies s)" .
  from run m obtain x where "r = Returns x" and "f x s1 = (Returns (Inr y), s')"
    by (cases r) (simp_all add: io_bind_def)
  with consumes_replyD [OF assms(2)] le1 show "length (replies s') < length (replies s)"
    by fastforce
qed

lemma consumes_return_Inl: "consumes_reply (io_return (Inl e))"
  by (simp add: consumes_reply_def io_return_def)

lemma consumes_check:
  "keeps_replies m \<Longrightarrow> consumes_reply k \<Longrightarrow> consumes_reply (io_check m Inl k)"
  unfolding io_check_def
  by (rule consumes_bind) (auto split: option.splits intro: consumes_return_Inl)

lemma consumes_try:
  "keeps_replies m \<Longrightarrow> (\<And>x. consumes_reply (k x)) \<Longrightarrow> consumes_reply (io_try m Inl k)"
  unfolding io_try_def
  by (rule consumes_bind) (auto split: sum.splits intro: consumes_return_Inl)

lemma consumes_then_keeps:
  assumes "consumes_reply m" and "\<And>x. keeps_replies (k x)"
  shows "consumes_reply (io_try m Inl k)"
  unfolding consumes_reply_def
proof (intro allI impI)
  fix s y s'
  assume run: "io_try m Inl k s = (Returns (Inr y), s')"
  obtain r s1 where m: "m s = (r, s1)" by (cases "m s")
  from run m obtain x where r: "r = Returns (Inr x)" and k: "k x s1 = (Returns (Inr y), s')"
    by (cases r) (auto simp: io_try_def io_bind_def io_return_def split: sum.splits)
  from consumes_replyD [OF assms(1)] m r have "length (replies s1) < length (replies s)"
    by simp
  with keeps_repliesD [OF assms(2) k] show "length (replies s') < length (replies s)"
    by simp
qed

lemma consumes_deferred:
  assumes "consumes_reply body" and "keeps_replies cleanup"
  shows "consumes_reply (deferred cleanup body)"
  unfolding consumes_reply_def
proof (intro allI impI)
  fix s y s'
  assume run: "deferred cleanup body s = (Returns (Inr y), s')"
  obtain r s1 where b: "body s = (r, s1)" by (cases "body s")
  obtain r2 s2 where c: "cleanup s1 = (r2, s2)" by (cases "cleanup s1")
  from run b c have r: "r = Returns (Inr y)" and s2: "s2 = s'"
    by (cases r; cases r2; simp add: deferred_def io_bind_def io_return_def)+
  from consumes_replyD [OF assms(1)] b r have "length (replies s1) < length (replies s)"
    by simp
  with keeps_repliesD [OF assms(2) c] s2 show "length (replies s') < length (replies s)"
    by simp
qed

lemma consumes_with_dev: "(\<And>h. consumes_reply (f h)) \<Longrightarrow> consumes_reply (with_dev f)"
  by (auto simp: consumes_reply_def with_dev_def split: option.splits)

lemma consumes_SendToDevice: "consumes_reply (SendToDevice h cs)"
  unfolding SendToDevice_def by (intro consumes_check keeps consumes_ReadFrom)

section \<open>Button acknowledgement\<close>

text \<open>\<^verbatim>\<open>SimulateButtonPress\<close>: write the raw simulated-press message (emulator only).\<close>
definition SimulateButtonPress :: "error option io" where
  "SimulateButtonPress s =
     (if Driver s \<noteq> DeviceTypeEmulator then (Returns (Some (ErrWrongDeviceType (Driver s))), s)
      else (case encode s (ReqSimulateButtonPress (simulateButtonType s)) of
              Inl e \<Rightarrow> (Returns (Some e), s)
            | Inr simulateMsg \<Rightarrow> with_dev (\<lambda>h. dev_Write h (concat simulateMsg)) s))"

text \<open>\<^verbatim>\<open>if d.simulateButtonPress { if err := d.SimulateButtonPress(); ... }\<close>.\<close>
definition simulate_if_enabled :: "error option io" where
  "simulate_if_enabled s =
     (if simulateButtonPress s then SimulateButtonPress s else (Returns None, s))"

lemma keeps_SimulateButtonPress [keeps]: "keeps_replies SimulateButtonPress"
  by (simp add: keeps_replies_def SimulateButtonPress_def with_dev_def
      split: sum.splits option.splits)

lemma keeps_simulate_if_enabled [keeps]: "keeps_replies simulate_if_enabled"
  using keeps_SimulateButtonPress by (simp add: keeps_replies_def simulate_if_enabled_def)

text \<open>
  The \<^verbatim>\<open>for msg.Kind == EntropyRequest\<close> loop of \<^verbatim>\<open>ButtonAck\<close>, with the same order
  of the acknowledgement and the read as in \<^verbatim>\<open>Connected\<close>.
\<close>
function ButtonAck_loop :: "handle \<Rightarrow> Message \<Rightarrow> (error + Message) io" where
  "ButtonAck_loop h msg s =
     (if Kind msg = MessageType_EntropyRequest then
        (case ReadFrom h (entropy_ack h s) of
           (Returns (Inr msg'), s') \<Rightarrow> ButtonAck_loop h msg' s'
         | (Returns (Inl e), s') \<Rightarrow> (Returns (Inl e), s')
         | (Blocks, s') \<Rightarrow> (Blocks, s')
         | (Panics, s') \<Rightarrow> (Panics, s'))
      else (Returns (Inr msg), s))"
  by pat_completeness auto
termination
proof (relation "measure (\<lambda>(h, msg, s). length (replies s))")
  show "wf (measure (\<lambda>(h, msg, s). length (replies s)))" by simp
next
  fix h :: handle and msg :: Message and s x1 s' x1a msg'
  assume "(x1, s') = ReadFrom h (entropy_ack h s)" "x1 = Returns x1a" "x1a = Inr msg'"
  then have "ReadFrom h (entropy_ack h s) = (Returns (Inr msg'), s')" by simp
  from ReadFrom_Returns_shorter [OF this]
  show "((h, msg', s'), (h, msg, s)) \<in> measure (\<lambda>(h, msg, s). length (replies s))"
    by simp
qed

declare ButtonAck_loop.simps [simp del]

lemma replies_ButtonAck_loop: "length (replies (snd (ButtonAck_loop h msg s))) \<le> length (replies s)"
proof (induction h msg s rule: ButtonAck_loop.induct)
  case (1 h msg s)
  show ?case
  proof (cases "Kind msg = MessageType_EntropyRequest")
    case False
    then show ?thesis by (simp add: ButtonAck_loop.simps [of h msg s])
  next
    case True
    obtain r s' where rd: "ReadFrom h (entropy_ack h s) = (r, s')"
      by (cases "ReadFrom h (entropy_ack h s)")
    from keeps_repliesD [OF keeps_ReadFrom rd]
    have le: "length (replies s') \<le> length (replies s)" by simp
    show ?thesis
    proof (cases r)
      case (Returns x)
      show ?thesis
      proof (cases x)
        case (Inl e)
        with True rd Returns le show ?thesis
          by (simp add: ButtonAck_loop.simps [of h msg s])
      next
        case (Inr msg')
        from "1.IH" [OF True rd [symmetric] Returns Inr] le True rd Returns Inr
        show ?thesis by (simp add: ButtonAck_loop.simps [of h msg s])
      qed
    next
      case Blocks
      with True rd le show ?thesis by (simp add: ButtonAck_loop.simps [of h msg s])
    next
      case Panics
      with True rd le show ?thesis by (simp add: ButtonAck_loop.simps [of h msg s])
    qed
  qed
qed

lemma keeps_ButtonAck_loop [keeps]: "keeps_replies (ButtonAck_loop h msg)"
  by (simp add: keeps_replies_def replies_ButtonAck_loop)

text \<open>
  \<^verbatim>\<open>ButtonAck\<close>: reconnect, send the acknowledgement without waiting for an answer to
  it, optionally simulate the press, then read and serve entropy requests until another
  kind of message arrives.
\<close>
definition ButtonAck :: "(error + Message) io" where
  "ButtonAck =
     io_check Connect Inl (with_dev (\<lambda>h. deferred (dev_Close h)
       (io_try (build ReqButtonAck) Inl (\<lambda>buttonChunks.
          io_check (sendToDeviceNoAnswer h buttonChunks) Inl
            (io_check simulate_if_enabled Inl
               (io_try (ReadFrom h) Inl (ButtonAck_loop h)))))))"

lemma keeps_ButtonAck [keeps]: "keeps_replies ButtonAck"
  unfolding ButtonAck_def by (intro keeps)

lemma consumes_ButtonAck: "consumes_reply ButtonAck"
  unfolding ButtonAck_def
  by (intro consumes_check consumes_with_dev consumes_deferred consumes_try
      consumes_then_keeps consumes_ReadFrom keeps)

section \<open>The operations of \<^verbatim>\<open>Device\<close>\<close>

text \<open>
  \<^verbatim>\<open>NewDevice\<close>: the driver of the given type, no connection, no button simulation
  (\<^verbatim>\<open>ButtonType(-1)\<close>). The world the device lives in is the argument.
\<close>
definition NewDevice :: "DeviceType \<Rightarrow> system \<Rightarrow> system" where
  "NewDevice deviceType world =
     world\<lparr>Driver := deviceType, dev := None, simulateButtonPress := False,
           simulateButtonType := - 1\<rparr>"

text \<open>\<^verbatim>\<open>Close\<close> closes the usb bus of the driver, not a handle.\<close>
definition Close :: "unit io" where
  "Close s = (Returns (), log_event EvBusClose s)"

definition GetDeviceInfos :: "(error + nat) io" where
  "GetDeviceInfos s = (Returns (device_infos s), s)"

definition GetUsbInfo :: "(error + nat) io" where
  "GetUsbInfo s =
     (if Driver s = DeviceTypeUSB
      then io_check Connect Inl (io_check Disconnect Inl GetDeviceInfos) s
      else GetDeviceInfos s)"

definition Available :: "bool io" where
  "Available =
     io_bind GetDeviceInfos (\<lambda>r. case r of
        Inl e \<Rightarrow> io_return False
      | Inr infos \<Rightarrow> if infos \<le> 0 then io_return False else io_return True)"

text \<open>
  \<^verbatim>\<open>chunks, err := MessageX(...); if err != nil { return wire.Message{}, err };
  return d.Driver.SendToDevice(d.dev, chunks)\<close>.
\<close>
definition exchange :: "request \<Rightarrow> (error + Message) io" where
  "exchange r = io_try (build r) Inl (\<lambda>chunks. with_dev (\<lambda>h. SendToDevice h chunks))"

definition AddressGen :: "uint32 \<Rightarrow> uint32 \<Rightarrow> bool \<Rightarrow> (error + Message) io" where
  "AddressGen addressN startIndex confirmAddress =
     io_check Connect Inl (with_dev (\<lambda>h. deferred (dev_Close h)
       (if addressN = 0 then io_return (Inl ErrAddressNZero)
        else exchange (ReqAddressGen addressN startIndex confirmAddress))))"

definition ApplySettings :: "bool option \<Rightarrow> string \<Rightarrow> string \<Rightarrow> (error + Message) io" where
  "ApplySettings usePassphrase label language =
     io_check Connect Inl (with_dev (\<lambda>h. deferred (dev_Close h)
       (case usePassphrase of
          None \<Rightarrow> io_return (Inl ErrUsePassPhraseNil)
        | Some b \<Rightarrow> exchange (ReqApplySettings b label language))))"

definition Cancel :: "(error + Message) io" where
  "Cancel = io_check Connect Inl (with_dev (\<lambda>h. deferred (dev_Close h) (exchange ReqCancel)))"

definition CheckMessageSignature :: "string \<Rightarrow> string \<Rightarrow> string \<Rightarrow> (error + Message) io" where
  "CheckMessageSignature message signature address =
     io_check Connect Inl (with_dev (\<lambda>h. deferred (dev_Close h)
       (exchange (ReqCheckMessageSignature message signature address))))"

definition GetFeatures :: "(error + Message) io" where
  "GetFeatures =
     io_check Connect Inl (with_dev (\<lambda>h. deferred (dev_Close h) (exchange ReqGetFeatures)))"

definition TransactionSign :: "byte list list \<Rightarrow> byte list list \<Rightarrow> (error + Message) io" where
  "TransactionSign inputs outputs =
     io_check Connect Inl (with_dev (\<lambda>h. deferred (dev_Close h)
       (exchange (ReqTransactionSign inputs outputs))))"

definition PassphraseAck :: "string \<Rightarrow> (error + Message) io" where
  "PassphraseAck passphrase =
     io_check Connect Inl (with_dev (\<lambda>h. deferred (dev_Close h)
       (exchange (ReqPassphraseAck passphrase))))"

definition WordAck :: "string \<Rightarrow> (error + Message) io" where
  "WordAck word =
     io_check Connect Inl (with_dev (\<lambda>h. deferred (dev_Close h) (exchange (ReqWordAck word))))"

text \<open>\<^verbatim>\<open>PinMatrixAck\<close> sleeps one second first; time is not part of the model.\<close>
definition PinMatrixAck :: "string \<Rightarrow> (error + Message) io" where
  "PinMatrixAck p =
     io_check Connect Inl (with_dev (\<lambda>h. deferred (dev_Close h) (exchange (ReqPinMatrixAck p))))"

text \<open>
  The deferred closure \<^verbatim>\<open>if !disconnected { d.dev.Close(disconnected) }\<close>: the body hands
  over the value of \<^verbatim>\<open>disconnected\<close> at its return together with what it returns.
\<close>
definition close_unless_disconnected :: "(bool \<times> 'a) io \<Rightarrow> 'a io" where
  "close_unless_disconnected body =
     io_bind body (\<lambda>(disconnected, r).
       if \<not> disconnected then io_bind (with_dev dev_Close) (\<lambda>_. io_return r)
       else io_return r)"

text \<open>
  The tail of \<^verbatim>\<open>ChangePin\<close>, \<^verbatim>\<open>GenerateMnemonic\<close>, \<^verbatim>\<open>Recovery\<close>, \<^verbatim>\<open>SetMnemonic\<close>,
  \<^verbatim>\<open>SignMessage\<close> and \<^verbatim>\<open>Wipe\<close>: an error of the exchange is returned; on a
  \<^verbatim>\<open>ButtonRequest\<close> answer \<^verbatim>\<open>disconnected = true; return d.ButtonAck()\<close>; any other
  answer is returned as it is.
\<close>
definition ack_if_button_request :: "(error + Message) io \<Rightarrow> (bool \<times> (error + Message)) io" where
  "ack_if_button_request request_reply =
     io_bind request_reply (\<lambda>r. case r of
        Inl e \<Rightarrow> io_return (False, Inl e)
      | Inr msg \<Rightarrow>
          if Kind msg = MessageType_ButtonRequest
          then io_bind ButtonAck (\<lambda>r. io_return (True, r))
          else io_return (False, Inr msg))"

definition ChangePin :: "bool option \<Rightarrow> (error + Message) io" where
  "ChangePin removePin =
     io_check Connect Inl (close_unless_disconnected (ack_if_button_request
       (case removePin of
          None \<Rightarrow> io_return (Inl ErrRemovePinNil)
        | Some b \<Rightarrow> exchange (ReqChangePin b))))"

definition GenerateMnemonic :: "uint32 \<Rightarrow> bool \<Rightarrow> (error + Message) io" where
  "GenerateMnemonic wordCount usePassphrase =
     io_check Connect Inl (close_unless_disconnected (ack_if_button_request
       (if wordCount \<noteq> 12 \<and> wordCount \<noteq> 24 then io_return (Inl ErrInvalidWordCount)
        else exchange (ReqGenerateMnemonic wordCount usePassphrase))))"

definition Recovery :: "uint32 \<Rightarrow> bool \<Rightarrow> bool \<Rightarrow> (error + Message) io" where
  "Recovery wordCount usePassphrase dryRun =
     io_check Connect Inl (close_unless_disconnected (ack_if_button_request
       (if wordCount \<noteq> 12 \<and> wordCount \<noteq> 24 then io_return (Inl ErrInvalidWordCount)
        else exchange (ReqRecovery wordCount usePassphrase dryRun))))"

definition SetMnemonic :: "string \<Rightarrow> (error + Message) io" where
  "SetMnemonic mnemonic =
     io_check Connect Inl (close_unless_disconnected (ack_if_button_request
       (exchange (ReqSetMnemonic mnemonic))))"

definition SignMessage :: "int \<Rightarrow> string \<Rightarrow> (error + Message) io" where
  "SignMessage addressIndex message =
     io_check Connect Inl (close_unless_disconnected (ack_if_button_request
       (exchange (ReqSignMessage addressIndex message))))"

definition Wipe :: "(error + Message) io" where
  "Wipe =
     io_check Connect Inl (close_unless_disconnected (ack_if_button_request
       (exchange ReqWipe)))"

text \<open>
  The \<^verbatim>\<open>for msg.Kind == ButtonRequest\<close> loop of \<^verbatim>\<open>Backup\<close>; the first argument is the
  value of \<^verbatim>\<open>disconnected\<close>.
\<close>
function Backup_loop :: "bool \<Rightarrow> Message \<Rightarrow> (bool \<times> (error + Message)) io" where
  "Backup_loop disconnected msg s =
     (if Kind msg = MessageType_ButtonRequest then
        (case ButtonAck s of
           (Returns (Inr msg'), s') \<Rightarrow> Backup_loop True msg' s'
         | (Returns (Inl e), s') \<Rightarrow> (Returns (True, Inl e), s')
         | (Blocks, s') \<Rightarrow> (Blocks, s')
         | (Panics, s') \<Rightarrow> (Panics, s'))
      else (Returns (disconnected, Inr msg), s))"
  by pat_completeness auto
termination
proof (relation "measure (\<lambda>(disconnected, msg, s). length (replies s))")
  show "wf (measure (\<lambda>(disconnected, msg, s). length (replies s)))" by simp
next
  fix disconnected :: bool and msg :: Message and s x1 s' x1a msg'
  assume "(x1, s') = ButtonAck s" "x1 = Returns x1a" "x1a = Inr msg'"
  then have "ButtonAck s = (Returns (Inr msg'), s')" by simp
  from consumes_replyD [OF consumes_ButtonAck this]
  show "((True, msg', s'), (disconnected, msg, s))
          \<in> measure (\<lambda>(disconnected, msg, s). length (replies s))"
    by simp
qed

declare Backup_loop.simps [simp del]

definition Backup :: "(error + Message) io" where
  "Backup =
     io_check Connect Inl (close_unless_disconnected
       (io_bind (exchange ReqBackup) (\<lambda>r. case r of
          Inl e \<Rightarrow> io_return (False, Inl e)
        | Inr msg \<Rightarrow> Backup_loop False msg)))"

text \<open>\<^verbatim>\<open>DecodeFailMsg(msg)\<close> followed by \<^verbatim>\<open>return errors.New(msg)\<close>.\<close>
definition fail_with_decoded :: "Message \<Rightarrow> error option io" where
  "fail_with_decoded m s =
     (case DecodeFailMsg s m of
        Inl e \<Rightarrow> (Returns (Some e), s)
      | Inr msg \<Rightarrow> (Returns (Some (ErrNew msg)), s))"

text \<open>The upload phase of \<^verbatim>\<open>FirmwareUpload\<close>, after a successful erase.\<close>
definition FirmwareUpload_upload :: "handle \<Rightarrow> byte list \<Rightarrow> byte list \<Rightarrow> Message \<Rightarrow> error option io" where
  "FirmwareUpload_upload h payload hash erasemsg =
     io_try (build (ReqFirmwareUpload payload hash)) Some (\<lambda>chunks.
       io_try (SendToDevice h chunks) Some (\<lambda>uploadmsg.
         if Kind uploadmsg = MessageType_ButtonRequest then
           io_try (build ReqButtonAck) Some (\<lambda>chunks.
             io_try (SendToDevice h chunks) Some (\<lambda>resp.
               if Kind resp = MessageType_Success then io_return None
               else if Kind resp = MessageType_Failure then fail_with_decoded resp
               else io_return (Some (ErrNew ''unknown response''))))
         else if Kind uploadmsg = MessageType_Failure then fail_with_decoded erasemsg
         else io_return (Some (ErrUnexpectedMessageType (Kind erasemsg)))))"

definition FirmwareUpload :: "byte list \<Rightarrow> byte list \<Rightarrow> error option io" where
  "FirmwareUpload payload hash s =
     (if Driver s \<noteq> DeviceTypeUSB then (Returns (Some ErrDeviceTypeEmulator), s)
      else io_check Connect Some (with_dev (\<lambda>h. deferred (dev_Close h)
             (io_check (Initialize h) Some
                (io_try (build (ReqFirmwareErase payload)) Some (\<lambda>chunks.
                   io_try (SendToDevice h chunks) Some (\<lambda>erasemsg.
                     if Kind erasemsg = MessageType_Success
                     then FirmwareUpload_upload h payload hash erasemsg
                     else if Kind erasemsg = MessageType_Failure then fail_with_decoded erasemsg
                     else io_return (Some (ErrUnexpectedMessageType (Kind erasemsg))))))))) s)"

text \<open>\<^verbatim>\<open>SetAutoPressButton\<close> enables and sets the button press type.\<close>
definition SetAutoPressButton :: "bool \<Rightarrow> ButtonType \<Rightarrow> error option io" where
  "SetAutoPressButton simulate buttonType s =
     (if Driver s = DeviceTypeEmulator then
        (if simulate then
           (if buttonType = ButtonLeft \<or> buttonType = ButtonRight \<or> buttonType = ButtonBoth
            then (Returns None, s\<lparr>simulateButtonPress := simulate, simulateButtonType := buttonType\<rparr>)
            else (Returns (Some (ErrInvalidButtonType buttonType)), s\<lparr>simulateButtonPress := simulate\<rparr>))
         else (Returns None, s\<lparr>simulateButtonPress := simulate, simulateButtonType := 3\<rparr>))
      else (Returns None, s))"

section \<open>Properties kept by every step\<close>

text \<open>
  \<open>preserves P m\<close>: running \<open>m\<close> from a state with \<open>P\<close> ends (returns, blocks or panics) in
  a state with \<open>P\<close>. \<open>stable_tr P\<close>: \<open>P\<close> survives every elementary step on the
  transport: a logged write, close or read and the consumption of a reply.
  \<open>stable_io P\<close>: it also survives the updates of the file system and of the simulation
  settings. \<open>stable P\<close>: it survives \<^verbatim>\<open>Connect\<close> as well.
\<close>
definition preserves :: "(system \<Rightarrow> bool) \<Rightarrow> 'a io \<Rightarrow> bool" where
  "preserves P m = (\<forall>s. P s \<longrightarrow> P (snd (m s)))"

definition stable_tr :: "(system \<Rightarrow> bool) \<Rightarrow> bool" where
  "stable_tr P =
     (\<forall>s. P s \<longrightarrow>
        (\<forall>h c. P (log_event (EvWrite h c) s)) \<and>
        (\<forall>h. P (log_event (EvClose h) s)) \<and>
        (\<forall>h. P (log_event (EvRead h) s)) \<and>
        P (log_event EvBusClose s) \<and>
        P (s\<lparr>replies := tl (replies s)\<rparr>))"

definition stable_io :: "(system \<Rightarrow> bool) \<Rightarrow> bool" where
  "stable_io P =
     (stable_tr P \<and>
      (\<forall>s. P s \<longrightarrow>
        (\<forall>f. P (s\<lparr>files := f\<rparr>)) \<and>
        (\<forall>out. P (s\<lparr>stdout := out\<rparr>)) \<and>
        (\<forall>n. P (s\<lparr>fs_clock := n\<rparr>)) \<and>
        (\<forall>b. P (s\<lparr>simulateButtonPress := b\<rparr>)) \<and>
        (\<forall>t. P (s\<lparr>simulateButtonType := t\<rparr>))))"

definition stable :: "(system \<Rightarrow> bool) \<Rightarrow> bool" where
  "stable P = (stable_io P \<and> (\<forall>s. P s \<longrightarrow> P (snd (Connect s))))"

lemma stable_imp_io: "stable P \<Longrightarrow> stable_io P"
  by (simp add: stable_def)

lemma stable_io_imp_tr: "stable_io P \<Longrightarrow> stable_tr P"
  by (simp add: stable_io_def)

named_theorems pres \<open>computations that preserve a stable property\<close>

lemma preservesD: "preserves P m \<Longrightarrow> P s \<Longrightarrow> m s = (r, s') \<Longrightarrow> P s'"
  unfolding preserves_def by (metis snd_conv)

lemma preservesI: "(\<And>s r s'. P s \<Longrightarrow> m s = (r, s') \<Longrightarrow> P s') \<Longrightarrow> preserves P m"
  unfolding preserves_def by (metis prod.collapse)

lemma pres_return [pres]: "preserves P (io_return x)"
  by (simp add: preserves_def io_return_def)

lemma pres_bind [pres]:
  assumes "preserves P m" and "\<And>x. preserves P (f x)"
  shows "preserves P (io_bind m f)"
proof (rule preservesI)
  fix s r s'
  assume P: "P s" and run: "io_bind m f s = (r, s')"
  obtain r1 s1 where m: "m s = (r1, s1)" by (cases "m s")
  from preservesD [OF assms(1) P m] have P1: "P s1" .
  show "P s'"
  proof (cases r1)
    case (Returns x)
    with run m have "f x s1 = (r, s')" by (simp add: io_bind_def)
    from preservesD [OF assms(2) P1 this] show ?thesis .
  next
    case Blocks
    with run m P1 show ?thesis by (simp add: io_bind_def)
  next
    case Panics
    with run m P1 show ?thesis by (simp add: io_bind_def)
  qed
qed

lemma pres_check [pres]:
  "preserves P m \<Longrightarrow> preserves P k \<Longrightarrow> preserves P (io_check m failed k)"
  unfolding io_check_def by (rule pres_bind) (auto split: option.splits intro: pres_return)

lemma pres_try [pres]:
  "preserves P m \<Longrightarrow> (\<And>x. preserves P (k x)) \<Longrightarrow> preserves P (io_try m failed k)"
  unfolding io_try_def by (rule pres_bind) (auto split: sum.splits intro: pres_return)

lemma pres_deferred [pres]:
  "preserves P cleanup \<Longrightarrow> preserves P body \<Longrightarrow> preserves P (deferred cleanup body)"
  unfolding deferred_def by (intro pres_bind pres_return)

lemma pres_with_dev [pres]: "(\<And>h. preserves P (f h)) \<Longrightarrow> preserves P (with_dev f)"
  by (auto simp: preserves_def with_dev_def split: option.splits)

lemma pres_if [pres]:
  "preserves P m \<Longrightarrow> preserves P n \<Longrightarrow> preserves P (if b then m else n)"
  by simp

lemma pres_case_sum [pres]:
  "(\<And>e. preserves P (f e)) \<Longrightarrow> (\<And>x. preserves P (g x)) \<Longrightarrow>
   preserves P (case r of Inl e \<Rightarrow> f e | Inr x \<Rightarrow> g x)"
  by (cases r) simp_all

lemma pres_case_option [pres]:
  "preserves P m \<Longrightarrow> (\<And>x. preserves P (g x)) \<Longrightarrow>
   preserves P (case r of None \<Rightarrow> m | Some x \<Rightarrow> g x)"
  by (cases r) simp_all

lemma pres_case_prod [pres]:
  "(\<And>a b. preserves P (f a b)) \<Longrightarrow> preserves P (case r of (a, b) \<Rightarrow> f a b)"
  by (cases r) simp

lemma tr_dev_Write: "stable_tr P \<Longrightarrow> preserves P (dev_Write h c)"
  by (simp add: preserves_def stable_tr_def dev_Write_def)

lemma pres_dev_Write [pres]: "stable_io P \<Longrightarrow> preserves P (dev_Write h c)"
  by (rule tr_dev_Write) (rule stable_io_imp_tr)

lemma tr_dev_Close: "stable_tr P \<Longrightarrow> preserves P (dev_Close h)"
  by (simp add: preserves_def stable_tr_def dev_Close_def)

lemma pres_dev_Close [pres]: "stable_io P \<Longrightarrow> preserves P (dev_Close h)"
  by (rule tr_dev_Close) (rule stable_io_imp_tr)

lemma tr_ReadFrom: "stable_tr P \<Longrightarrow> preserves P (ReadFrom h)"
proof (rule preservesI)
  fix s r s'
  assume st: "stable_tr P" and P: "P s" and run: "ReadFrom h s = (r, s')"
  show "P s'"
  proof (cases "replies s")
    case Nil
    with run st P show ?thesis by (auto simp: ReadFrom_def stable_tr_def)
  next
    case (Cons x xs)
    from st P have "P (s\<lparr>replies := tl (replies s)\<rparr>)" by (simp add: stable_tr_def)
    with st have "P (log_event (EvRead h) (s\<lparr>replies := tl (replies s)\<rparr>))"
      by (simp add: stable_tr_def)
    with run Cons show ?thesis by (auto simp: ReadFrom_def)
  qed
qed

lemma pres_ReadFrom [pres]: "stable_io P \<Longrightarrow> preserves P (ReadFrom h)"
  by (rule tr_ReadFrom) (rule stable_io_imp_tr)

lemma pres_Connect [pres]: "stable P \<Longrightarrow> preserves P Connect"
  by (simp add: preserves_def stable_def)

lemma pres_build [pres]: "preserves P (build r)"
  by (simp add: preserves_def build_def)

lemma pres_Close [pres]: "stable_io P \<Longrightarrow> preserves P Close"
  by (simp add: preserves_def stable_io_def stable_tr_def Close_def)

lemma pres_GetDeviceInfos [pres]: "preserves P GetDeviceInfos"
  by (simp add: preserves_def GetDeviceInfos_def)

lemma tr_sendToDeviceNoAnswer:
  assumes "stable_tr P"
  shows "preserves P (sendToDeviceNoAnswer h cs)"
proof (induction cs)
  case Nil
  show ?case by (simp add: preserves_def)
next
  case (Cons c cs)
  show ?case
  proof (rule preservesI)
    fix s r s'
    assume P: "P s" and run: "sendToDeviceNoAnswer h (c # cs) s = (r, s')"
    obtain r1 s1 where w: "dev_Write h c s = (r1, s1)" by (cases "dev_Write h c s")
    from preservesD [OF tr_dev_Write [OF assms] P w] have P1: "P s1" .
    show "P s'"
    proof (cases "r1 = Returns None")
      case True
      with run w have "sendToDeviceNoAnswer h cs s1 = (r, s')" by simp
      from preservesD [OF Cons P1 this] show ?thesis .
    next
      case False
      with run w have "s' = s1"
        by (cases r1) (auto split: option.splits)
      with P1 show ?thesis by simp
    qed
  qed
qed

lemma pres_sendToDeviceNoAnswer [pres]: "stable_io P \<Longrightarrow> preserves P (sendToDeviceNoAnswer h cs)"
  by (rule tr_sendToDeviceNoAnswer) (rule stable_io_imp_tr)

lemma tr_entropy_ack: 
  assumes "stable_tr P" and "P s"
  shows "P (entropy_ack h s)"
proof -
  have "P (fold (\<lambda>element s'. snd (dev_Write h element s')) cs s)" if "P s" for cs s
    using that
  proof (induction cs arbitrary: s)
    case Nil
    then show ?case by simp
  next
    case (Cons c cs)
    from preservesD [OF tr_dev_Write [OF assms(1)] Cons.prems, of h c]
    have "P (snd (dev_Write h c s))" by (metis prod.collapse)
    from Cons.IH [OF this] show ?case by simp
  qed
  with assms(2) show ?thesis by (simp add: entropy_ack_def split: sum.splits)
qed

lemma pres_entropy_ack:
  assumes "stable_io P" and "P s"
  shows "P (entropy_ack h s)"
  using stable_io_imp_tr [OF assms(1)] assms(2) by (rule tr_entropy_ack)

lemma pres_ButtonAck_loop [pres]:
  assumes "stable_io P"
  shows "preserves P (ButtonAck_loop h msg)"
proof -
  have "P s \<Longrightarrow> P (snd (ButtonAck_loop h msg s))" for s
  proof (induction h msg s rule: ButtonAck_loop.induct)
    case (1 h msg s)
    show ?case
    proof (cases "Kind msg = MessageType_EntropyRequest")
      case False
      with "1.prems" show ?thesis by (simp add: ButtonAck_loop.simps [of h msg s])
    next
      case True
      obtain r s' where rd: "ReadFrom h (entropy_ack h s) = (r, s')"
        by (cases "ReadFrom h (entropy_ack h s)")
      from preservesD [OF pres_ReadFrom [OF assms] pres_entropy_ack [OF assms "1.prems"] rd]
      have P': "P s'" .
      show ?thesis
      proof (cases r)
        case (Returns x)
        show ?thesis
        proof (cases x)
          case (Inl e)
          with True rd Returns P' show ?thesis
            by (simp add: ButtonAck_loop.simps [of h msg s])
        next
          case (Inr msg')
          from "1.IH" [OF True rd [symmetric] Returns Inr P'] True rd Returns Inr
          show ?thesis by (simp add: ButtonAck_loop.simps [of h msg s])
        qed
      next
        case Blocks
        with True rd P' show ?thesis by (simp add: ButtonAck_loop.simps [of h msg s])
      next
        case Panics
        with True rd P' show ?thesis by (simp add: ButtonAck_loop.simps [of h msg s])
      qed
    qed
  qed
  then show ?thesis by (simp add: preserves_def)
qed

lemma tr_Connected_loop:
  assumes "stable_tr P"
  shows "preserves P (Connected_loop h msg)"
proof -
  have "P s \<Longrightarrow> P (snd (Connected_loop h msg s))" for s
  proof (induction h msg s rule: Connected_loop.induct)
    case (1 h msg s)
    show ?case
    proof (cases "Kind msg = MessageType_EntropyRequest")
      case False
      with "1.prems" show ?thesis by (simp add: Connected_loop.simps [of h msg s])
    next
      case True
      obtain r s' where rd: "ReadFrom h (entropy_ack h s) = (r, s')"
        by (cases "ReadFrom h (entropy_ack h s)")
      from preservesD [OF tr_ReadFrom [OF assms] tr_entropy_ack [OF assms "1.prems"] rd]
      have P': "P s'" .
      show ?thesis
      proof (cases r)
        case (Returns x)
        show ?thesis
        proof (cases x)
          case (Inl e)
          with True rd Returns P' show ?thesis
            by (simp add: Connected_loop.simps [of h msg s])
        next
          case (Inr msg')
          from "1.IH" [OF True rd [symmetric] Returns Inr P'] True rd Returns Inr
          show ?thesis by (simp add: Connected_loop.simps [of h msg s])
        qed
      next
        case Blocks
        with True rd P' show ?thesis by (simp add: Connected_loop.simps [of h msg s])
      next
        case Panics
        with True rd P' show ?thesis by (simp add: Connected_loop.simps [of h msg s])
      qed
    qed
  qed
  then show ?thesis by (simp add: preserves_def)
qed

lemma pres_Connected_loop [pres]: "stable_io P \<Longrightarrow> preserves P (Connected_loop h msg)"
  by (rule tr_Connected_loop) (rule stable_io_imp_tr)

lemma Connected_as_io:
  "Connected =
     (\<lambda>s. case dev s of
        None \<Rightarrow> (Returns False, s)
      | Some h \<Rightarrow>
         (case encode s ReqConnected of
            Inl e \<Rightarrow> (Returns False, s)
          | Inr chunks \<Rightarrow>
              io_bind (sendToDeviceNoAnswer h chunks) (\<lambda>err. case err of
                 Some e \<Rightarrow> io_return False
               | None \<Rightarrow> io_bind (ReadFrom h) (\<lambda>r. case r of
                    Inl e \<Rightarrow> io_return False
                  | Inr msg \<Rightarrow> Connected_loop h msg)) s))"
  by (rule ext)
     (simp add: Connected_def io_bind_def io_return_def
        split: option.splits sum.splits prod.splits outcome.splits)

lemma tr_Connected:
  assumes "stable_tr P"
  shows "preserves P Connected"
proof (rule preservesI)
  fix s r s'
  assume P: "P s" and run: "Connected s = (r, s')"
  show "P s'"
  proof (cases "dev s")
    case None
    with run P show ?thesis by (simp add: Connected_def)
  next
    case (Some h)
    show ?thesis
    proof (cases "encode s ReqConnected")
      case (Inl e)
      with Some run P show ?thesis by (simp add: Connected_def)
    next
      case (Inr chunks)
      have "preserves P (io_bind (sendToDeviceNoAnswer h chunks) (\<lambda>err. case err of
                 Some e \<Rightarrow> io_return False
               | None \<Rightarrow> io_bind (ReadFrom h) (\<lambda>r. case r of
                    Inl e \<Rightarrow> io_return False
                  | Inr msg \<Rightarrow> Connected_loop h msg)))"
        by (intro pres_bind pres_return pres_case_option pres_case_sum
            tr_sendToDeviceNoAnswer tr_ReadFrom tr_Connected_loop assms)
      from preservesD [OF this P] run Some Inr show ?thesis
        by (simp add: Connected_as_io)
    qed
  qed
qed

lemma pres_Connected [pres]: "stable_io P \<Longrightarrow> preserves P Connected"
  by (rule tr_Connected) (rule stable_io_imp_tr)

lemma tr_Disconnect: "stable_tr P \<Longrightarrow> preserves P Disconnect"
  unfolding Disconnect_def
  by (intro pres_bind pres_if pres_return pres_with_dev tr_Connected tr_dev_Close)

lemma pres_Disconnect [pres]: "stable_io P \<Longrightarrow> preserves P Disconnect"
  by (rule tr_Disconnect) (rule stable_io_imp_tr)

lemma stable_replies_le: "stable_io (\<lambda>s. length (replies s) \<le> n)"
  by (auto simp: stable_io_def stable_tr_def log_event_def)

lemma keeps_from_preserves:
  fixes m :: "'a io"
  assumes "\<And>P. stable_io P \<Longrightarrow> preserves P m"
  shows "keeps_replies m"
  unfolding keeps_replies_def
proof
  fix s :: system
  from assms [OF stable_replies_le [of "length (replies s)"]]
  show "length (replies (snd (m s))) \<le> length (replies s)"
    by (simp add: preserves_def)
qed

section \<open>Saving device entropy\<close>

subsection \<open>The file system and standard output\<close>

text \<open>
  \<^verbatim>\<open>os.Stat\<close>, \<^verbatim>\<open>os.Chmod\<close>, \<^verbatim>\<open>os.Create\<close>, \<^verbatim>\<open>file.Write\<close> and \<^verbatim>\<open>file.Close\<close>:
  each call asks the oracle \<open>fs_err\<close> for its outcome. File modes are not part of the
  model. A write that reports no error has written the whole buffer (the contract of
  \<^verbatim>\<open>io.Writer\<close>); a write that fails is taken to have written nothing.
\<close>
definition fs_call :: "error option io" where
  "fs_call s = (Returns (fs_err s (fs_clock s)), s\<lparr>fs_clock := Suc (fs_clock s)\<rparr>)"

definition os_Stat :: "string \<Rightarrow> (error + nat) io" where
  "os_Stat name =
     io_check fs_call Inl
       (\<lambda>s. (Returns (case files s name of None \<Rightarrow> Inl ErrNotExist | Some c \<Rightarrow> Inr (length c)), s))"

definition os_Chmod :: "string \<Rightarrow> error option io" where
  "os_Chmod name = fs_call"

definition os_Create :: "string \<Rightarrow> error option io" where
  "os_Create name =
     io_check fs_call Some (\<lambda>s. (Returns None, s\<lparr>files := (files s)(name \<mapsto> [])\<rparr>))"

definition file_Write :: "string \<Rightarrow> byte list \<Rightarrow> error option io" where
  "file_Write name buf =
     io_check fs_call Some
       (\<lambda>s. (Returns None,
              s\<lparr>files := (files s)(name \<mapsto> (case files s name of None \<Rightarrow> buf | Some c \<Rightarrow> c @ buf))\<rparr>))"

definition file_Close :: "string \<Rightarrow> error option io" where
  "file_Close name = fs_call"

text \<open>\<^verbatim>\<open>fmt.Print(buf)\<close>: one more item on standard output.\<close>
definition fmt_Print :: "byte list \<Rightarrow> error option io" where
  "fmt_Print buf s = (Returns None, s\<lparr>stdout := stdout s @ [buf]\<rparr>)"

lemma pres_fs_call [pres]: "stable_io P \<Longrightarrow> preserves P fs_call"
  by (simp add: preserves_def stable_io_def stable_tr_def fs_call_def)

lemma pres_os_Stat [pres]: "stable_io P \<Longrightarrow> preserves P (os_Stat name)"
  unfolding os_Stat_def by (intro pres) (simp_all add: preserves_def)

lemma pres_os_Chmod [pres]: "stable_io P \<Longrightarrow> preserves P (os_Chmod name)"
  unfolding os_Chmod_def by (intro pres)

lemma pres_os_Create [pres]: "stable_io P \<Longrightarrow> preserves P (os_Create name)"
  unfolding os_Create_def by (intro pres) (simp_all add: preserves_def stable_io_def stable_tr_def)

lemma pres_file_Write [pres]: "stable_io P \<Longrightarrow> preserves P (file_Write name buf)"
  unfolding file_Write_def by (intro pres) (simp_all add: preserves_def stable_io_def stable_tr_def)

lemma pres_file_Close [pres]: "stable_io P \<Longrightarrow> preserves P (file_Close name)"
  unfolding file_Close_def by (intro pres)

lemma pres_fmt_Print [pres]: "stable_io P \<Longrightarrow> preserves P (fmt_Print buf)"
  by (simp add: preserves_def stable_io_def stable_tr_def fmt_Print_def)

subsection \<open>The closures of \<^verbatim>\<open>SaveDeviceEntropyInFile\<close>\<close>

text \<open>
  The \<^verbatim>\<open>ButtonRequest\<close> branch of \<^verbatim>\<open>processGetEntropyResponse\<close> up to its read: send
  the acknowledgement, simulate the press if enabled, read the next message.
\<close>
definition button_ack_round :: "handle \<Rightarrow> (error + Message) io" where
  "button_ack_round h =
     io_try (build ReqButtonAck) Inl (\<lambda>chunks.
       io_check (sendToDeviceNoAnswer h chunks) Inl
         (io_check simulate_if_enabled Inl (ReadFrom h)))"

lemma consumes_button_ack_round: "consumes_reply (button_ack_round h)"
  unfolding button_ack_round_def
  by (intro consumes_try consumes_check consumes_ReadFrom keeps)

lemma pres_SimulateButtonPress [pres]: "stable_io P \<Longrightarrow> preserves P SimulateButtonPress"
  by (simp add: preserves_def SimulateButtonPress_def with_dev_def stable_io_def stable_tr_def dev_Write_def
      split: sum.splits option.splits)

lemma pres_simulate_if_enabled [pres]: "stable_io P \<Longrightarrow> preserves P simulate_if_enabled"
  using pres_SimulateButtonPress [of P]
  by (simp add: preserves_def simulate_if_enabled_def)

lemma pres_button_ack_round [pres]: "stable_io P \<Longrightarrow> preserves P (button_ack_round h)"
  unfolding button_ack_round_def by (intro pres)

text \<open>
  \<^verbatim>\<open>processGetEntropyResponse\<close>. The captured variable \<^verbatim>\<open>err\<close> it tests first is nil at
  every call: it is only assigned on the paths that return it to the caller, which
  returns at once.
\<close>
function processGetEntropyResponse :: "handle \<Rightarrow> Message \<Rightarrow> (error + byte list) io" where
  "processGetEntropyResponse h msg s =
     (if Kind msg \<noteq> MessageType_Entropy then
        (if Kind msg = MessageType_ButtonRequest then
           (case button_ack_round h s of
              (Returns (Inr msg'), s') \<Rightarrow> processGetEntropyResponse h msg' s'
            | (Returns (Inl e), s') \<Rightarrow> (Returns (Inl e), s')
            | (Blocks, s') \<Rightarrow> (Blocks, s')
            | (Panics, s') \<Rightarrow> (Panics, s'))
         else (case DecodeFailMsg s msg of
                 Inl e \<Rightarrow> (Returns (Inl e), s)
               | Inr msgStr \<Rightarrow> (Returns (Inl (ErrNew msgStr)), s)))
      else (Returns (DecodeResponseEntropyMessage s msg), s))"
  by pat_completeness auto
termination
proof (relation "measure (\<lambda>(h, msg, s). length (replies s))")
  show "wf (measure (\<lambda>(h, msg, s). length (replies s)))" by simp
next
  fix h :: handle and msg :: Message and s x1 s' x1a msg'
  assume "(x1, s') = button_ack_round h s" "x1 = Returns x1a" "x1a = Inr msg'"
  then have "button_ack_round h s = (Returns (Inr msg'), s')" by simp
  from consumes_replyD [OF consumes_button_ack_round this]
  show "((h, msg', s'), (h, msg, s)) \<in> measure (\<lambda>(h, msg, s). length (replies s))"
    by simp
qed

declare processGetEntropyResponse.simps [simp del]

lemma pres_processGetEntropyResponse [pres]:
  assumes "stable_io P"
  shows "preserves P (processGetEntropyResponse h msg)"
proof -
  have "P s \<Longrightarrow> P (snd (processGetEntropyResponse h msg s))" for s
  proof (induction h msg s rule: processGetEntropyResponse.induct)
    case (1 h msg s)
    note unfold = processGetEntropyResponse.simps [of h msg s]
    show ?case
    proof (cases "Kind msg \<noteq> MessageType_Entropy \<and> Kind msg = MessageType_ButtonRequest")
      case False
      with "1.prems" show ?thesis by (auto simp: unfold split: sum.splits)
    next
      case True
      obtain r s' where rd: "button_ack_round h s = (r, s')"
        by (cases "button_ack_round h s")
      from preservesD [OF pres_button_ack_round [OF assms] "1.prems" rd]
      have P': "P s'" .
      show ?thesis
      proof (cases r)
        case (Returns x)
        show ?thesis
        proof (cases x)
          case (Inl e)
          with True rd Returns P' show ?thesis by (simp add: unfold)
        next
          case (Inr msg')
          from True have a: "Kind msg \<noteq> MessageType_Entropy" and b: "Kind msg = MessageType_ButtonRequest"
            by simp_all
          from "1.IH" [OF a b rd [symmetric] Returns Inr P'] True rd Returns Inr
          show ?thesis by (simp add: unfold)
        qed
      next
        case Blocks
        with True rd P' show ?thesis by (simp add: unfold)
      next
        case Panics
        with True rd P' show ?thesis by (simp add: unfold)
      qed
    qed
  qed
  then show ?thesis by (simp add: preserves_def)
qed

lemma keeps_processGetEntropyResponse [keeps]: "keeps_replies (processGetEntropyResponse h msg)"
  by (rule keeps_from_preserves) (rule pres_processGetEntropyResponse)

text \<open>\<^verbatim>\<open>getEntropy\<close>: build the request for \<open>bytes\<close> bytes, send it, process the response.\<close>
definition getEntropy :: "(uint32 \<Rightarrow> error + chunk list) \<Rightarrow> uint32 \<Rightarrow> (error + byte list) io" where
  "getEntropy getEntropyMsgBuilder bytes =
     io_try (io_return (getEntropyMsgBuilder bytes)) Inl (\<lambda>chunks.
       with_dev (\<lambda>h. io_try (SendToDevice h chunks) Inl (processGetEntropyResponse h)))"

lemma consumes_getEntropy: "consumes_reply (getEntropy getEntropyMsgBuilder bytes)"
  unfolding getEntropy_def
  by (intro consumes_try consumes_with_dev consumes_then_keeps consumes_SendToDevice keeps)

lemma pres_SendToDevice [pres]: "stable_io P \<Longrightarrow> preserves P (SendToDevice h cs)"
  unfolding SendToDevice_def by (intro pres)

lemma pres_getEntropy [pres]: "stable_io P \<Longrightarrow> preserves P (getEntropy getEntropyMsgBuilder bytes)"
  unfolding getEntropy_def by (intro pres)

text \<open>
  \<^verbatim>\<open>processBytes\<close>: print to standard output, or write the whole buffer to the file (the
  write loop makes no call for an empty buffer). The progress bar is display only.
\<close>
definition processBytes :: "bool \<Rightarrow> string \<Rightarrow> byte list \<Rightarrow> error option io" where
  "processBytes usingStdout outFile buf =
     (if usingStdout then fmt_Print buf
      else if buf = [] then io_return None
      else file_Write outFile buf)"

text \<open>\<^verbatim>\<open>checkProducedFile\<close>: the size of the file must be the number of bytes asked for.\<close>
definition checkProducedFile :: "bool \<Rightarrow> string \<Rightarrow> uint32 \<Rightarrow> error option io" where
  "checkProducedFile usingStdout outFile entropyBytes =
     (if \<not> usingStdout then
        io_try (os_Stat outFile) Some (\<lambda>size.
          if int size \<noteq> uint entropyBytes
          then io_return (Some (ErrFileSize size (unat entropyBytes)))
          else io_return None)
      else io_return None)"

lemma pres_processBytes [pres]: "stable_io P \<Longrightarrow> preserves P (processBytes usingStdout outFile buf)"
  unfolding processBytes_def by (intro pres)

lemma pres_checkProducedFile [pres]:
  "stable_io P \<Longrightarrow> preserves P (checkProducedFile usingStdout outFile entropyBytes)"
  unfolding checkProducedFile_def by (intro pres)

lemma keeps_processBytes [keeps]: "keeps_replies (processBytes usingStdout outFile buf)"
  by (rule keeps_from_preserves) (rule pres_processBytes)

text \<open>The \<^verbatim>\<open>for receivedEntropyBytes < entropyBytes\<close> loop and the final check.\<close>
function stream_loop ::
  "bool \<Rightarrow> string \<Rightarrow> uint32 \<Rightarrow> (uint32 \<Rightarrow> error + chunk list) \<Rightarrow> uint32 \<Rightarrow> error option io" where
  "stream_loop usingStdout outFile entropyBytes getEntropyMsgBuilder receivedEntropyBytes s =
     (if receivedEntropyBytes < entropyBytes then
        (case getEntropy getEntropyMsgBuilder (entropyBytes - receivedEntropyBytes) s of
           (Returns (Inr entropy), s') \<Rightarrow>
             (case processBytes usingStdout outFile entropy s' of
                (Returns None, s'') \<Rightarrow>
                  stream_loop usingStdout outFile entropyBytes getEntropyMsgBuilder
                    (receivedEntropyBytes + of_nat (length entropy)) s''
              | (Returns (Some e), s'') \<Rightarrow> (Returns (Some e), s'')
              | (Blocks, s'') \<Rightarrow> (Blocks, s'')
              | (Panics, s'') \<Rightarrow> (Panics, s''))
         | (Returns (Inl e), s') \<Rightarrow> (Returns (Some e), s')
         | (Blocks, s') \<Rightarrow> (Blocks, s')
         | (Panics, s') \<Rightarrow> (Panics, s'))
      else checkProducedFile usingStdout outFile entropyBytes s)"
  by pat_completeness auto
termination
proof (relation "measure (\<lambda>(usingStdout, outFile, entropyBytes, b, received, s). length (replies s))")
  show "wf (measure (\<lambda>(usingStdout, outFile, entropyBytes, b, received, s). length (replies s)))"
    by simp
next
  fix usingStdout :: bool and outFile :: string and entropyBytes :: uint32
    and getEntropyMsgBuilder :: "uint32 \<Rightarrow> error + chunk list" and receivedEntropyBytes :: uint32
    and s x1 s' x1a entropy x1b s'' x1c
  assume "(x1, s') = getEntropy getEntropyMsgBuilder (entropyBytes - receivedEntropyBytes) s"
    "x1 = Returns x1a" "x1a = Inr entropy"
    "(x1b, s'') = processBytes usingStdout outFile entropy s'"
  then have g: "getEntropy getEntropyMsgBuilder (entropyBytes - receivedEntropyBytes) s
                  = (Returns (Inr entropy), s')"
    and p: "processBytes usingStdout outFile entropy s' = (x1b, s'')" by simp_all
  from consumes_replyD [OF consumes_getEntropy g] keeps_repliesD [OF keeps_processBytes p]
  show "((usingStdout, outFile, entropyBytes, getEntropyMsgBuilder,
           receivedEntropyBytes + of_nat (length entropy), s''),
          (usingStdout, outFile, entropyBytes, getEntropyMsgBuilder, receivedEntropyBytes, s))
          \<in> measure (\<lambda>(usingStdout, outFile, entropyBytes, b, received, s). length (replies s))"
    by simp
qed

declare stream_loop.simps [simp del]

text \<open>
  From \<^verbatim>\<open>d.Connect()\<close> to the end of the function body, with the deferred
  \<^verbatim>\<open>d.Disconnect()\<close> (whose error is only logged).
\<close>
definition stream_entropy ::
  "bool \<Rightarrow> string \<Rightarrow> uint32 \<Rightarrow> (uint32 \<Rightarrow> error + chunk list) \<Rightarrow> error option io" where
  "stream_entropy usingStdout outFile entropyBytes getEntropyMsgBuilder =
     io_check Connect Some (deferred Disconnect
       (io_try (getEntropy getEntropyMsgBuilder entropyBytes) Some (\<lambda>entropy.
          io_check (processBytes usingStdout outFile entropy) Some
            (stream_loop usingStdout outFile entropyBytes getEntropyMsgBuilder
               (of_nat (length entropy))))))"

text \<open>
  \<^verbatim>\<open>SaveDeviceEntropyInFile\<close>. For a file the deferred calls run in reverse order of
  their registration: \<^verbatim>\<open>Disconnect\<close>, \<^verbatim>\<open>file.Close\<close>, \<^verbatim>\<open>os.Chmod(outFile, 0444)\<close>
  and the check that decides whether the progress bar prints its completion.
\<close>
definition SaveDeviceEntropyInFile ::
  "string \<Rightarrow> uint32 \<Rightarrow> (uint32 \<Rightarrow> error + chunk list) \<Rightarrow> error option io" where
  "SaveDeviceEntropyInFile outFile entropyBytes getEntropyMsgBuilder =
     (if outFile = ''-'' then stream_entropy True outFile entropyBytes getEntropyMsgBuilder
      else
        deferred (checkProducedFile False outFile entropyBytes)
          (io_bind (io_bind (os_Stat outFile) (\<lambda>r. case r of
                       Inr _ \<Rightarrow> os_Chmod outFile
                     | Inl _ \<Rightarrow> io_return None))
             (\<lambda>_. io_check (os_Create outFile) Some
                (deferred (os_Chmod outFile)
                   (deferred (file_Close outFile)
                      (stream_entropy False outFile entropyBytes getEntropyMsgBuilder))))))"

section \<open>Every operation preserves a stable property\<close>

lemma pres_Initialize [pres]: "stable_io P \<Longrightarrow> preserves P (Initialize h)"
  unfolding Initialize_def by (intro pres)

lemma pres_ButtonAck [pres]: "stable P \<Longrightarrow> preserves P ButtonAck"
  unfolding ButtonAck_def by (intro pres stable_imp_io)

lemma pres_exchange [pres]: "stable_io P \<Longrightarrow> preserves P (exchange r)"
  unfolding exchange_def by (intro pres)

lemma pres_close_unless_disconnected [pres]:
  "stable_io P \<Longrightarrow> preserves P body \<Longrightarrow> preserves P (close_unless_disconnected body)"
  unfolding close_unless_disconnected_def by (intro pres)

lemma pres_ack_if_button_request [pres]:
  "stable P \<Longrightarrow> preserves P m \<Longrightarrow> preserves P (ack_if_button_request m)"
  unfolding ack_if_button_request_def by (intro pres stable_imp_io)

lemma pres_AddressGen: "stable P \<Longrightarrow> preserves P (AddressGen addressN startIndex confirmAddress)"
  unfolding AddressGen_def by (intro pres stable_imp_io)

lemma pres_ApplySettings: "stable P \<Longrightarrow> preserves P (ApplySettings usePassphrase label language)"
  unfolding ApplySettings_def by (intro pres stable_imp_io)

lemma pres_Cancel: "stable P \<Longrightarrow> preserves P Cancel"
  unfolding Cancel_def by (intro pres stable_imp_io)

lemma pres_CheckMessageSignature:
  "stable P \<Longrightarrow> preserves P (CheckMessageSignature message signature address)"
  unfolding CheckMessageSignature_def by (intro pres stable_imp_io)

lemma pres_GetFeatures: "stable P \<Longrightarrow> preserves P GetFeatures"
  unfolding GetFeatures_def by (intro pres stable_imp_io)

lemma pres_TransactionSign: "stable P \<Longrightarrow> preserves P (TransactionSign inputs outputs)"
  unfolding TransactionSign_def by (intro pres stable_imp_io)

lemma pres_PassphraseAck: "stable P \<Longrightarrow> preserves P (PassphraseAck passphrase)"
  unfolding PassphraseAck_def by (intro pres stable_imp_io)

lemma pres_WordAck: "stable P \<Longrightarrow> preserves P (WordAck w)"
  unfolding WordAck_def by (intro pres stable_imp_io)

lemma pres_PinMatrixAck: "stable P \<Longrightarrow> preserves P (PinMatrixAck p)"
  unfolding PinMatrixAck_def by (intro pres stable_imp_io)

lemma pres_ChangePin: "stable P \<Longrightarrow> preserves P (ChangePin removePin)"
  unfolding ChangePin_def by (intro pres stable_imp_io)

lemma pres_GenerateMnemonic: "stable P \<Longrightarrow> preserves P (GenerateMnemonic wordCount usePassphrase)"
  unfolding GenerateMnemonic_def by (intro pres stable_imp_io)

lemma pres_Recovery: "stable P \<Longrightarrow> preserves P (Recovery wordCount usePassphrase dryRun)"
  unfolding Recovery_def by (intro pres stable_imp_io)

lemma pres_SetMnemonic: "stable P \<Longrightarrow> preserves P (SetMnemonic mnemonic)"
  unfolding SetMnemonic_def by (intro pres stable_imp_io)

lemma pres_SignMessage: "stable P \<Longrightarrow> preserves P (SignMessage addressIndex message)"
  unfolding SignMessage_def by (intro pres stable_imp_io)

lemma pres_Wipe: "stable P \<Longrightarrow> preserves P Wipe"
  unfolding Wipe_def by (intro pres stable_imp_io)

lemma pres_Backup_loop [pres]:
  assumes "stable P"
  shows "preserves P (Backup_loop disconnected msg)"
proof -
  have "P s \<Longrightarrow> P (snd (Backup_loop disconnected msg s))" for s
  proof (induction disconnected msg s rule: Backup_loop.induct)
    case (1 disconnected msg s)
    note unfold = Backup_loop.simps [of disconnected msg s]
    show ?case
    proof (cases "Kind msg = MessageType_ButtonRequest")
      case False
      with "1.prems" show ?thesis by (simp add: unfold)
    next
      case True
      obtain r s' where rd: "ButtonAck s = (r, s')" by (cases "ButtonAck s")
      from preservesD [OF pres_ButtonAck [OF assms] "1.prems" rd] have P': "P s'" .
      show ?thesis
      proof (cases r)
        case (Returns x)
        show ?thesis
        proof (cases x)
          case (Inl e)
          with True rd Returns P' show ?thesis by (simp add: unfold)
        next
          case (Inr msg')
          from "1.IH" [OF True rd [symmetric] Returns Inr P'] True rd Returns Inr
          show ?thesis by (simp add: unfold)
        qed
      next
        case Blocks
        with True rd P' show ?thesis by (simp add: unfold)
      next
        case Panics
        with True rd P' show ?thesis by (simp add: unfold)
      qed
    qed
  qed
  then show ?thesis by (simp add: preserves_def)
qed

lemma pres_Backup: "stable P \<Longrightarrow> preserves P Backup"
  unfolding Backup_def by (intro pres stable_imp_io)

lemma pres_fail_with_decoded [pres]: "preserves P (fail_with_decoded m)"
  by (simp add: preserves_def fail_with_decoded_def split: sum.splits)

lemma pres_FirmwareUpload_upload [pres]:
  "stable_io P \<Longrightarrow> preserves P (FirmwareUpload_upload h payload hash erasemsg)"
  unfolding FirmwareUpload_upload_def by (intro pres)

lemma pres_FirmwareUpload: 
  assumes "stable P"
  shows "preserves P (FirmwareUpload payload hash)"
proof -
  have "preserves P (io_check Connect Some (with_dev (\<lambda>h. deferred (dev_Close h)
             (io_check (Initialize h) Some
                (io_try (build (ReqFirmwareErase payload)) Some (\<lambda>chunks.
                   io_try (SendToDevice h chunks) Some (\<lambda>erasemsg.
                     if Kind erasemsg = MessageType_Success
                     then FirmwareUpload_upload h payload hash erasemsg
                     else if Kind erasemsg = MessageType_Failure then fail_with_decoded erasemsg
                     else io_return (Some (ErrUnexpectedMessageType (Kind erasemsg))))))))))"
    by (intro pres stable_imp_io assms)
  then show ?thesis by (simp add: preserves_def FirmwareUpload_def)
qed

lemma pres_SetAutoPressButton:
  assumes "stable_io P"
  shows "preserves P (SetAutoPressButton simulate buttonType)"
proof (rule preservesI)
  fix s r s'
  assume P: "P s" and run: "SetAutoPressButton simulate buttonType s = (r, s')"
  from assms P have 1: "P (s\<lparr>simulateButtonPress := simulate\<rparr>)" by (simp add: stable_io_def stable_tr_def)
  with assms have 2: "P (s\<lparr>simulateButtonPress := simulate, simulateButtonType := t\<rparr>)" for t
    unfolding stable_io_def stable_tr_def by blast
  from run P 1 2 show "P s'"
    by (auto simp: SetAutoPressButton_def split: if_splits)
qed

lemma pres_stream_loop [pres]:
  assumes "stable_io P"
  shows "preserves P (stream_loop usingStdout outFile entropyBytes b received)"
proof -
  have "P s \<Longrightarrow> P (snd (stream_loop usingStdout outFile entropyBytes b received s))" for s
  proof (induction usingStdout outFile entropyBytes b received s rule: stream_loop.induct)
    case (1 usingStdout outFile entropyBytes b received s)
    note unfold = stream_loop.simps [of usingStdout outFile entropyBytes b received s]
    show ?case
    proof (cases "received < entropyBytes")
      case False
      from preservesD [OF pres_checkProducedFile [OF assms] "1.prems", of usingStdout outFile entropyBytes]
      have "P (snd (checkProducedFile usingStdout outFile entropyBytes s))"
        by (metis prod.collapse)
      with False show ?thesis by (simp add: unfold)
    next
      case True
      obtain r s' where g: "getEntropy b (entropyBytes - received) s = (r, s')"
        by (cases "getEntropy b (entropyBytes - received) s")
      from preservesD [OF pres_getEntropy [OF assms] "1.prems" g] have P': "P s'" .
      show ?thesis
      proof (cases r)
        case (Returns x)
        show ?thesis
        proof (cases x)
          case (Inl e)
          with True g Returns P' show ?thesis by (simp add: unfold)
        next
          case (Inr entropy)
          obtain r2 s'' where p: "processBytes usingStdout outFile entropy s' = (r2, s'')"
            by (cases "processBytes usingStdout outFile entropy s'")
          from preservesD [OF pres_processBytes [OF assms] P' p] have P'': "P s''" .
          show ?thesis
          proof (cases r2)
            case (Returns y)
            note r2 = this
            show ?thesis
            proof (cases y)
              case None
              from "1.IH" [OF True g [symmetric] \<open>r = Returns x\<close> Inr p [symmetric] r2 None P'']
                True g \<open>r = Returns x\<close> Inr p r2 None
              show ?thesis by (simp add: unfold)
            next
              case (Some e)
              with True g \<open>r = Returns x\<close> Inr p r2 P'' show ?thesis by (simp add: unfold)
            qed
          next
            case Blocks
            with True g \<open>r = Returns x\<close> Inr p P'' show ?thesis by (simp add: unfold)
          next
            case Panics
            with True g \<open>r = Returns x\<close> Inr p P'' show ?thesis by (simp add: unfold)
          qed
        qed
      next
        case Blocks
        with True g P' show ?thesis by (simp add: unfold)
      next
        case Panics
        with True g P' show ?thesis by (simp add: unfold)
      qed
    qed
  qed
  then show ?thesis by (simp add: preserves_def)
qed

lemma pres_stream_entropy [pres]:
  "stable P \<Longrightarrow> preserves P (stream_entropy usingStdout outFile entropyBytes b)"
  unfolding stream_entropy_def by (intro pres stable_imp_io)

lemma pres_SaveDeviceEntropyInFile:
  "stable P \<Longrightarrow> preserves P (SaveDeviceEntropyInFile outFile entropyBytes b)"
  unfolding SaveDeviceEntropyInFile_def by (intro pres stable_imp_io)

lemma pres_GetUsbInfo:
  assumes "stable P"
  shows "preserves P GetUsbInfo"
proof -
  have "preserves P (io_check Connect Inl (io_check Disconnect Inl GetDeviceInfos))"
    by (intro pres stable_imp_io assms)
  with pres_GetDeviceInfos [of P] show ?thesis by (simp add: preserves_def GetUsbInfo_def)
qed

lemma pres_Available: "preserves P Available"
  unfolding Available_def by (intro pres)

section \<open>Facts about \<^verbatim>\<open>Connect\<close> and a concrete world\<close>

lemma Connect_eq:
  "Connect s =
     (let s0 = (case dev s of None \<Rightarrow> s | Some h \<Rightarrow> (log_event (EvClose h) s)\<lparr>dev := None\<rparr>)
      in case io_err s0 (length (trace s0)) of
           Some e \<Rightarrow> (Returns (Some e), log_event EvOpenFailed s0)
         | None \<Rightarrow> (Returns None,
                     (log_event (EvOpen (length (trace s0))) s0)\<lparr>dev := Some (length (trace s0))\<rparr>))"
  by (simp add: Connect_def io_bind_def GetDevice_def dev_Close_def io_return_def Let_def
      split: option.splits)

lemma Connect_Returns_None: "Connect s = (Returns None, s1) \<Longrightarrow> \<exists>h. dev s1 = Some h"
  by (auto simp: Connect_eq Let_def log_event_def split: option.splits)

text \<open>
  Builders for concrete runs: every request is one frame of one byte, which tells apart
  the requests the runs below look for in the trace; a firmware upload takes two frames.
\<close>
fun sample_encode :: "request \<Rightarrow> error + chunk list" where
  "sample_encode ReqInitialize = Inr [[0]]"
| "sample_encode ReqConnected = Inr [[1]]"
| "sample_encode (ReqFirmwareErase payload) = Inr [[6]]"
| "sample_encode (ReqFirmwareUpload payload hash) = Inr [[7], [8]]"
| "sample_encode ReqButtonAck = Inr [[27]]"
| "sample_encode (ReqEntropyAck n) = Inr [[36]]"
| "sample_encode r = Inr [[99]]"

text \<open>A decoder of failure messages for concrete runs: the first byte selects the text.\<close>
definition sample_text :: "byte list \<Rightarrow> string" where
  "sample_text bs =
     (case bs of
        [] \<Rightarrow> []
      | b # _ \<Rightarrow> if b = 0 then ''bad length''
                 else if b = 1 then ''firmware erased''
                 else ''invalid firmware'')"

text \<open>
  A world for concrete runs: a USB wallet, no call fails, an entropy message decodes to
  its payload, nothing has happened yet and the device has nothing to say.
\<close>
definition idle_world :: system where
  "idle_world =
     \<lparr>Driver = DeviceTypeUSB, dev = None, simulateButtonPress = False,
      simulateButtonType = - 1, trace = [], replies = [],
      io_err = (\<lambda>_. None), encode = sample_encode,
      DecodeFailMsg = (\<lambda>m. Inr (sample_text (Data m))),
      DecodeResponseEntropyMessage = (\<lambda>m. Inr (Data m)),
      files = (\<lambda>_. None), stdout = [], fs_err = (\<lambda>_. None), fs_clock = 0,
      device_infos = Inr 1\<rparr>"

lemma dev_Connected: "dev (snd (Connected s)) = dev s"
proof -
  have "stable_io (\<lambda>s'. dev s' = dev s)" by (simp add: stable_io_def stable_tr_def log_event_def)
  from pres_Connected [OF this] show ?thesis by (simp add: preserves_def)
qed

lemma Connected_no_dev: "dev s = None \<Longrightarrow> Connected s = (Returns False, s)"
  by (simp add: Connected_def)

lemma Connected_True_dev: 
  assumes "Connected s = (Returns True, s1)"
  shows "\<exists>h. dev s = Some h \<and> dev s1 = Some h"
proof (cases "dev s")
  case None
  with assms show ?thesis by (simp add: Connected_def)
next
  case (Some h)
  with dev_Connected [of s] assms show ?thesis by simp
qed

section \<open>What the driver never changes, and what an exchange logs\<close>

text \<open>The builders, the decoders, the driver type and the oracles are never assigned.\<close>
definition same_world :: "system \<Rightarrow> system \<Rightarrow> bool" where
  "same_world s s' =
     (encode s' = encode s \<and> DecodeFailMsg s' = DecodeFailMsg s \<and>
      DecodeResponseEntropyMessage s' = DecodeResponseEntropyMessage s \<and>
      Driver s' = Driver s \<and> io_err s' = io_err s \<and> fs_err s' = fs_err s \<and>
      device_infos s' = device_infos s)"

lemma stable_same_world: "stable (same_world s)"
  by (auto simp: stable_def stable_io_def stable_tr_def same_world_def log_event_def Connect_eq Let_def
      split: option.splits)

lemma same_world_refl [simp]: "same_world s s"
  by (simp add: same_world_def)

lemma same_world_run:
  assumes "\<And>P. stable P \<Longrightarrow> preserves P m" and "m s = (r, s')"
  shows "same_world s s'"
  using preservesD [OF assms(1) [OF stable_same_world] same_world_refl assms(2)] .

lemma same_world_Connect: "Connect s = (r, s') \<Longrightarrow> same_world s s'"
  by (rule same_world_run [where m = Connect]) (rule pres_Connect)

lemma sendToDeviceNoAnswer_ok:
  "sendToDeviceNoAnswer h cs s = (Returns None, s') \<Longrightarrow>
   s' = s\<lparr>trace := trace s @ map (EvWrite h) cs\<rparr>"
proof (induction cs arbitrary: s)
  case Nil
  then show ?case by simp
next
  case (Cons c cs)
  from Cons.prems have ok: "io_err s (length (trace s)) = None"
    and rest: "sendToDeviceNoAnswer h cs (log_event (EvWrite h c) s) = (Returns None, s')"
    by (auto simp: dev_Write_def split: option.splits)
  from Cons.IH [OF rest] show ?case by (simp add: log_event_def)
qed

lemma sendToDeviceNoAnswer_result:
  "\<exists>r. fst (sendToDeviceNoAnswer h cs s) = Returns r"
proof (induction cs arbitrary: s)
  case Nil
  show ?case by simp
next
  case (Cons c cs)
  from Cons [of "log_event (EvWrite h c) s"] show ?case
    by (cases "io_err s (length (trace s))") (simp_all add: dev_Write_def)
qed

lemma ReadFrom_Returns:
  "ReadFrom h s = (Returns r, s') \<Longrightarrow>
   replies s = r # tl (replies s) \<and>
   s' = s\<lparr>trace := trace s @ [EvRead h], replies := tl (replies s)\<rparr>"
  by (auto simp: ReadFrom_def log_event_def split: list.splits)

lemma SendToDevice_Returns_Inr:
  assumes "SendToDevice h cs s = (Returns (Inr m), s')"
  shows "replies s = Inr m # tl (replies s) \<and>
         s' = s\<lparr>trace := trace s @ map (EvWrite h) cs @ [EvRead h], replies := tl (replies s)\<rparr>"
proof -
  obtain r s1 where w: "sendToDeviceNoAnswer h cs s = (r, s1)"
    by (cases "sendToDeviceNoAnswer h cs s")
  with assms have r: "r = Returns None" and rd: "ReadFrom h s1 = (Returns (Inr m), s')"
    by (auto simp: SendToDevice_def io_check_def io_bind_def io_return_def
        split: outcome.splits option.splits)
  from sendToDeviceNoAnswer_ok [OF w [unfolded r]] ReadFrom_Returns [OF rd]
  show ?thesis by simp
qed

lemma SendToDevice_trace:
  "SendToDevice h cs s = (Returns (Inr m), s') \<Longrightarrow>
   trace s' = trace s @ map (EvWrite h) cs @ [EvRead h]"
  by (drule SendToDevice_Returns_Inr) (erule conjE, erule ssubst, simp)

lemma Initialize_ok:
  assumes "Initialize h s = (Returns None, s')"
  shows "\<exists>chunks. encode s ReqInitialize = Inr chunks \<and>
           trace s' = trace s @ map (EvWrite h) chunks @ [EvRead h]"
proof (cases "encode s ReqInitialize")
  case (Inl e)
  with assms show ?thesis
    by (simp add: Initialize_def io_try_def io_bind_def build_def io_return_def)
next
  case (Inr chunks)
  obtain r s1 where sd: "SendToDevice h chunks s = (r, s1)" by (cases "SendToDevice h chunks s")
  with assms Inr obtain m where "r = Returns (Inr m)" and "s1 = s'"
    by (auto simp: Initialize_def io_try_def io_bind_def build_def io_return_def
        split: outcome.splits sum.splits)
  with sd have "SendToDevice h chunks s = (Returns (Inr m), s')" by simp
  from SendToDevice_trace [OF this] Inr show ?thesis by simp
qed

lemma same_world_Initialize: "Initialize h s = (r, s') \<Longrightarrow> same_world s s'"
  by (rule same_world_run [where m = "Initialize h"]) (intro pres stable_imp_io)

lemma same_world_SendToDevice: "SendToDevice h cs s = (r, s') \<Longrightarrow> same_world s s'"
  by (rule same_world_run [where m = "SendToDevice h cs"]) (intro pres stable_imp_io)

section \<open>Draining entropy requests\<close>

text \<open>The writes one entropy acknowledgement attempts on handle \<open>h\<close>.\<close>
definition ack_events :: "handle \<Rightarrow> system \<Rightarrow> event list" where
  "ack_events h s =
     (case encode s (ReqEntropyAck entropyBufferSize) of
        Inl e \<Rightarrow> []
      | Inr entropyChunks \<Rightarrow> map (EvWrite h) entropyChunks)"

lemma fold_dev_Write:
  "fold (\<lambda>element s'. snd (dev_Write h element s')) cs s = s\<lparr>trace := trace s @ map (EvWrite h) cs\<rparr>"
  by (induction cs arbitrary: s) (simp_all add: dev_Write_def log_event_def)

lemma entropy_ack_eq: "entropy_ack h s = s\<lparr>trace := trace s @ ack_events h s\<rparr>"
  by (simp add: entropy_ack_def ack_events_def fold_dev_Write split: sum.splits)

lemma ack_events_cong [simp]:
  "ack_events h (s\<lparr>trace := tr\<rparr>) = ack_events h s"
  "ack_events h (s\<lparr>replies := rs\<rparr>) = ack_events h s"
  by (simp_all add: ack_events_def)

lemma Connected_loop_drain:
  assumes "\<forall>e\<in>set ers. Kind e = MessageType_EntropyRequest"
    and "Kind m \<noteq> MessageType_EntropyRequest"
    and "replies s = map Inr (tl (ers @ [m])) @ rest"
  shows "Connected_loop h (hd (ers @ [m])) s =
           (Returns (Kind m = MessageType_Success),
            s\<lparr>trace := trace s @ concat (map (\<lambda>_. ack_events h s @ [EvRead h]) ers),
              replies := rest\<rparr>)"
  using assms
proof (induction ers arbitrary: s)
  case Nil
  then show ?case by (simp add: Connected_loop.simps [of h m s])
next
  case (Cons e ers)
  let ?s' = "s\<lparr>trace := trace s @ ack_events h s @ [EvRead h],
               replies := map Inr (tl (ers @ [m])) @ rest\<rparr>"
  from Cons.prems have e: "Kind e = MessageType_EntropyRequest"
    and ers: "\<forall>e\<in>set ers. Kind e = MessageType_EntropyRequest" by simp_all
  from Cons.prems(3) have rep: "replies s = Inr (hd (ers @ [m])) # map Inr (tl (ers @ [m])) @ rest"
    by (cases ers) simp_all
  then have rd: "ReadFrom h (entropy_ack h s) = (Returns (Inr (hd (ers @ [m]))), ?s')"
    by (simp add: ReadFrom_def entropy_ack_eq log_event_def)
  have "replies ?s' = map Inr (tl (ers @ [m])) @ rest" by simp
  from Cons.IH [OF ers Cons.prems(2) this] e rd
  show ?case by (simp add: Connected_loop.simps [of h e s])
qed

lemma Connected_loop_read_error:
  assumes "\<forall>e\<in>set ers. Kind e = MessageType_EntropyRequest"
    and "ers \<noteq> []"
    and "replies s = map Inr (tl ers) @ Inl err # rest"
  shows "fst (Connected_loop h (hd ers) s) = Returns False"
  using assms
proof (induction ers arbitrary: s)
  case Nil
  then show ?case by simp
next
  case (Cons e ers)
  from Cons.prems have e: "Kind e = MessageType_EntropyRequest"
    and ers: "\<forall>e\<in>set ers. Kind e = MessageType_EntropyRequest" by simp_all
  show ?case
  proof (cases ers)
    case Nil
    with Cons.prems(3) e show ?thesis
      by (simp add: Connected_loop.simps [of h e s] ReadFrom_def entropy_ack_eq)
  next
    case (Cons e' ers')
    let ?s' = "s\<lparr>trace := trace s @ ack_events h s @ [EvRead h],
                 replies := map Inr (tl ers) @ Inl err # rest\<rparr>"
    from Cons Cons.prems(3)
    have rd: "ReadFrom h (entropy_ack h s) = (Returns (Inr (hd ers)), ?s')"
      by (simp add: ReadFrom_def entropy_ack_eq log_event_def)
    have "replies ?s' = map Inr (tl ers) @ Inl err # rest" by simp
    from Cons.IH [OF ers _ this] Cons e rd
    show ?thesis by (simp add: Connected_loop.simps [of h e s])
  qed
qed

lemma Connected_loop_no_panic: "fst (Connected_loop h msg s) \<noteq> Panics"
proof (induction h msg s rule: Connected_loop.induct)
  case (1 h msg s)
  note unfold = Connected_loop.simps [of h msg s]
  show ?case
  proof (cases "Kind msg = MessageType_EntropyRequest")
    case False
    then show ?thesis by (simp add: unfold)
  next
    case True
    show ?thesis
    proof (cases "replies s")
      case Nil
      with True show ?thesis by (simp add: unfold ReadFrom_def)
    next
      case (Cons r rs)
      then obtain s' where rd: "ReadFrom h (entropy_ack h s) = (Returns r, s')"
        by (simp add: ReadFrom_def)
      show ?thesis
      proof (cases r)
        case (Inl e)
        with True rd show ?thesis by (simp add: unfold)
      next
        case (Inr msg')
        from "1.IH" [OF True rd [symmetric] refl Inr] True rd Inr
        show ?thesis by (simp add: unfold)
      qed
    qed
  qed
qed

lemma Connected_no_panic: "fst (Connected s) \<noteq> Panics"
proof (cases "dev s")
  case None
  then show ?thesis by (simp add: Connected_def)
next
  case (Some h)
  show ?thesis
  proof (cases "encode s ReqConnected")
    case (Inl e)
    with Some show ?thesis by (simp add: Connected_def)
  next
    case (Inr chunks)
    obtain r s1 where w: "sendToDeviceNoAnswer h chunks s = (r, s1)"
      by (cases "sendToDeviceNoAnswer h chunks s")
    with sendToDeviceNoAnswer_result [of h chunks s] obtain err where r: "r = Returns err"
      by auto
    show ?thesis
    proof (cases err)
      case (Some e)
      with \<open>dev s = Some h\<close> Inr w r show ?thesis by (simp add: Connected_def)
    next
      case None
      show ?thesis
      proof (cases "replies s1")
        case Nil
        with \<open>dev s = Some h\<close> Inr w r None show ?thesis
          by (simp add: Connected_def ReadFrom_def)
      next
        case (Cons x xs)
        then obtain s2 where rd: "ReadFrom h s1 = (Returns x, s2)" by (simp add: ReadFrom_def)
        with \<open>dev s = Some h\<close> Inr w r None Connected_loop_no_panic show ?thesis
          by (cases x) (simp_all add: Connected_def)
      qed
    qed
  qed
qed

section \<open>The follow-up \<^verbatim>\<open>ButtonAck\<close>\<close>

lemma stable_io_prefix: "stable_io (\<lambda>s. prefix tr (trace s))"
  by (simp add: stable_io_def stable_tr_def log_event_def)

lemma Connect_ok:
  assumes "Connect s = (Returns None, s1)"
  shows "\<exists>h. dev s1 = Some h \<and>
             trace s1 = trace s @ (case dev s of None \<Rightarrow> [] | Some h' \<Rightarrow> [EvClose h']) @ [EvOpen h]"
  using assms by (auto simp: Connect_eq Let_def log_event_def split: option.splits)

lemma exchange_Returns_Inr:
  assumes "exchange r s = (Returns (Inr msg), s')"
  shows "\<exists>h chunks. dev s = Some h \<and> encode s r = Inr chunks \<and>
           SendToDevice h chunks s = (Returns (Inr msg), s')"
proof (cases "encode s r")
  case (Inl e)
  with assms show ?thesis
    by (simp add: exchange_def io_try_def io_bind_def build_def io_return_def)
next
  case (Inr chunks)
  show ?thesis
  proof (cases "dev s")
    case None
    with assms Inr show ?thesis
      by (simp add: exchange_def io_try_def io_bind_def build_def io_return_def with_dev_def)
  next
    case (Some h)
    with assms Inr show ?thesis
      by (simp add: exchange_def io_try_def io_bind_def build_def io_return_def with_dev_def)
  qed
qed

text \<open>The pattern of the six operations that hand over to \<^verbatim>\<open>ButtonAck\<close>.\<close>
lemma button_request_hands_over:
  assumes "Connect s = (Returns None, s1)"
    and "request_reply s1 = (Returns (Inr msg), s2)"
    and "Kind msg = MessageType_ButtonRequest"
  shows "io_check Connect Inl (close_unless_disconnected (ack_if_button_request request_reply)) s
           = ButtonAck s2"
proof -
  obtain r s3 where b: "ButtonAck s2 = (r, s3)" by (cases "ButtonAck s2")
  with assms show ?thesis
    by (cases r)
       (simp_all add: io_check_def io_bind_def io_return_def close_unless_disconnected_def
          ack_if_button_request_def)
qed

text \<open>\<^verbatim>\<open>ButtonAck\<close> begins by closing the held handle and asking the driver for a device.\<close>
lemma ButtonAck_reconnects:
  assumes "dev s = Some h"
  shows "\<exists>ev rest. trace (snd (ButtonAck s)) = trace s @ EvClose h # ev # rest \<and>
           (ev = EvOpenFailed \<or> ev = EvOpen (Suc (length (trace s))))"
proof (cases "io_err s (Suc (length (trace s)))")
  case (Some e)
  with assms have "trace (snd (ButtonAck s)) = trace s @ EvClose h # EvOpenFailed # []"
    by (simp add: ButtonAck_def io_check_def io_bind_def io_return_def Connect_eq Let_def
        log_event_def)
  then show ?thesis by blast
next
  case None
  let ?T = "trace s @ [EvClose h, EvOpen (Suc (length (trace s)))]"
  let ?s1 = "s\<lparr>trace := ?T, dev := Some (Suc (length (trace s)))\<rparr>"
  let ?K = "with_dev (\<lambda>h. deferred (dev_Close h)
       (io_try (build ReqButtonAck) Inl (\<lambda>buttonChunks.
          io_check (sendToDeviceNoAnswer h buttonChunks) Inl
            (io_check simulate_if_enabled Inl
               (io_try (ReadFrom h) Inl (ButtonAck_loop h))))))"
  from None assms have c: "Connect s = (Returns None, ?s1)"
    by (simp add: Connect_eq Let_def log_event_def)
  have "preserves (\<lambda>s. prefix ?T (trace s)) ?K"
    by (intro pres stable_io_prefix)
  then have "prefix ?T (trace (snd (?K ?s1)))" by (simp add: preserves_def)
  moreover from c have "ButtonAck s = ?K ?s1"
    by (simp add: ButtonAck_def io_check_def io_bind_def)
  ultimately obtain rest where "trace (snd (ButtonAck s)) = ?T @ rest"
    by (auto simp: prefix_def)
  then show ?thesis by simp
qed

section \<open>Rounds of \<^verbatim>\<open>ButtonAck\<close>\<close>

text \<open>
  \<open>ack_rounds s ms = Some s'\<close>: calling \<^verbatim>\<open>ButtonAck\<close> once for each message of \<open>ms\<close>,
  starting in \<open>s\<close>, returns these messages in this order and ends in \<open>s'\<close>.
\<close>
fun ack_rounds :: "system \<Rightarrow> Message list \<Rightarrow> system option" where
  "ack_rounds s [] = Some s"
| "ack_rounds s (m # ms) =
     (case ButtonAck s of
        (Returns (Inr m'), s') \<Rightarrow> if m' = m then ack_rounds s' ms else None
      | _ \<Rightarrow> None)"

lemma ack_rounds_Cons:
  "ack_rounds s (m # ms) = Some s' \<Longrightarrow>
   \<exists>s1. ButtonAck s = (Returns (Inr m), s1) \<and> ack_rounds s1 ms = Some s'"
  by (auto split: prod.splits outcome.splits sum.splits if_splits)

lemma Backup_loop_rounds:
  assumes "\<forall>m\<in>set (butlast (m0 # ms)). Kind m = MessageType_ButtonRequest"
    and "Kind (last (m0 # ms)) \<noteq> MessageType_ButtonRequest"
    and "ack_rounds s ms = Some s'"
  shows "Backup_loop disconnected m0 s =
           (Returns (disconnected \<or> ms \<noteq> [], Inr (last (m0 # ms))), s')"
  using assms
proof (induction ms arbitrary: m0 s disconnected)
  case Nil
  then show ?case by (simp add: Backup_loop.simps [of _ m0])
next
  case (Cons m ms)
  from Cons.prems(1) have m0: "Kind m0 = MessageType_ButtonRequest"
    and rest: "\<forall>x\<in>set (butlast (m # ms)). Kind x = MessageType_ButtonRequest"
    by simp_all
  from Cons.prems(2) have last: "Kind (last (m # ms)) \<noteq> MessageType_ButtonRequest" by simp
  from ack_rounds_Cons [OF Cons.prems(3)] obtain s1
    where b: "ButtonAck s = (Returns (Inr m), s1)" and r: "ack_rounds s1 ms = Some s'"
    by blast
  from Cons.IH [OF rest last r, of True] m0 b
  show ?case by (simp add: Backup_loop.simps [of disconnected m0 s])
qed

lemma Backup_loop_round_fails:
  assumes "\<forall>m\<in>set (m0 # ms). Kind m = MessageType_ButtonRequest"
    and "ack_rounds s ms = Some s'"
    and "ButtonAck s' = (Returns (Inl e), s'')"
  shows "Backup_loop disconnected m0 s = (Returns (True, Inl e), s'')"
  using assms
proof (induction ms arbitrary: m0 s disconnected)
  case Nil
  then show ?case by (simp add: Backup_loop.simps [of _ m0])
next
  case (Cons m ms)
  from Cons.prems(1) have m0: "Kind m0 = MessageType_ButtonRequest"
    and rest: "\<forall>x\<in>set (m # ms). Kind x = MessageType_ButtonRequest"
    by simp_all
  from ack_rounds_Cons [OF Cons.prems(2)] obtain s1
    where b: "ButtonAck s = (Returns (Inr m), s1)" and r: "ack_rounds s1 ms = Some s'"
    by blast
  from Cons.IH [OF rest r Cons.prems(3), of True] m0 b
  show ?case by (simp add: Backup_loop.simps [of disconnected m0 s])
qed

section \<open>Open handles\<close>

text \<open>
  The handles open after a sequence of transport calls: a handle is open from the
  \<^verbatim>\<open>GetDevice\<close> that returned it to the first \<^verbatim>\<open>Close\<close> called on it.
\<close>
fun open_step :: "handle list \<Rightarrow> event \<Rightarrow> handle list" where
  "open_step hs (EvOpen h) = h # hs"
| "open_step hs (EvClose h) = removeAll h hs"
| "open_step hs EvOpenFailed = hs"
| "open_step hs (EvWrite h c) = hs"
| "open_step hs (EvRead h) = hs"
| "open_step hs EvBusClose = hs"

definition open_handles :: "event list \<Rightarrow> handle list" where
  "open_handles tr = foldl open_step [] tr"

text \<open>
  The single-handle invariant: at no moment of the history were two handles open, and a
  handle that is open now is the one held in \<^verbatim>\<open>d.dev\<close>.
\<close>
definition single_handle :: "system \<Rightarrow> bool" where
  "single_handle s =
     (list_all (\<lambda>p. length (open_handles p) \<le> 1) (prefixes (trace s)) \<and>
      set (open_handles (trace s)) \<subseteq> set_option (dev s))"

lemma open_handles_snoc: "open_handles (tr @ [e]) = open_step (open_handles tr) e"
  by (simp add: open_handles_def)

lemma single_handle_log:
  assumes "single_handle s"
    and "length (open_step (open_handles (trace s)) e) \<le> 1"
    and "set (open_step (open_handles (trace s)) e) \<subseteq> set_option (dev s)"
  shows "single_handle (log_event e s)"
  using assms by (simp add: single_handle_def log_event_def open_handles_snoc)

lemma single_handle_length: "single_handle s \<Longrightarrow> length (open_handles (trace s)) \<le> 1"
proof -
  assume "single_handle s"
  then have "list_all (\<lambda>p. length (open_handles p) \<le> 1) (prefixes (trace s))"
    by (simp add: single_handle_def)
  moreover have "trace s \<in> set (prefixes (trace s))" by simp
  ultimately show ?thesis by (auto simp: list_all_iff)
qed

lemma single_handle_closed:
  assumes "single_handle s" and "dev s = Some h"
  shows "removeAll h (open_handles (trace s)) = []"
proof -
  have "set xs \<subseteq> {h} \<Longrightarrow> removeAll h xs = []" for xs :: "handle list"
    by (induction xs) auto
  moreover from assms have "set (open_handles (trace s)) \<subseteq> {h}"
    by (simp add: single_handle_def)
  ultimately show ?thesis by blast
qed

lemma single_handle_none:
  assumes "single_handle s" and "dev s = None"
  shows "open_handles (trace s) = []"
  using assms by (simp add: single_handle_def)

lemma stable_io_single_handle: "stable_io single_handle"
  unfolding stable_io_def stable_tr_def
proof (intro allI impI conjI)
  fix s h c
  assume s: "single_handle s"
  from s single_handle_length [OF s] show "single_handle (log_event (EvWrite h c) s)"
    by (intro single_handle_log) (simp_all add: single_handle_def)
  from s single_handle_length [OF s] show "single_handle (log_event (EvRead h) s)"
    by (intro single_handle_log) (simp_all add: single_handle_def)
  from s single_handle_length [OF s] show "single_handle (log_event EvBusClose s)"
    by (intro single_handle_log) (simp_all add: single_handle_def)
  have "length (removeAll h (open_handles (trace s))) \<le> length (open_handles (trace s))"
    by (simp add: removeAll_filter_not_eq)
  with single_handle_length [OF s]
  have "length (removeAll h (open_handles (trace s))) \<le> 1" by linarith
  moreover from s have "set (removeAll h (open_handles (trace s))) \<subseteq> set_option (dev s)"
    by (auto simp: single_handle_def)
  ultimately show "single_handle (log_event (EvClose h) s)"
    using s by (intro single_handle_log) simp_all
qed (simp_all add: single_handle_def)

lemma single_handle_Connect:
  assumes "single_handle s"
  shows "single_handle (snd (Connect s))"
proof -
  define s0 where "s0 = (case dev s of None \<Rightarrow> s | Some h \<Rightarrow> (log_event (EvClose h) s)\<lparr>dev := None\<rparr>)"
  have s0: "single_handle s0 \<and> open_handles (trace s0) = [] \<and> dev s0 = None"
  proof (cases "dev s")
    case None
    with assms single_handle_none [OF assms] show ?thesis by (simp add: s0_def)
  next
    case (Some h)
    from single_handle_closed [OF assms Some] assms Some
    show ?thesis
      by (simp add: s0_def single_handle_def log_event_def open_handles_snoc)
  qed
  show ?thesis
  proof (cases "io_err s0 (length (trace s0))")
    case None
    with s0 show ?thesis
      by (simp add: Connect_eq Let_def s0_def [symmetric] single_handle_def log_event_def
          open_handles_snoc)
  next
    case (Some e)
    with s0 show ?thesis
      by (simp add: Connect_eq Let_def s0_def [symmetric] single_handle_def log_event_def
          open_handles_snoc)
  qed
qed

lemma stable_single_handle: "stable single_handle"
  by (simp add: stable_def stable_io_single_handle single_handle_Connect)

lemma single_handle_run:
  "preserves single_handle m \<Longrightarrow> single_handle s \<Longrightarrow> single_handle (snd (m s))"
  by (simp add: preserves_def)

section \<open>A run of the entropy stream on a device that answers\<close>



text \<open>The state after one answered request: the frames written, one read, one reply consumed.\<close>
definition after_exchange :: "handle \<Rightarrow> chunk list \<Rightarrow> system \<Rightarrow> system" where
  "after_exchange h cs s =
     s\<lparr>trace := trace s @ map (EvWrite h) cs @ [EvRead h], replies := tl (replies s)\<rparr>"


text \<open>The state after the sink has taken one payload without error.\<close>
definition sink_put :: "bool \<Rightarrow> string \<Rightarrow> byte list \<Rightarrow> system \<Rightarrow> system" where
  "sink_put usingStdout outFile p s =
     (if usingStdout then s\<lparr>stdout := stdout s @ [p]\<rparr>
      else if p = [] then s
      else s\<lparr>fs_clock := Suc (fs_clock s),
             files := (files s)(outFile \<mapsto> (case files s outFile of None \<Rightarrow> p | Some c \<Rightarrow> c @ p))\<rparr>)"


text \<open>
  The state after a run of rounds: each round asks for what remains, the device answers
  with the next payload and the sink takes it.
\<close>
fun stream_state ::
  "bool \<Rightarrow> string \<Rightarrow> handle \<Rightarrow> (uint32 \<Rightarrow> chunk list) \<Rightarrow> uint32 \<Rightarrow> byte list list \<Rightarrow> system \<Rightarrow> system" where
  "stream_state usingStdout outFile h req remaining [] s = s"
| "stream_state usingStdout outFile h req remaining (p # ps) s =
     stream_state usingStdout outFile h req (remaining - of_nat (length p)) ps
       (sink_put usingStdout outFile p (after_exchange h (req remaining) s))"

text \<open>The counts asked for, round by round.\<close>
fun requested :: "uint32 \<Rightarrow> byte list list \<Rightarrow> uint32 list" where
  "requested remaining [] = []"
| "requested remaining (p # ps) = remaining # requested (remaining - of_nat (length p)) ps"

lemma sink_put_fields [simp]:
  "dev (sink_put u f p s) = dev s"
  "trace (sink_put u f p s) = trace s"
  "replies (sink_put u f p s) = replies s"
  "io_err (sink_put u f p s) = io_err s"
  "fs_err (sink_put u f p s) = fs_err s"
  "encode (sink_put u f p s) = encode s"
  "DecodeResponseEntropyMessage (sink_put u f p s) = DecodeResponseEntropyMessage s"
  by (simp_all add: sink_put_def)

lemma after_exchange_fields [simp]:
  "dev (after_exchange h cs s) = dev s"
  "trace (after_exchange h cs s) = trace s @ map (EvWrite h) cs @ [EvRead h]"
  "replies (after_exchange h cs s) = tl (replies s)"
  "io_err (after_exchange h cs s) = io_err s"
  "fs_err (after_exchange h cs s) = fs_err s"
  "encode (after_exchange h cs s) = encode s"
  "DecodeResponseEntropyMessage (after_exchange h cs s) = DecodeResponseEntropyMessage s"
  "files (after_exchange h cs s) = files s"
  "stdout (after_exchange h cs s) = stdout s"
  "fs_clock (after_exchange h cs s) = fs_clock s"
  by (simp_all add: after_exchange_def)


lemma stream_state_fields [simp]:
  "dev (stream_state u f h req n ps s) = dev s"
  "io_err (stream_state u f h req n ps s) = io_err s"
  "fs_err (stream_state u f h req n ps s) = fs_err s"
  "encode (stream_state u f h req n ps s) = encode s"
  "replies (stream_state u f h req n ps s) = drop (length ps) (replies s)"
  by (induction ps arbitrary: n s) (simp_all add: drop_Suc)


lemma same_world_sink_put [simp]: "same_world s (sink_put u f p s') = same_world s s'"
  by (simp add: same_world_def sink_put_def)

lemma same_world_after_exchange [simp]: "same_world s (after_exchange h cs s') = same_world s s'"
  by (simp add: same_world_def after_exchange_def)

lemma same_world_stream_state [simp]:
  "same_world s (stream_state u f h req n ps s') = same_world s s'"
  by (induction ps arbitrary: n s') simp_all









lemma requested_length [simp]: "length (requested n ps) = length ps"
  by (induction ps arbitrary: n) simp_all

lemma requested_nth:
  "k < length ps \<Longrightarrow>
   requested n ps ! k = n - of_nat (sum_list (map length (take k ps)))"
proof (induction ps arbitrary: n k)
  case Nil
  then show ?case by simp
next
  case (Cons p ps)
  then show ?case by (cases k) simp_all
qed

text \<open>The state after \<^verbatim>\<open>Connect\<close> when the driver returns a device.\<close>
definition reopened :: "system \<Rightarrow> system" where
  "reopened s =
     (let s0 = (case dev s of None \<Rightarrow> s | Some h \<Rightarrow> (log_event (EvClose h) s)\<lparr>dev := None\<rparr>)
      in (log_event (EvOpen (length (trace s0))) s0)\<lparr>dev := Some (length (trace s0))\<rparr>)"


lemma reopened_fields [simp]:
  "io_err (reopened s) = io_err s"
  "fs_err (reopened s) = fs_err s"
  "replies (reopened s) = replies s"
  "DecodeResponseEntropyMessage (reopened s) = DecodeResponseEntropyMessage s"
  "files (reopened s) = files s"
  "stdout (reopened s) = stdout s"
  "fs_clock (reopened s) = fs_clock s"
  by (simp_all add: reopened_def Let_def log_event_def split: option.splits)









text \<open>The state in which the stream starts when the sink is a file: the file is empty.\<close>
definition file_opened :: "string \<Rightarrow> system \<Rightarrow> system" where
  "file_opened outFile s =
     s\<lparr>fs_clock := fs_clock s + (if files s outFile = None then 2 else 3),
       files := (files s)(outFile \<mapsto> [])\<rparr>"


lemma file_opened_fields [simp]:
  "io_err (file_opened f s) = io_err s"
  "fs_err (file_opened f s) = fs_err s"
  "replies (file_opened f s) = replies s"
  "DecodeResponseEntropyMessage (file_opened f s) = DecodeResponseEntropyMessage s"
  "files (file_opened f s) f = Some []"
  "stdout (file_opened f s) = stdout s"
  "dev (file_opened f s) = dev s"
  "trace (file_opened f s) = trace s"
  by (simp_all add: file_opened_def)



section \<open>Reads and writes of a log, each kind apart\<close>

text \<open>The reads of a log, in their order, and its writes, in theirs.\<close>
definition reads_of :: "event list \<Rightarrow> event list" where
  "reads_of evs = filter (\<lambda>ev. case ev of EvRead h \<Rightarrow> True | _ \<Rightarrow> False) evs"

definition writes_of :: "event list \<Rightarrow> event list" where
  "writes_of evs = filter (\<lambda>ev. case ev of EvWrite h c \<Rightarrow> True | _ \<Rightarrow> False) evs"

lemma reads_of_simps [simp]:
  "reads_of [] = []"
  "reads_of (EvRead h # evs) = EvRead h # reads_of evs"
  "reads_of (EvWrite h c # evs) = reads_of evs"
  "reads_of (xs @ ys) = reads_of xs @ reads_of ys"
  by (simp_all add: reads_of_def)

lemma writes_of_simps [simp]:
  "writes_of [] = []"
  "writes_of (EvRead h # evs) = writes_of evs"
  "writes_of (EvWrite h c # evs) = EvWrite h c # writes_of evs"
  "writes_of (xs @ ys) = writes_of xs @ writes_of ys"
  by (simp_all add: writes_of_def)

lemma reads_of_writes [simp]: "reads_of (map (EvWrite h) cs) = []"
  by (induction cs) simp_all

lemma writes_of_writes [simp]: "writes_of (map (EvWrite h) cs) = map (EvWrite h) cs"
  by (induction cs) simp_all

lemma reads_of_ack_events [simp]: "reads_of (ack_events h s) = []"
  by (simp add: ack_events_def split: sum.splits)

lemma writes_of_ack_events [simp]: "writes_of (ack_events h s) = ack_events h s"
  by (simp add: ack_events_def split: sum.splits)

lemma drain_reads:
  "reads_of (concat (map (\<lambda>_. ack_events h s @ [EvRead h]) ers)) =
     replicate (length ers) (EvRead h)"
  by (induction ers) simp_all

lemma drain_writes:
  "writes_of (concat (map (\<lambda>_. ack_events h s @ [EvRead h]) ers)) =
     concat (replicate (length ers) (ack_events h s))"
  by (induction ers) simp_all

lemma drain_length:
  "length (concat (map (\<lambda>_. ack_events h s @ [EvRead h]) ers)) =
     length ers + length ers * length (ack_events h s)"
  by (induction ers) simp_all

text \<open>
  A decoder of failure messages that refuses a message whose kind is not \<open>Failure\<close>.
\<close>
definition strict_text :: "Message \<Rightarrow> error + string" where
  "strict_text m =
     (if Kind m = MessageType_Failure then Inr (sample_text (Data m)) else Inl (ErrExternal 4))"

section \<open>The claims\<close>

subsection \<open>C1: validation errors of \<^verbatim>\<open>AddressGen\<close> and \<^verbatim>\<open>ChangePin\<close>\<close>

text \<open>
  Claim C1 as stated fails: \<^verbatim>\<open>AddressGen\<close> with \<open>addressN = 0\<close> does open a connection
  before it returns \<open>ErrAddressNZero\<close>: on an idle world the run opens handle 0 and closes
  it again.
\<close>
theorem C1_AddressGen_zero_opens_connection:
  "AddressGen 0 0 False idle_world =
     (Returns (Inl ErrAddressNZero),
      idle_world\<lparr>dev := Some 0, trace := [EvOpen 0, EvClose 0]\<rparr>)"
  by (simp add: AddressGen_def idle_world_def io_check_def io_bind_def Connect_eq Let_def
      log_event_def with_dev_def deferred_def io_return_def dev_Close_def)

text \<open>
  Claim C1 (amended): \<^verbatim>\<open>AddressGen\<close> with \<open>addressN = 0\<close> and \<^verbatim>\<open>ChangePin\<close> with
  \<open>removePin\<close> nil first call \<^verbatim>\<open>Connect\<close>. If \<^verbatim>\<open>Connect\<close> fails, its error is
  returned and nothing else happens. If it succeeds, the operation returns the validation
  error (\<open>ErrAddressNZero\<close>, \<open>ErrRemovePinNil\<close>) and the only transport call it makes
  after \<^verbatim>\<open>Connect\<close> is closing the handle it opened: no request is written and nothing
  is read.
\<close>
theorem C1_validation_after_connect:
  "(Connect s = (Returns (Some e), s1) \<longrightarrow>
      AddressGen 0 startIndex confirmAddress s = (Returns (Inl e), s1) \<and>
      ChangePin None s = (Returns (Inl e), s1)) \<and>
   (Connect s = (Returns None, s1) \<longrightarrow>
      (\<exists>h. dev s1 = Some h \<and>
        AddressGen 0 startIndex confirmAddress s =
          (Returns (Inl ErrAddressNZero), log_event (EvClose h) s1) \<and>
        ChangePin None s = (Returns (Inl ErrRemovePinNil), log_event (EvClose h) s1)))"
proof (intro conjI impI)
  assume "Connect s = (Returns (Some e), s1)"
  then show "AddressGen 0 startIndex confirmAddress s = (Returns (Inl e), s1)"
    by (simp add: AddressGen_def io_check_def io_bind_def io_return_def)
next
  assume "Connect s = (Returns (Some e), s1)"
  then show "ChangePin None s = (Returns (Inl e), s1)"
    by (simp add: ChangePin_def io_check_def io_bind_def io_return_def)
next
  assume c: "Connect s = (Returns None, s1)"
  then obtain h where h: "dev s1 = Some h" by (auto dest: Connect_Returns_None)
  from c h have "AddressGen 0 startIndex confirmAddress s =
          (Returns (Inl ErrAddressNZero), log_event (EvClose h) s1)"
    by (simp add: AddressGen_def io_check_def io_bind_def io_return_def with_dev_def
        deferred_def dev_Close_def)
  moreover from c h
  have "ChangePin None s = (Returns (Inl ErrRemovePinNil), log_event (EvClose h) s1)"
    by (simp add: ChangePin_def io_check_def io_bind_def io_return_def with_dev_def
        close_unless_disconnected_def ack_if_button_request_def dev_Close_def)
  ultimately show "\<exists>h. dev s1 = Some h \<and>
        AddressGen 0 startIndex confirmAddress s =
          (Returns (Inl ErrAddressNZero), log_event (EvClose h) s1) \<and>
        ChangePin None s = (Returns (Inl ErrRemovePinNil), log_event (EvClose h) s1)"
    using h by blast
qed

text \<open>
  Witness for C1: on the idle world \<^verbatim>\<open>Connect\<close> succeeds and both operations return
  their validation error after opening and closing handle 0; when the driver cannot open
  a device, both return the driver's error.
\<close>
theorem C1_validation_after_connect_witness:
  "Connect idle_world = (Returns None, idle_world\<lparr>dev := Some 0, trace := [EvOpen 0]\<rparr>) \<and>
   AddressGen 0 5 True idle_world =
     (Returns (Inl ErrAddressNZero), idle_world\<lparr>dev := Some 0, trace := [EvOpen 0, EvClose 0]\<rparr>) \<and>
   ChangePin None idle_world =
     (Returns (Inl ErrRemovePinNil), idle_world\<lparr>dev := Some 0, trace := [EvOpen 0, EvClose 0]\<rparr>) \<and>
   AddressGen 0 5 True (idle_world\<lparr>io_err := \<lambda>_. Some (ErrExternal 1)\<rparr>) =
     (Returns (Inl (ErrExternal 1)),
      idle_world\<lparr>io_err := \<lambda>_. Some (ErrExternal 1), trace := [EvOpenFailed]\<rparr>) \<and>
   ChangePin None (idle_world\<lparr>io_err := \<lambda>_. Some (ErrExternal 1)\<rparr>) =
     (Returns (Inl (ErrExternal 1)),
      idle_world\<lparr>io_err := \<lambda>_. Some (ErrExternal 1), trace := [EvOpenFailed]\<rparr>)"
proof -
  let ?bad = "idle_world\<lparr>io_err := \<lambda>_. Some (ErrExternal 1)\<rparr>"
  have ok: "Connect idle_world = (Returns None, idle_world\<lparr>dev := Some 0, trace := [EvOpen 0]\<rparr>)"
    by (simp add: Connect_eq idle_world_def log_event_def)
  have bad: "Connect ?bad = (Returns (Some (ErrExternal 1)), ?bad\<lparr>trace := [EvOpenFailed]\<rparr>)"
    by (simp add: Connect_eq idle_world_def log_event_def)
  from C1_validation_after_connect [of idle_world _ "idle_world\<lparr>dev := Some 0, trace := [EvOpen 0]\<rparr>" 5 True] ok
  have "AddressGen 0 5 True idle_world =
          (Returns (Inl ErrAddressNZero), idle_world\<lparr>dev := Some 0, trace := [EvOpen 0, EvClose 0]\<rparr>) \<and>
        ChangePin None idle_world =
          (Returns (Inl ErrRemovePinNil), idle_world\<lparr>dev := Some 0, trace := [EvOpen 0, EvClose 0]\<rparr>)"
    by (simp add: idle_world_def log_event_def)
  moreover
  from C1_validation_after_connect [of ?bad "ErrExternal 1" "?bad\<lparr>trace := [EvOpenFailed]\<rparr>" 5 True] bad
  have "AddressGen 0 5 True ?bad = (Returns (Inl (ErrExternal 1)), ?bad\<lparr>trace := [EvOpenFailed]\<rparr>) \<and>
        ChangePin None ?bad = (Returns (Inl (ErrExternal 1)), ?bad\<lparr>trace := [EvOpenFailed]\<rparr>)"
    by simp
  ultimately show ?thesis using ok by simp
qed

subsection \<open>C8: \<^verbatim>\<open>Disconnect\<close>\<close>

text \<open>
  Claim C8 as stated fails: with a handle held and open, \<^verbatim>\<open>Disconnect\<close> does not close
  it when the device answers the liveness probe with anything but \<open>Success\<close>. Here handle
  0 is open and the device answers \<open>Failure\<close>: the probe is written, the answer is read,
  the error is returned and no close is made.
\<close>
theorem C8_Disconnect_leaves_handle_open:
  "Disconnect (idle_world\<lparr>dev := Some 0, trace := [EvOpen 0],
                          replies := [Inr \<lparr>Kind = MessageType_Failure, Data = []\<rparr>]\<rparr>) =
     (Returns (Some (ErrNew ''device is not connected'')),
      idle_world\<lparr>dev := Some 0, trace := [EvOpen 0, EvWrite 0 [1], EvRead 0]\<rparr>)"
  by (simp add: Disconnect_def io_bind_def io_return_def Connected_def idle_world_def
      dev_Write_def ReadFrom_def log_event_def Connected_loop.simps)

text \<open>
  Claim C8 (amended): \<^verbatim>\<open>Disconnect\<close> first runs the liveness probe \<^verbatim>\<open>Connected\<close>. When
  the probe returns true, a handle is held and \<^verbatim>\<open>Disconnect\<close> closes it and returns
  what the close returns. When the probe returns false, \<^verbatim>\<open>Disconnect\<close> fails with the
  error "device is not connected" and closes nothing; this is the case in particular when
  no handle is held, and then no transport call is made at all.
\<close>
theorem C8_Disconnect_closes_when_connected:
  "(Connected s = (Returns True, s1) \<longrightarrow>
      (\<exists>h. dev s = Some h \<and>
           Disconnect s = (Returns (io_err s1 (length (trace s1))), log_event (EvClose h) s1))) \<and>
   (Connected s = (Returns False, s1) \<longrightarrow>
      Disconnect s = (Returns (Some (ErrNew ''device is not connected'')), s1)) \<and>
   (dev s = None \<longrightarrow>
      Disconnect s = (Returns (Some (ErrNew ''device is not connected'')), s))"
proof (intro conjI impI)
  assume c: "Connected s = (Returns True, s1)"
  then obtain h where h: "dev s = Some h" "dev s1 = Some h"
    by (auto dest: Connected_True_dev)
  with c have "Disconnect s = (Returns (io_err s1 (length (trace s1))), log_event (EvClose h) s1)"
    by (simp add: Disconnect_def io_bind_def with_dev_def dev_Close_def)
  with h show "\<exists>h. dev s = Some h \<and>
           Disconnect s = (Returns (io_err s1 (length (trace s1))), log_event (EvClose h) s1)"
    by blast
next
  assume "Connected s = (Returns False, s1)"
  then show "Disconnect s = (Returns (Some (ErrNew ''device is not connected'')), s1)"
    by (simp add: Disconnect_def io_bind_def io_return_def)
next
  assume "dev s = None"
  then show "Disconnect s = (Returns (Some (ErrNew ''device is not connected'')), s)"
    by (simp add: Disconnect_def io_bind_def io_return_def Connected_no_dev)
qed

text \<open>
  Witness for C8: with handle 0 held and a device answering \<open>Success\<close>, the probe is
  true and the handle is closed; with a device answering \<open>Failure\<close> the probe is false
  and the error is returned; with no handle held the error is returned untouched.
\<close>
theorem C8_Disconnect_closes_when_connected_witness:
  "Disconnect (idle_world\<lparr>dev := Some 0, trace := [EvOpen 0],
                          replies := [Inr \<lparr>Kind = MessageType_Success, Data = []\<rparr>]\<rparr>) =
     (Returns None,
      idle_world\<lparr>dev := Some 0, trace := [EvOpen 0, EvWrite 0 [1], EvRead 0, EvClose 0]\<rparr>) \<and>
   Disconnect (idle_world\<lparr>dev := Some 0, trace := [EvOpen 0],
                          replies := [Inr \<lparr>Kind = MessageType_Features, Data = []\<rparr>]\<rparr>) =
     (Returns (Some (ErrNew ''device is not connected'')),
      idle_world\<lparr>dev := Some 0, trace := [EvOpen 0, EvWrite 0 [1], EvRead 0]\<rparr>) \<and>
   Disconnect idle_world = (Returns (Some (ErrNew ''device is not connected'')), idle_world)"
proof -
  let ?ok = "idle_world\<lparr>dev := Some 0, trace := [EvOpen 0],
                        replies := [Inr \<lparr>Kind = MessageType_Success, Data = []\<rparr>]\<rparr>"
  let ?ko = "idle_world\<lparr>dev := Some 0, trace := [EvOpen 0],
                        replies := [Inr \<lparr>Kind = MessageType_Features, Data = []\<rparr>]\<rparr>"
  let ?after = "idle_world\<lparr>dev := Some 0, trace := [EvOpen 0, EvWrite 0 [1], EvRead 0]\<rparr>"
  have ok: "Connected ?ok = (Returns True, ?after)"
    by (simp add: Connected_def idle_world_def dev_Write_def ReadFrom_def log_event_def
        Connected_loop.simps)
  have ko: "Connected ?ko = (Returns False, ?after)"
    by (simp add: Connected_def idle_world_def dev_Write_def ReadFrom_def log_event_def
        Connected_loop.simps)
  have none: "dev idle_world = None" by (simp add: idle_world_def)
  from C8_Disconnect_closes_when_connected [of ?ok ?after] ok
  have 1: "Disconnect ?ok =
     (Returns None,
      idle_world\<lparr>dev := Some 0, trace := [EvOpen 0, EvWrite 0 [1], EvRead 0, EvClose 0]\<rparr>)"
    by (simp add: idle_world_def log_event_def)
  from C8_Disconnect_closes_when_connected [of ?ko ?after] ko
  have 2: "Disconnect ?ko = (Returns (Some (ErrNew ''device is not connected'')), ?after)"
    by simp
  from C8_Disconnect_closes_when_connected [of idle_world] none
  have 3: "Disconnect idle_world = (Returns (Some (ErrNew ''device is not connected'')), idle_world)"
    by simp
  from 1 2 3 show ?thesis by simp
qed

subsection \<open>C9: \<^verbatim>\<open>SetAutoPressButton\<close>\<close>

text \<open>
  Claim C9 as stated fails: on a USB wallet an invalid button kind raises no error.
\<close>
theorem C9_invalid_button_accepted_on_usb:
  "SetAutoPressButton True 7 idle_world = (Returns None, idle_world)"
  by (simp add: SetAutoPressButton_def idle_world_def)

text \<open>
  Claim C9 (amended): \<^verbatim>\<open>SetAutoPressButton\<close> returns the invalid-button-type error
  exactly when the driver is an emulator, button simulation is being switched on and the
  kind is none of Left, Right and Both; on every other call (a driver that is not an
  emulator, or simulation switched off) it returns nil whatever the kind. No call performs
  I/O: the transport trace, the reply script, the held handle and the file system are
  left as they were.
\<close>
theorem C9_SetAutoPressButton:
  "fst (SetAutoPressButton simulate buttonType s) =
     (if Driver s = DeviceTypeEmulator \<and> simulate \<and> buttonType \<noteq> ButtonLeft \<and>
         buttonType \<noteq> ButtonRight \<and> buttonType \<noteq> ButtonBoth
      then Returns (Some (ErrInvalidButtonType buttonType))
      else Returns None) \<and>
   trace (snd (SetAutoPressButton simulate buttonType s)) = trace s \<and>
   replies (snd (SetAutoPressButton simulate buttonType s)) = replies s \<and>
   dev (snd (SetAutoPressButton simulate buttonType s)) = dev s \<and>
   files (snd (SetAutoPressButton simulate buttonType s)) = files s \<and>
   stdout (snd (SetAutoPressButton simulate buttonType s)) = stdout s \<and>
   fs_clock (snd (SetAutoPressButton simulate buttonType s)) = fs_clock s"
  by (simp add: SetAutoPressButton_def)

subsection \<open>C5 and C6: failures during \<^verbatim>\<open>FirmwareUpload\<close>\<close>

text \<open>
  Claim C5: in every run of \<^verbatim>\<open>FirmwareUpload\<close> in which the answer to the
  FirmwareErase request has kind \<open>Failure\<close>, the operation ends with the error made of
  the decoded failure text of that answer (or with the decoder's error when the answer
  does not decode), and no frame of a FirmwareUpload message is sent: after the answer
  was read the only transport call is the deferred close, so that the frames written
  since \<^verbatim>\<open>Connect\<close> are those of the Initialize and FirmwareErase messages alone.
\<close>
theorem C5_erase_failure_stops_upload:
  assumes "Driver s = DeviceTypeUSB"
    and "Connect s = (Returns None, s1)"
    and "dev s1 = Some h"
    and "Initialize h s1 = (Returns None, s2)"
    and "encode s (ReqFirmwareErase payload) = Inr chunks"
    and "SendToDevice h chunks s2 = (Returns (Inr erasemsg), s3)"
    and "Kind erasemsg = MessageType_Failure"
  shows "FirmwareUpload payload hash s =
           (Returns (Some (case DecodeFailMsg s erasemsg of
                             Inl e \<Rightarrow> e
                           | Inr text \<Rightarrow> ErrNew text)),
            log_event (EvClose h) s3) \<and>
         (\<exists>ichunks. encode s ReqInitialize = Inr ichunks \<and>
            trace (log_event (EvClose h) s3) =
              trace s1 @ map (EvWrite h) ichunks @ [EvRead h] @
              map (EvWrite h) chunks @ [EvRead h] @ [EvClose h])"
proof -
  have w1: "same_world s s1" using assms(2) by (rule same_world_Connect)
  have w2: "same_world s1 s2" using assms(4) by (rule same_world_Initialize)
  have w3: "same_world s2 s3" using assms(6) by (rule same_world_SendToDevice)
  from w1 w2 w3 have enc: "encode s2 = encode s" "encode s1 = encode s"
    and dec: "DecodeFailMsg s3 = DecodeFailMsg s"
    by (simp_all add: same_world_def)
  have run: "FirmwareUpload payload hash s =
           (Returns (Some (case DecodeFailMsg s erasemsg of
                             Inl e \<Rightarrow> e
                           | Inr text \<Rightarrow> ErrNew text)),
            log_event (EvClose h) s3)"
    using assms enc dec
    by (simp add: FirmwareUpload_def io_check_def io_try_def io_bind_def io_return_def
        with_dev_def deferred_def build_def fail_with_decoded_def dev_Close_def
        split: sum.splits)
  from Initialize_ok [OF assms(4)] enc obtain ichunks
    where i: "encode s ReqInitialize = Inr ichunks"
      and t2: "trace s2 = trace s1 @ map (EvWrite h) ichunks @ [EvRead h]"
    by auto
  from SendToDevice_trace [OF assms(6)] t2
  have "trace (log_event (EvClose h) s3) =
              trace s1 @ map (EvWrite h) ichunks @ [EvRead h] @
              map (EvWrite h) chunks @ [EvRead h] @ [EvClose h]"
    by (simp add: log_event_def)
  with run i show ?thesis by blast
qed

text \<open>
  Witness for C5: the wallet answers the Initialize request with \<open>Success\<close> and the
  FirmwareErase request with \<open>Failure\<close> "bad length". The upload fails with that text;
  the frames written are the Initialize frame \<open>[0]\<close> and the FirmwareErase frame \<open>[6]\<close>,
  none of the FirmwareUpload frames \<open>[7]\<close> and \<open>[8]\<close>.
\<close>
theorem C5_erase_failure_stops_upload_witness:
  "FirmwareUpload [1, 2, 3] [4]
     (idle_world\<lparr>replies := [Inr \<lparr>Kind = MessageType_Success, Data = []\<rparr>,
                               Inr \<lparr>Kind = MessageType_Failure, Data = [0]\<rparr>]\<rparr>) =
     (Returns (Some (ErrNew ''bad length'')),
      idle_world\<lparr>dev := Some 0,
                 trace := [EvOpen 0, EvWrite 0 [0], EvRead 0, EvWrite 0 [6], EvRead 0, EvClose 0]\<rparr>)"
proof -
  let ?s = "idle_world\<lparr>replies := [Inr \<lparr>Kind = MessageType_Success, Data = []\<rparr>,
                               Inr \<lparr>Kind = MessageType_Failure, Data = [0]\<rparr>]\<rparr>"
  let ?s1 = "?s\<lparr>dev := Some 0, trace := [EvOpen 0]\<rparr>"
  let ?s2 = "?s1\<lparr>trace := [EvOpen 0, EvWrite 0 [0], EvRead 0],
                  replies := [Inr \<lparr>Kind = MessageType_Failure, Data = [0]\<rparr>]\<rparr>"
  let ?s3 = "?s2\<lparr>trace := [EvOpen 0, EvWrite 0 [0], EvRead 0, EvWrite 0 [6], EvRead 0],
                  replies := []\<rparr>"
  have 1: "Driver ?s = DeviceTypeUSB" by (simp add: idle_world_def)
  have 2: "Connect ?s = (Returns None, ?s1)"
    by (simp add: Connect_eq idle_world_def log_event_def)
  have 3: "dev ?s1 = Some 0" by simp
  have 4: "Initialize 0 ?s1 = (Returns None, ?s2)"
    by (simp add: Initialize_def SendToDevice_def io_try_def io_check_def io_bind_def
        io_return_def build_def dev_Write_def ReadFrom_def log_event_def idle_world_def)
  have 5: "encode ?s (ReqFirmwareErase [1, 2, 3]) = Inr [[6]]" by (simp add: idle_world_def)
  have 6: "SendToDevice 0 [[6]] ?s2 = (Returns (Inr \<lparr>Kind = MessageType_Failure, Data = [0]\<rparr>), ?s3)"
    by (simp add: SendToDevice_def io_check_def io_bind_def
        io_return_def dev_Write_def ReadFrom_def log_event_def idle_world_def)
  have 7: "Kind \<lparr>Kind = MessageType_Failure, Data = [0]\<rparr> = MessageType_Failure" by simp
  from C5_erase_failure_stops_upload [OF 1 2 3 4 5 6 7, of "[4]"]
  show ?thesis by (simp add: idle_world_def log_event_def sample_text_def)
qed

text \<open>
  Claim C6 as stated fails: when the erase phase succeeded and the answer to the
  FirmwareUpload request has kind \<open>Failure\<close>, the error returned need not carry a decoded
  failure text of the erase answer. The erase answer has kind \<open>Success\<close> there, and what
  the operation returns is whatever \<^verbatim>\<open>DecodeFailMsg\<close> makes of it. With a decoder that
  refuses a message whose kind is not \<open>Failure\<close> there is no decoded text of the erase
  answer: the operation returns the decoder's error (and still not the text of the upload
  answer, which that decoder does decode).
\<close>
theorem C6_erase_answer_refused_by_decoder:
  "FirmwareUpload [1, 2, 3] [4]
     (idle_world\<lparr>DecodeFailMsg := strict_text,
                 replies := [Inr \<lparr>Kind = MessageType_Success, Data = []\<rparr>,
                             Inr \<lparr>Kind = MessageType_Success, Data = [1]\<rparr>,
                             Inr \<lparr>Kind = MessageType_Failure, Data = [2]\<rparr>]\<rparr>) =
     (Returns (Some (ErrExternal 4)),
      idle_world\<lparr>DecodeFailMsg := strict_text, dev := Some 0,
                 trace := [EvOpen 0, EvWrite 0 [0], EvRead 0, EvWrite 0 [6], EvRead 0,
                           EvWrite 0 [7], EvWrite 0 [8], EvRead 0, EvClose 0]\<rparr>) \<and>
   strict_text \<lparr>Kind = MessageType_Success, Data = [1]\<rparr> = Inl (ErrExternal 4) \<and>
   strict_text \<lparr>Kind = MessageType_Failure, Data = [2]\<rparr> = Inr ''invalid firmware''"
  by (simp add: FirmwareUpload_def FirmwareUpload_upload_def Connect_eq Initialize_def
      SendToDevice_def io_check_def io_try_def io_bind_def io_return_def with_dev_def
      deferred_def build_def fail_with_decoded_def dev_Close_def dev_Write_def ReadFrom_def
      log_event_def idle_world_def strict_text_def sample_text_def Let_def)

text \<open>
  Claim C6 (amended): in every run of \<^verbatim>\<open>FirmwareUpload\<close> in which the erase phase
  succeeded and the answer to the FirmwareUpload request has kind \<open>Failure\<close>, the
  operation hands the erase answer, not the upload answer, to \<^verbatim>\<open>DecodeFailMsg\<close> and
  fails with what the decoder gives for it: the error made of the decoded text when the
  decoder returns a text, the decoder's own error when the decoder refuses the message.
  The upload answer is not decoded, and the only transport call after it was read is the
  deferred close.
\<close>
theorem C6_upload_failure_reports_erase_text:
  assumes "Driver s = DeviceTypeUSB"
    and "Connect s = (Returns None, s1)"
    and "dev s1 = Some h"
    and "Initialize h s1 = (Returns None, s2)"
    and "encode s (ReqFirmwareErase payload) = Inr chunks"
    and "SendToDevice h chunks s2 = (Returns (Inr erasemsg), s3)"
    and "Kind erasemsg = MessageType_Success"
    and "encode s (ReqFirmwareUpload payload hash) = Inr uchunks"
    and "SendToDevice h uchunks s3 = (Returns (Inr uploadmsg), s4)"
    and "Kind uploadmsg = MessageType_Failure"
  shows "FirmwareUpload payload hash s =
           (Returns (Some (case DecodeFailMsg s erasemsg of
                             Inl e \<Rightarrow> e
                           | Inr text \<Rightarrow> ErrNew text)),
            log_event (EvClose h) s4)"
proof -
  have w1: "same_world s s1" using assms(2) by (rule same_world_Connect)
  have w2: "same_world s1 s2" using assms(4) by (rule same_world_Initialize)
  have w3: "same_world s2 s3" using assms(6) by (rule same_world_SendToDevice)
  have w4: "same_world s3 s4" using assms(9) by (rule same_world_SendToDevice)
  from w1 w2 w3 w4 have enc: "encode s2 = encode s" "encode s3 = encode s"
    and dec: "DecodeFailMsg s4 = DecodeFailMsg s"
    by (simp_all add: same_world_def)
  show ?thesis
    using assms enc dec
    by (simp add: FirmwareUpload_def FirmwareUpload_upload_def io_check_def io_try_def
        io_bind_def io_return_def with_dev_def deferred_def build_def fail_with_decoded_def
        dev_Close_def split: sum.splits)
qed

text \<open>
  Witness for C6: the erase answer is \<open>Success\<close>, the upload answer is \<open>Failure\<close> with a
  payload whose text is "invalid firmware". With a decoder that looks at the payload
  alone the error returned carries the text of the erase answer's payload, "firmware
  erased"; with a decoder that refuses the kind \<open>Success\<close> it is the decoder's error.
\<close>
theorem C6_upload_failure_reports_erase_text_witness:
  "FirmwareUpload [1, 2, 3] [4]
     (idle_world\<lparr>replies := [Inr \<lparr>Kind = MessageType_Success, Data = []\<rparr>,
                               Inr \<lparr>Kind = MessageType_Success, Data = [1]\<rparr>,
                               Inr \<lparr>Kind = MessageType_Failure, Data = [2]\<rparr>]\<rparr>) =
     (Returns (Some (ErrNew ''firmware erased'')),
      idle_world\<lparr>dev := Some 0,
                 trace := [EvOpen 0, EvWrite 0 [0], EvRead 0, EvWrite 0 [6], EvRead 0,
                           EvWrite 0 [7], EvWrite 0 [8], EvRead 0, EvClose 0]\<rparr>) \<and>
   fst (FirmwareUpload [1, 2, 3] [4]
     (idle_world\<lparr>DecodeFailMsg := strict_text,
                 replies := [Inr \<lparr>Kind = MessageType_Success, Data = []\<rparr>,
                             Inr \<lparr>Kind = MessageType_Success, Data = [1]\<rparr>,
                             Inr \<lparr>Kind = MessageType_Failure, Data = [2]\<rparr>]\<rparr>)) =
     Returns (Some (ErrExternal 4)) \<and>
   sample_text [2] = ''invalid firmware''"
proof -
  let ?erase = "\<lparr>Kind = MessageType_Success, Data = [1]\<rparr>"
  let ?upload = "\<lparr>Kind = MessageType_Failure, Data = [2]\<rparr>"
  have run: "FirmwareUpload [1, 2, 3] [4]
       (idle_world\<lparr>DecodeFailMsg := dec,
                   replies := [Inr \<lparr>Kind = MessageType_Success, Data = []\<rparr>,
                               Inr ?erase, Inr ?upload]\<rparr>) =
     (Returns (Some (case dec ?erase of Inl e \<Rightarrow> e | Inr text \<Rightarrow> ErrNew text)),
      idle_world\<lparr>DecodeFailMsg := dec, dev := Some 0,
                 trace := [EvOpen 0, EvWrite 0 [0], EvRead 0, EvWrite 0 [6], EvRead 0,
                           EvWrite 0 [7], EvWrite 0 [8], EvRead 0, EvClose 0]\<rparr>)"
    for dec :: "Message \<Rightarrow> error + string"
  proof -
    let ?s = "idle_world\<lparr>DecodeFailMsg := dec,
                          replies := [Inr \<lparr>Kind = MessageType_Success, Data = []\<rparr>,
                                      Inr ?erase, Inr ?upload]\<rparr>"
    let ?s1 = "?s\<lparr>dev := Some 0, trace := [EvOpen 0]\<rparr>"
    let ?s2 = "?s1\<lparr>trace := [EvOpen 0, EvWrite 0 [0], EvRead 0],
                    replies := [Inr ?erase, Inr ?upload]\<rparr>"
    let ?s3 = "?s2\<lparr>trace := [EvOpen 0, EvWrite 0 [0], EvRead 0, EvWrite 0 [6], EvRead 0],
                    replies := [Inr ?upload]\<rparr>"
    let ?s4 = "?s3\<lparr>trace := [EvOpen 0, EvWrite 0 [0], EvRead 0, EvWrite 0 [6], EvRead 0,
                              EvWrite 0 [7], EvWrite 0 [8], EvRead 0],
                    replies := []\<rparr>"
    have 1: "Driver ?s = DeviceTypeUSB" by (simp add: idle_world_def)
    have 2: "Connect ?s = (Returns None, ?s1)"
      by (simp add: Connect_eq idle_world_def log_event_def)
    have 3: "dev ?s1 = Some 0" by simp
    have 4: "Initialize 0 ?s1 = (Returns None, ?s2)"
      by (simp add: Initialize_def SendToDevice_def io_try_def io_check_def io_bind_def
          io_return_def build_def dev_Write_def ReadFrom_def log_event_def idle_world_def)
    have 5: "encode ?s (ReqFirmwareErase [1, 2, 3]) = Inr [[6]]" by (simp add: idle_world_def)
    have 6: "SendToDevice 0 [[6]] ?s2 = (Returns (Inr ?erase), ?s3)"
      by (simp add: SendToDevice_def io_check_def io_bind_def
          io_return_def dev_Write_def ReadFrom_def log_event_def idle_world_def)
    have 7: "Kind ?erase = MessageType_Success" by simp
    have 8: "encode ?s (ReqFirmwareUpload [1, 2, 3] [4]) = Inr [[7], [8]]"
      by (simp add: idle_world_def)
    have 9: "SendToDevice 0 [[7], [8]] ?s3 = (Returns (Inr ?upload), ?s4)"
      by (simp add: SendToDevice_def io_check_def io_bind_def
          io_return_def dev_Write_def ReadFrom_def log_event_def idle_world_def)
    have 10: "Kind ?upload = MessageType_Failure" by simp
    from C6_upload_failure_reports_erase_text [OF 1 2 3 4 5 6 7 8 9 10]
    show ?thesis by (simp add: idle_world_def log_event_def)
  qed
  have same: "idle_world\<lparr>DecodeFailMsg := (\<lambda>m. Inr (sample_text (Data m)))\<rparr> = idle_world"
    by (simp add: idle_world_def)
  from run [of "\<lambda>m. Inr (sample_text (Data m))"] run [of strict_text] same
  show ?thesis by (simp add: strict_text_def sample_text_def)
qed

subsection \<open>C3: the liveness probe \<^verbatim>\<open>Connected\<close>\<close>

text \<open>
  Claim C3 as stated fails: a transport error during the drain does not always make
  \<^verbatim>\<open>Connected\<close> return false. Here handle 0 is held, the device answers the probe with
  an \<open>EntropyRequest\<close>, the write of the entropy acknowledgement fails (the call at
  position 3 of the trace), and the device then answers \<open>Success\<close>: the result is true.
\<close>
theorem C3_failed_entropy_ack_ignored:
  "Connected (idle_world\<lparr>dev := Some 0, trace := [EvOpen 0],
       io_err := (\<lambda>k. if k = 3 then Some (ErrExternal 1) else None),
       replies := [Inr \<lparr>Kind = MessageType_EntropyRequest, Data = []\<rparr>,
                   Inr \<lparr>Kind = MessageType_Success, Data = []\<rparr>]\<rparr>) =
     (Returns True,
      idle_world\<lparr>dev := Some 0,
        io_err := (\<lambda>k. if k = 3 then Some (ErrExternal 1) else None),
        trace := [EvOpen 0, EvWrite 0 [1], EvRead 0, EvWrite 0 [36], EvRead 0]\<rparr>) \<and>
   fst (dev_Write 0 [36]
     (idle_world\<lparr>dev := Some 0, trace := [EvOpen 0, EvWrite 0 [1], EvRead 0],
        io_err := (\<lambda>k. if k = 3 then Some (ErrExternal 1) else None),
        replies := [Inr \<lparr>Kind = MessageType_Success, Data = []\<rparr>]\<rparr>)) =
     Returns (Some (ErrExternal 1))"
  by (simp add: Connected_def idle_world_def dev_Write_def ReadFrom_def log_event_def
      Connected_loop.simps entropy_ack_def entropyBufferSize_def)

text \<open>
  Claim C3 (amended): \<^verbatim>\<open>Connected\<close> returns false, making no transport call, when no
  handle is held. With a handle held it returns false when the probe cannot be built or
  written. Once the probe is written, if the device sends any finite number (including
  zero) of \<open>EntropyRequest\<close> messages followed by a message of another kind, the result
  is true exactly when that message has kind \<open>Success\<close>, one entropy acknowledgement is
  attempted for each \<open>EntropyRequest\<close>, and nothing is read beyond that message; if
  instead a read fails at any point of the drain, the result is false. A failure to build
  or write an entropy acknowledgement is only logged and does not change the result.
  \<^verbatim>\<open>Connected\<close> never panics.

  Of the calls made after the probe was written the statement gives the reads (one more
  than the \<open>EntropyRequest\<close> messages), the writes (those of one acknowledgement for each
  \<open>EntropyRequest\<close>) and that there is no other call; it does not say where the writes
  of an acknowledgement fall with respect to the read they run beside.
\<close>
theorem C3_Connected_drains_entropy_requests:
  "(dev s = None \<longrightarrow> Connected s = (Returns False, s)) \<and>
   (dev s = Some h \<and> encode s ReqConnected = Inl e \<longrightarrow> Connected s = (Returns False, s)) \<and>
   (dev s = Some h \<and> encode s ReqConnected = Inr chunks \<and>
    sendToDeviceNoAnswer h chunks s = (Returns (Some e), s1) \<longrightarrow>
      Connected s = (Returns False, s1)) \<and>
   (dev s = Some h \<and> encode s ReqConnected = Inr chunks \<and>
    sendToDeviceNoAnswer h chunks s = (Returns None, s1) \<and>
    (\<forall>r\<in>set ers. Kind r = MessageType_EntropyRequest) \<and>
    Kind m \<noteq> MessageType_EntropyRequest \<and>
    replies s = map Inr ers @ Inr m # rest \<longrightarrow>
      (\<exists>new. Connected s =
          (Returns (Kind m = MessageType_Success),
           s1\<lparr>trace := trace s1 @ new, replies := rest\<rparr>) \<and>
        reads_of new = replicate (Suc (length ers)) (EvRead h) \<and>
        writes_of new = concat (replicate (length ers) (ack_events h s)) \<and>
        length new = Suc (length ers) + length ers * length (ack_events h s))) \<and>
   (dev s = Some h \<and> encode s ReqConnected = Inr chunks \<and>
    sendToDeviceNoAnswer h chunks s = (Returns None, s1) \<and>
    (\<forall>r\<in>set ers. Kind r = MessageType_EntropyRequest) \<and>
    replies s = map Inr ers @ Inl e # rest \<longrightarrow>
      fst (Connected s) = Returns False) \<and>
   fst (Connected s) \<noteq> Panics"
proof (intro conjI impI)
  assume "dev s = None"
  then show "Connected s = (Returns False, s)" by (simp add: Connected_def)
next
  assume "dev s = Some h \<and> encode s ReqConnected = Inl e"
  then show "Connected s = (Returns False, s)" by (simp add: Connected_def)
next
  assume "dev s = Some h \<and> encode s ReqConnected = Inr chunks \<and>
    sendToDeviceNoAnswer h chunks s = (Returns (Some e), s1)"
  then show "Connected s = (Returns False, s1)" by (simp add: Connected_def)
next
  assume a: "dev s = Some h \<and> encode s ReqConnected = Inr chunks \<and>
    sendToDeviceNoAnswer h chunks s = (Returns None, s1) \<and>
    (\<forall>r\<in>set ers. Kind r = MessageType_EntropyRequest) \<and>
    Kind m \<noteq> MessageType_EntropyRequest \<and>
    replies s = map Inr ers @ Inr m # rest"
  then have s1: "s1 = s\<lparr>trace := trace s @ map (EvWrite h) chunks\<rparr>"
    by (auto dest: sendToDeviceNoAnswer_ok)
  let ?s2 = "s1\<lparr>trace := trace s1 @ [EvRead h], replies := map Inr (tl (ers @ [m])) @ rest\<rparr>"
  from a s1 have "replies s1 = Inr (hd (ers @ [m])) # map Inr (tl (ers @ [m])) @ rest"
    by (cases ers) simp_all
  then have rd: "ReadFrom h s1 = (Returns (Inr (hd (ers @ [m]))), ?s2)"
    by (simp add: ReadFrom_def log_event_def)
  have "replies ?s2 = map Inr (tl (ers @ [m])) @ rest" by simp
  from Connected_loop_drain [where h = h and ers = ers and m = m, OF _ _ this] a
  have "Connected_loop h (hd (ers @ [m])) ?s2 =
          (Returns (Kind m = MessageType_Success),
           ?s2\<lparr>trace := trace ?s2 @ concat (map (\<lambda>_. ack_events h ?s2 @ [EvRead h]) ers),
               replies := rest\<rparr>)"
    by blast
  with a rd s1 have "Connected s =
        (Returns (Kind m = MessageType_Success),
         s1\<lparr>trace := trace s1 @ EvRead h # concat (map (\<lambda>_. ack_events h s @ [EvRead h]) ers),
            replies := rest\<rparr>)"
    by (simp add: Connected_def)
  moreover
  have "reads_of (EvRead h # concat (map (\<lambda>_. ack_events h s @ [EvRead h]) ers)) =
          replicate (Suc (length ers)) (EvRead h)"
    by (simp add: drain_reads)
  moreover
  have "writes_of (EvRead h # concat (map (\<lambda>_. ack_events h s @ [EvRead h]) ers)) =
          concat (replicate (length ers) (ack_events h s))"
    by (simp add: drain_writes)
  moreover
  have "length (EvRead h # concat (map (\<lambda>_. ack_events h s @ [EvRead h]) ers)) =
          Suc (length ers) + length ers * length (ack_events h s)"
    by (simp add: drain_length)
  ultimately show "\<exists>new. Connected s =
          (Returns (Kind m = MessageType_Success),
           s1\<lparr>trace := trace s1 @ new, replies := rest\<rparr>) \<and>
        reads_of new = replicate (Suc (length ers)) (EvRead h) \<and>
        writes_of new = concat (replicate (length ers) (ack_events h s)) \<and>
        length new = Suc (length ers) + length ers * length (ack_events h s)"
    by blast
next
  assume a: "dev s = Some h \<and> encode s ReqConnected = Inr chunks \<and>
    sendToDeviceNoAnswer h chunks s = (Returns None, s1) \<and>
    (\<forall>r\<in>set ers. Kind r = MessageType_EntropyRequest) \<and>
    replies s = map Inr ers @ Inl e # rest"
  then have s1: "s1 = s\<lparr>trace := trace s @ map (EvWrite h) chunks\<rparr>"
    by (auto dest: sendToDeviceNoAnswer_ok)
  show "fst (Connected s) = Returns False"
  proof (cases ers)
    case Nil
    with a s1 show ?thesis by (simp add: Connected_def ReadFrom_def)
  next
    case (Cons r rs)
    let ?s2 = "s1\<lparr>trace := trace s1 @ [EvRead h], replies := map Inr (tl ers) @ Inl e # rest\<rparr>"
    from Cons a s1 have rd: "ReadFrom h s1 = (Returns (Inr (hd ers)), ?s2)"
      by (simp add: ReadFrom_def log_event_def)
    have "replies ?s2 = map Inr (tl ers) @ Inl e # rest" by simp
    from Connected_loop_read_error [where h = h and ers = ers, OF _ _ this] a Cons
    have "fst (Connected_loop h (hd ers) ?s2) = Returns False" by simp
    with a rd show ?thesis by (simp add: Connected_def)
  qed
next
  show "fst (Connected s) \<noteq> Panics" by (rule Connected_no_panic)
qed

text \<open>
  Witness for C3: no handle held; the probe cannot be built; the probe cannot be written;
  two \<open>EntropyRequest\<close> messages then \<open>Success\<close> (true, three reads, the two writes of
  two acknowledgements, the following message left unread); two \<open>EntropyRequest\<close> messages then \<open>Features\<close>
  (false); one \<open>EntropyRequest\<close> then a failing read (false).
\<close>
theorem C3_Connected_drains_entropy_requests_witness:
  "Connected idle_world = (Returns False, idle_world) \<and>
   Connected (idle_world\<lparr>dev := Some 0, encode := (\<lambda>r. Inl (ErrExternal 2))\<rparr>) =
     (Returns False, idle_world\<lparr>dev := Some 0, encode := (\<lambda>r. Inl (ErrExternal 2))\<rparr>) \<and>
   Connected (idle_world\<lparr>dev := Some 0, io_err := (\<lambda>k. Some (ErrExternal 1))\<rparr>) =
     (Returns False,
      idle_world\<lparr>dev := Some 0, io_err := (\<lambda>k. Some (ErrExternal 1)), trace := [EvWrite 0 [1]]\<rparr>) \<and>
   (\<exists>new.
      Connected (idle_world\<lparr>dev := Some 0,
         replies := [Inr \<lparr>Kind = MessageType_EntropyRequest, Data = []\<rparr>,
                     Inr \<lparr>Kind = MessageType_EntropyRequest, Data = []\<rparr>,
                     Inr \<lparr>Kind = MessageType_Success, Data = []\<rparr>,
                     Inr \<lparr>Kind = MessageType_Features, Data = []\<rparr>]\<rparr>) =
       (Returns True,
        idle_world\<lparr>dev := Some 0, trace := EvWrite 0 [1] # new,
          replies := [Inr \<lparr>Kind = MessageType_Features, Data = []\<rparr>]\<rparr>) \<and>
      reads_of new = [EvRead 0, EvRead 0, EvRead 0] \<and>
      writes_of new = [EvWrite 0 [36], EvWrite 0 [36]] \<and>
      length new = 5) \<and>
   fst (Connected (idle_world\<lparr>dev := Some 0,
       replies := [Inr \<lparr>Kind = MessageType_EntropyRequest, Data = []\<rparr>,
                   Inr \<lparr>Kind = MessageType_EntropyRequest, Data = []\<rparr>,
                   Inr \<lparr>Kind = MessageType_Features, Data = []\<rparr>]\<rparr>)) = Returns False \<and>
   fst (Connected (idle_world\<lparr>dev := Some 0,
       replies := [Inr \<lparr>Kind = MessageType_EntropyRequest, Data = []\<rparr>,
                   Inl (ErrExternal 3)]\<rparr>)) = Returns False"
proof -
  let ?er = "\<lparr>Kind = MessageType_EntropyRequest, Data = []\<rparr>"
  let ?ok = "\<lparr>Kind = MessageType_Success, Data = []\<rparr>"
  let ?ft = "\<lparr>Kind = MessageType_Features, Data = []\<rparr>"
  let ?noenc = "idle_world\<lparr>dev := Some 0, encode := (\<lambda>r. Inl (ErrExternal 2))\<rparr>"
  let ?nowrite = "idle_world\<lparr>dev := Some 0, io_err := (\<lambda>k. Some (ErrExternal 1))\<rparr>"
  let ?yes = "idle_world\<lparr>dev := Some 0, replies := [Inr ?er, Inr ?er, Inr ?ok, Inr ?ft]\<rparr>"
  let ?no = "idle_world\<lparr>dev := Some 0, replies := [Inr ?er, Inr ?er, Inr ?ft]\<rparr>"
  let ?rderr = "idle_world\<lparr>dev := Some 0, replies := [Inr ?er, Inl (ErrExternal 3)]\<rparr>"
  have 1: "Connected idle_world = (Returns False, idle_world)"
    using C3_Connected_drains_entropy_requests [of idle_world]
    by (simp add: idle_world_def)
  have 2: "Connected ?noenc = (Returns False, ?noenc)"
    using C3_Connected_drains_entropy_requests [of ?noenc 0 "ErrExternal 2"]
    by (simp add: idle_world_def)
  have w3: "sendToDeviceNoAnswer 0 [[1]] ?nowrite =
              (Returns (Some (ErrExternal 1)), ?nowrite\<lparr>trace := [EvWrite 0 [1]]\<rparr>)"
    by (simp add: idle_world_def dev_Write_def log_event_def)
  have 3: "Connected ?nowrite = (Returns False, ?nowrite\<lparr>trace := [EvWrite 0 [1]]\<rparr>)"
    using C3_Connected_drains_entropy_requests
      [of ?nowrite 0 "ErrExternal 1" "[[1]]" "?nowrite\<lparr>trace := [EvWrite 0 [1]]\<rparr>"] w3
    by (simp add: idle_world_def)
  have w4: "sendToDeviceNoAnswer 0 [[1]] ?yes = (Returns None, ?yes\<lparr>trace := [EvWrite 0 [1]]\<rparr>)"
    by (simp add: idle_world_def dev_Write_def log_event_def)
  have 4: "\<exists>new. Connected ?yes =
       (Returns True,
        idle_world\<lparr>dev := Some 0, trace := EvWrite 0 [1] # new, replies := [Inr ?ft]\<rparr>) \<and>
      reads_of new = [EvRead 0, EvRead 0, EvRead 0] \<and>
      writes_of new = [EvWrite 0 [36], EvWrite 0 [36]] \<and>
      length new = 5"
    using C3_Connected_drains_entropy_requests
      [of ?yes 0 _ "[[1]]" "?yes\<lparr>trace := [EvWrite 0 [1]]\<rparr>" "[?er, ?er]" ?ok "[Inr ?ft]"] w4
    by (simp add: idle_world_def ack_events_def entropyBufferSize_def eval_nat_numeral)
  have w5: "sendToDeviceNoAnswer 0 [[1]] ?no = (Returns None, ?no\<lparr>trace := [EvWrite 0 [1]]\<rparr>)"
    by (simp add: idle_world_def dev_Write_def log_event_def)
  have 5: "fst (Connected ?no) = Returns False"
    using C3_Connected_drains_entropy_requests
      [of ?no 0 _ "[[1]]" "?no\<lparr>trace := [EvWrite 0 [1]]\<rparr>" "[?er, ?er]" ?ft "[]"] w5
    by (auto simp add: idle_world_def)
  have w6: "sendToDeviceNoAnswer 0 [[1]] ?rderr = (Returns None, ?rderr\<lparr>trace := [EvWrite 0 [1]]\<rparr>)"
    by (simp add: idle_world_def dev_Write_def log_event_def)
  have 6: "fst (Connected ?rderr) = Returns False"
    using C3_Connected_drains_entropy_requests
      [of ?rderr 0 "ErrExternal 3" "[[1]]" "?rderr\<lparr>trace := [EvWrite 0 [1]]\<rparr>" "[?er]" _ "[]"] w6
    by (simp add: idle_world_def)
  from 1 2 3 4 5 6 show ?thesis by simp
qed

subsection \<open>C2: a \<^verbatim>\<open>ButtonRequest\<close> answer hands over to \<^verbatim>\<open>ButtonAck\<close>\<close>

text \<open>
  Claim C2: for each of \<^verbatim>\<open>ChangePin\<close>, \<^verbatim>\<open>GenerateMnemonic\<close>, \<^verbatim>\<open>Recovery\<close>,
  \<^verbatim>\<open>SetMnemonic\<close>, \<^verbatim>\<open>SignMessage\<close> and \<^verbatim>\<open>Wipe\<close>, when the device answers the
  operation's request with a \<open>ButtonRequest\<close>, what the operation returns (message or
  error, and the state it leaves) is what a top-level \<^verbatim>\<open>ButtonAck\<close> returns when called
  right after that answer was read. The operation itself does not close the connection
  it opened (after \<^verbatim>\<open>Connect\<close> it only wrote the request and read the answer); the
  follow-up closes that handle first and only then asks the driver for a new one.
\<close>
theorem C2_button_request_followup:
  assumes "Connect s = (Returns None, s1)"
    and "exchange r s1 = (Returns (Inr msg), s2)"
    and "Kind msg = MessageType_ButtonRequest"
  shows "(\<forall>removePin. r = ReqChangePin removePin \<longrightarrow>
            ChangePin (Some removePin) s = ButtonAck s2) \<and>
         (\<forall>wordCount usePassphrase.
            r = ReqGenerateMnemonic wordCount usePassphrase \<and> (wordCount = 12 \<or> wordCount = 24) \<longrightarrow>
            GenerateMnemonic wordCount usePassphrase s = ButtonAck s2) \<and>
         (\<forall>wordCount usePassphrase dryRun.
            r = ReqRecovery wordCount usePassphrase dryRun \<and> (wordCount = 12 \<or> wordCount = 24) \<longrightarrow>
            Recovery wordCount usePassphrase dryRun s = ButtonAck s2) \<and>
         (\<forall>mnemonic. r = ReqSetMnemonic mnemonic \<longrightarrow> SetMnemonic mnemonic s = ButtonAck s2) \<and>
         (\<forall>addressIndex message.
            r = ReqSignMessage addressIndex message \<longrightarrow>
            SignMessage addressIndex message s = ButtonAck s2) \<and>
         (r = ReqWipe \<longrightarrow> Wipe s = ButtonAck s2) \<and>
         (\<exists>h chunks ev rest.
            dev s1 = Some h \<and> (\<exists>tr. trace s1 = tr @ [EvOpen h]) \<and>
            encode s r = Inr chunks \<and>
            trace s2 = trace s1 @ map (EvWrite h) chunks @ [EvRead h] \<and>
            trace (snd (ButtonAck s2)) = trace s2 @ EvClose h # ev # rest \<and>
            (ev = EvOpenFailed \<or> ev = EvOpen (Suc (length (trace s2)))))"
proof -
  note hand = button_request_hands_over [OF assms(1) _ assms(3)]
  have 1: "ChangePin (Some removePin) s = ButtonAck s2" if "r = ReqChangePin removePin" for removePin
    unfolding ChangePin_def using that assms(2) by (intro hand) simp
  have 2: "GenerateMnemonic wordCount usePassphrase s = ButtonAck s2"
    if "r = ReqGenerateMnemonic wordCount usePassphrase \<and> (wordCount = 12 \<or> wordCount = 24)"
    for wordCount usePassphrase
    unfolding GenerateMnemonic_def using that assms(2) by (intro hand) auto
  have 3: "Recovery wordCount usePassphrase dryRun s = ButtonAck s2"
    if "r = ReqRecovery wordCount usePassphrase dryRun \<and> (wordCount = 12 \<or> wordCount = 24)"
    for wordCount usePassphrase dryRun
    unfolding Recovery_def using that assms(2) by (intro hand) auto
  have 4: "SetMnemonic mnemonic s = ButtonAck s2" if "r = ReqSetMnemonic mnemonic" for mnemonic
    unfolding SetMnemonic_def using that assms(2) by (intro hand) simp
  have 5: "SignMessage addressIndex message s = ButtonAck s2"
    if "r = ReqSignMessage addressIndex message" for addressIndex message
    unfolding SignMessage_def using that assms(2) by (intro hand) simp
  have 6: "Wipe s = ButtonAck s2" if "r = ReqWipe"
    unfolding Wipe_def using that assms(2) by (intro hand) simp
  from Connect_ok [OF assms(1)] obtain h0 tr
    where h0: "dev s1 = Some h0" and tr: "trace s1 = tr @ [EvOpen h0]"
    by (metis append.assoc)
  from exchange_Returns_Inr [OF assms(2)] h0 obtain chunks
    where enc1: "encode s1 r = Inr chunks"
      and sd: "SendToDevice h0 chunks s1 = (Returns (Inr msg), s2)"
    by auto
  from same_world_Connect [OF assms(1)] enc1 have enc: "encode s r = Inr chunks"
    by (simp add: same_world_def)
  from SendToDevice_Returns_Inr [OF sd]
  have s2: "s2 = s1\<lparr>trace := trace s1 @ map (EvWrite h0) chunks @ [EvRead h0],
                    replies := tl (replies s1)\<rparr>"
    by simp
  have t2: "trace s2 = trace s1 @ map (EvWrite h0) chunks @ [EvRead h0]"
    by (subst s2) simp
  have d2: "dev s2 = Some h0" by (subst s2) (simp add: h0)
  from ButtonAck_reconnects [OF d2] obtain ev rest
    where "trace (snd (ButtonAck s2)) = trace s2 @ EvClose h0 # ev # rest"
      and "ev = EvOpenFailed \<or> ev = EvOpen (Suc (length (trace s2)))"
    by blast
  with h0 tr enc t2
  have 7: "\<exists>h chunks ev rest.
            dev s1 = Some h \<and> (\<exists>tr. trace s1 = tr @ [EvOpen h]) \<and>
            encode s r = Inr chunks \<and>
            trace s2 = trace s1 @ map (EvWrite h) chunks @ [EvRead h] \<and>
            trace (snd (ButtonAck s2)) = trace s2 @ EvClose h # ev # rest \<and>
            (ev = EvOpenFailed \<or> ev = EvOpen (Suc (length (trace s2))))"
    by blast
  from 1 2 3 4 5 6 7 show ?thesis by blast
qed

text \<open>
  Witness for C2: the device answers each request with \<open>ButtonRequest\<close> and the
  acknowledgement with \<open>Success\<close> carrying "sig". Each of the six operations returns that
  message; handle 0, opened by the operation, is closed before handle 4 is opened by the
  follow-up.
\<close>
theorem C2_button_request_followup_witness:
  "(let s = idle_world\<lparr>replies := [Inr \<lparr>Kind = MessageType_ButtonRequest, Data = []\<rparr>,
                                     Inr \<lparr>Kind = MessageType_Success, Data = [115, 105, 103]\<rparr>]\<rparr>;
        done = (Returns (Inr \<lparr>Kind = MessageType_Success, Data = [115, 105, 103]\<rparr>),
                idle_world\<lparr>dev := Some 4,
                  trace := [EvOpen 0, EvWrite 0 [99], EvRead 0, EvClose 0,
                            EvOpen 4, EvWrite 4 [27], EvRead 4, EvClose 4]\<rparr>)
    in ChangePin (Some True) s = done \<and>
       GenerateMnemonic 12 False s = done \<and>
       Recovery 24 False True s = done \<and>
       SetMnemonic ''cloud flower'' s = done \<and>
       SignMessage 0 ''hello'' s = done \<and>
       Wipe s = done)"
proof -
  let ?br = "\<lparr>Kind = MessageType_ButtonRequest, Data = []\<rparr>"
  let ?sig = "\<lparr>Kind = MessageType_Success, Data = [115, 105, 103]\<rparr>"
  let ?s = "idle_world\<lparr>replies := [Inr ?br, Inr ?sig]\<rparr>"
  let ?s1 = "?s\<lparr>dev := Some 0, trace := [EvOpen 0]\<rparr>"
  let ?s2 = "?s1\<lparr>trace := [EvOpen 0, EvWrite 0 [99], EvRead 0], replies := [Inr ?sig]\<rparr>"
  let ?done = "(Returns (Inr ?sig),
                idle_world\<lparr>dev := Some 4,
                  trace := [EvOpen 0, EvWrite 0 [99], EvRead 0, EvClose 0,
                            EvOpen 4, EvWrite 4 [27], EvRead 4, EvClose 4]\<rparr>)"
  have c: "Connect ?s = (Returns None, ?s1)"
    by (simp add: Connect_eq idle_world_def log_event_def)
  have x: "exchange r ?s1 = (Returns (Inr ?br), ?s2)" if "sample_encode r = Inr [[99]]" for r
    using that
    by (simp add: exchange_def SendToDevice_def io_try_def io_check_def io_bind_def
        io_return_def build_def with_dev_def dev_Write_def ReadFrom_def log_event_def
        idle_world_def)
  have k: "Kind ?br = MessageType_ButtonRequest" by simp
  have b: "ButtonAck ?s2 = ?done"
    by (simp add: ButtonAck_def Connect_eq SendToDevice_def io_try_def io_check_def io_bind_def
        io_return_def build_def with_dev_def deferred_def dev_Write_def dev_Close_def
        ReadFrom_def log_event_def simulate_if_enabled_def ButtonAck_loop.simps idle_world_def)
  have "exchange (ReqChangePin True) ?s1 = (Returns (Inr ?br), ?s2)" by (rule x) simp
  from C2_button_request_followup [OF c this k] have "ChangePin (Some True) ?s = ButtonAck ?s2" by blast
  with b have 1: "ChangePin (Some True) ?s = ?done" by simp
  have "exchange (ReqGenerateMnemonic 12 False) ?s1 = (Returns (Inr ?br), ?s2)" by (rule x) simp
  from C2_button_request_followup [OF c this k] have "GenerateMnemonic 12 False ?s = ButtonAck ?s2" by blast
  with b have 2: "GenerateMnemonic 12 False ?s = ?done" by simp
  have "exchange (ReqRecovery 24 False True) ?s1 = (Returns (Inr ?br), ?s2)" by (rule x) simp
  from C2_button_request_followup [OF c this k] have "Recovery 24 False True ?s = ButtonAck ?s2" by blast
  with b have 3: "Recovery 24 False True ?s = ?done" by simp
  have "exchange (ReqSetMnemonic ''cloud flower'') ?s1 = (Returns (Inr ?br), ?s2)" by (rule x) simp
  from C2_button_request_followup [OF c this k] have "SetMnemonic ''cloud flower'' ?s = ButtonAck ?s2" by blast
  with b have 4: "SetMnemonic ''cloud flower'' ?s = ?done" by simp
  have "exchange (ReqSignMessage 0 ''hello'') ?s1 = (Returns (Inr ?br), ?s2)" by (rule x) simp
  from C2_button_request_followup [OF c this k] have "SignMessage 0 ''hello'' ?s = ButtonAck ?s2" by blast
  with b have 5: "SignMessage 0 ''hello'' ?s = ?done" by simp
  have "exchange (ReqWipe) ?s1 = (Returns (Inr ?br), ?s2)" by (rule x) simp
  from C2_button_request_followup [OF c this k] have "Wipe ?s = ButtonAck ?s2" by blast
  with b have 6: "Wipe ?s = ?done" by simp
  from 1 2 3 4 5 6 show ?thesis by (simp add: Let_def)
qed

subsection \<open>C10: the acknowledgement loop of \<^verbatim>\<open>Backup\<close>\<close>

text \<open>
  Claim C10: \<^verbatim>\<open>Backup\<close> repeats the top-level \<^verbatim>\<open>ButtonAck\<close> as long as the latest
  answer has kind \<open>ButtonRequest\<close>. Let \<open>m0\<close> be the answer to the Backup request and
  \<open>ms\<close> the messages returned by the successive \<^verbatim>\<open>ButtonAck\<close> rounds. If all of
  \<open>m0 # ms\<close> but the last are \<open>ButtonRequest\<close>s and the last is not, \<^verbatim>\<open>Backup\<close> returns
  that last message, for any number of rounds including none; if all of them are
  \<open>ButtonRequest\<close>s and the next round fails, \<^verbatim>\<open>Backup\<close> returns that error. After a
  \<open>ButtonRequest\<close> \<^verbatim>\<open>Backup\<close> does not close the handle itself (it ends in the state the
  last \<^verbatim>\<open>ButtonAck\<close> left); the handle it held is closed by the \<^verbatim>\<open>Connect\<close> of the first
  \<^verbatim>\<open>ButtonAck\<close>, which then opens a new one. Without any \<open>ButtonRequest\<close> \<^verbatim>\<open>Backup\<close>
  closes its handle before returning.
\<close>
theorem C10_Backup_acknowledges_in_a_loop:
  assumes "Connect s = (Returns None, s1)"
    and "exchange ReqBackup s1 = (Returns (Inr m0), s2)"
    and "ack_rounds s2 ms = Some s3"
  shows "\<exists>h. dev s2 = Some h \<and>
           ((\<forall>m\<in>set (butlast (m0 # ms)). Kind m = MessageType_ButtonRequest) \<and>
            Kind (last (m0 # ms)) \<noteq> MessageType_ButtonRequest \<longrightarrow>
              Backup s = (Returns (Inr (last (m0 # ms))),
                          if ms = [] then log_event (EvClose h) s2 else s3)) \<and>
           ((\<forall>m\<in>set (m0 # ms). Kind m = MessageType_ButtonRequest) \<and>
            ButtonAck s3 = (Returns (Inl e), s4) \<longrightarrow>
              Backup s = (Returns (Inl e), s4)) \<and>
           (Kind m0 = MessageType_ButtonRequest \<longrightarrow>
              (\<exists>ev rest. trace (snd (ButtonAck s2)) = trace s2 @ EvClose h # ev # rest \<and>
                 (ev = EvOpenFailed \<or> ev = EvOpen (Suc (length (trace s2))))))"
proof -
  from exchange_Returns_Inr [OF assms(2)] obtain h chunks
    where h1: "dev s1 = Some h" and sd: "SendToDevice h chunks s1 = (Returns (Inr m0), s2)"
    by blast
  from SendToDevice_Returns_Inr [OF sd]
  have s2: "s2 = s1\<lparr>trace := trace s1 @ map (EvWrite h) chunks @ [EvRead h],
                    replies := tl (replies s1)\<rparr>"
    by simp
  have h: "dev s2 = Some h" by (subst s2) (simp add: h1)
  have A: "Backup s = (Returns (Inr (last (m0 # ms))),
                          if ms = [] then log_event (EvClose h) s2 else s3)"
    if "(\<forall>m\<in>set (butlast (m0 # ms)). Kind m = MessageType_ButtonRequest) \<and>
            Kind (last (m0 # ms)) \<noteq> MessageType_ButtonRequest"
  proof -
    from that Backup_loop_rounds [OF _ _ assms(3), of m0 False]
    have loop: "Backup_loop False m0 s2 = (Returns (ms \<noteq> [], Inr (last (m0 # ms))), s3)"
      by simp
    show ?thesis
    proof (cases "ms = []")
      case True
      with assms(3) have "s3 = s2" by simp
      with True loop assms(1,2) h show ?thesis
        by (simp add: Backup_def io_check_def io_bind_def io_return_def
            close_unless_disconnected_def with_dev_def dev_Close_def)
    next
      case False
      with loop assms(1,2) show ?thesis
        by (simp add: Backup_def io_check_def io_bind_def io_return_def
            close_unless_disconnected_def)
    qed
  qed
  have B: "Backup s = (Returns (Inl e), s4)"
    if "(\<forall>m\<in>set (m0 # ms). Kind m = MessageType_ButtonRequest) \<and>
            ButtonAck s3 = (Returns (Inl e), s4)"
  proof -
    from that Backup_loop_round_fails [OF _ assms(3), of m0 e s4 False]
    have "Backup_loop False m0 s2 = (Returns (True, Inl e), s4)" by simp
    with assms(1,2) show ?thesis
      by (simp add: Backup_def io_check_def io_bind_def io_return_def
          close_unless_disconnected_def)
  qed
  from ButtonAck_reconnects [OF h] A B h show ?thesis by blast
qed

text \<open>
  Witness for C10: (1) the device answers the Backup request and the first acknowledgement
  with \<open>ButtonRequest\<close> and the second acknowledgement with \<open>Success\<close>: \<^verbatim>\<open>Backup\<close>
  returns \<open>Success\<close> after two rounds; handle 0 is closed by the first round, which opens
  and closes handle 4; the second round opens and closes handle 9; \<^verbatim>\<open>Backup\<close> adds no
  close of its own. (2) The device answers the Backup request with \<open>Success\<close>: no round,
  \<^verbatim>\<open>Backup\<close> closes handle 0 itself. (3) The read of the first round fails:
  \<^verbatim>\<open>Backup\<close> returns that error.
\<close>
theorem C10_Backup_acknowledges_in_a_loop_witness:
  "Backup (idle_world\<lparr>replies := [Inr \<lparr>Kind = MessageType_ButtonRequest, Data = []\<rparr>,
                                  Inr \<lparr>Kind = MessageType_ButtonRequest, Data = [1]\<rparr>,
                                  Inr \<lparr>Kind = MessageType_Success, Data = [2]\<rparr>]\<rparr>) =
     (Returns (Inr \<lparr>Kind = MessageType_Success, Data = [2]\<rparr>),
      idle_world\<lparr>dev := Some 9,
        trace := [EvOpen 0, EvWrite 0 [99], EvRead 0,
                  EvClose 0, EvOpen 4, EvWrite 4 [27], EvRead 4, EvClose 4,
                  EvClose 4, EvOpen 9, EvWrite 9 [27], EvRead 9, EvClose 9]\<rparr>) \<and>
   Backup (idle_world\<lparr>replies := [Inr \<lparr>Kind = MessageType_Success, Data = [2]\<rparr>]\<rparr>) =
     (Returns (Inr \<lparr>Kind = MessageType_Success, Data = [2]\<rparr>),
      idle_world\<lparr>dev := Some 0,
        trace := [EvOpen 0, EvWrite 0 [99], EvRead 0, EvClose 0]\<rparr>) \<and>
   Backup (idle_world\<lparr>replies := [Inr \<lparr>Kind = MessageType_ButtonRequest, Data = []\<rparr>,
                                  Inl (ErrExternal 5)]\<rparr>) =
     (Returns (Inl (ErrExternal 5)),
      idle_world\<lparr>dev := Some 4,
        trace := [EvOpen 0, EvWrite 0 [99], EvRead 0,
                  EvClose 0, EvOpen 4, EvWrite 4 [27], EvRead 4, EvClose 4]\<rparr>)"
proof -
  let ?b0 = "\<lparr>Kind = MessageType_ButtonRequest, Data = []\<rparr>"
  let ?b1 = "\<lparr>Kind = MessageType_ButtonRequest, Data = [1]\<rparr>"
  let ?ok = "\<lparr>Kind = MessageType_Success, Data = [2]\<rparr>"
  note eval = ButtonAck_def Connect_eq SendToDevice_def io_try_def io_check_def io_bind_def
        io_return_def build_def with_dev_def deferred_def dev_Write_def dev_Close_def
        ReadFrom_def log_event_def simulate_if_enabled_def ButtonAck_loop.simps idle_world_def
  have 1: "Backup (idle_world\<lparr>replies := [Inr ?b0, Inr ?b1, Inr ?ok]\<rparr>) =
     (Returns (Inr ?ok),
      idle_world\<lparr>dev := Some 9,
        trace := [EvOpen 0, EvWrite 0 [99], EvRead 0,
                  EvClose 0, EvOpen 4, EvWrite 4 [27], EvRead 4, EvClose 4,
                  EvClose 4, EvOpen 9, EvWrite 9 [27], EvRead 9, EvClose 9]\<rparr>)"
  proof -
    let ?s = "idle_world\<lparr>replies := [Inr ?b0, Inr ?b1, Inr ?ok]\<rparr>"
    let ?s1 = "?s\<lparr>dev := Some 0, trace := [EvOpen 0]\<rparr>"
    let ?s2 = "?s1\<lparr>trace := [EvOpen 0, EvWrite 0 [99], EvRead 0], replies := [Inr ?b1, Inr ?ok]\<rparr>"
    let ?s3 = "idle_world\<lparr>dev := Some 9,
        trace := [EvOpen 0, EvWrite 0 [99], EvRead 0,
                  EvClose 0, EvOpen 4, EvWrite 4 [27], EvRead 4, EvClose 4,
                  EvClose 4, EvOpen 9, EvWrite 9 [27], EvRead 9, EvClose 9]\<rparr>"
    have c: "Connect ?s = (Returns None, ?s1)"
      by (simp add: Connect_eq idle_world_def log_event_def)
    have x: "exchange ReqBackup ?s1 = (Returns (Inr ?b0), ?s2)"
      by (simp add: exchange_def eval)
    have r: "ack_rounds ?s2 [?b1, ?ok] = Some ?s3"
      by (simp add: eval)
    from C10_Backup_acknowledges_in_a_loop [OF c x r]
    show ?thesis by simp
  qed
  have 2: "Backup (idle_world\<lparr>replies := [Inr ?ok]\<rparr>) =
     (Returns (Inr ?ok),
      idle_world\<lparr>dev := Some 0, trace := [EvOpen 0, EvWrite 0 [99], EvRead 0, EvClose 0]\<rparr>)"
  proof -
    let ?s = "idle_world\<lparr>replies := [Inr ?ok]\<rparr>"
    let ?s1 = "?s\<lparr>dev := Some 0, trace := [EvOpen 0]\<rparr>"
    let ?s2 = "?s1\<lparr>trace := [EvOpen 0, EvWrite 0 [99], EvRead 0], replies := []\<rparr>"
    have c: "Connect ?s = (Returns None, ?s1)"
      by (simp add: Connect_eq idle_world_def log_event_def)
    have x: "exchange ReqBackup ?s1 = (Returns (Inr ?ok), ?s2)"
      by (simp add: exchange_def eval)
    have r: "ack_rounds ?s2 [] = Some ?s2" by simp
    from C10_Backup_acknowledges_in_a_loop [OF c x r]
    show ?thesis by (simp add: log_event_def idle_world_def)
  qed
  have 3: "Backup (idle_world\<lparr>replies := [Inr ?b0, Inl (ErrExternal 5)]\<rparr>) =
     (Returns (Inl (ErrExternal 5)),
      idle_world\<lparr>dev := Some 4,
        trace := [EvOpen 0, EvWrite 0 [99], EvRead 0,
                  EvClose 0, EvOpen 4, EvWrite 4 [27], EvRead 4, EvClose 4]\<rparr>)"
  proof -
    let ?s = "idle_world\<lparr>replies := [Inr ?b0, Inl (ErrExternal 5)]\<rparr>"
    let ?s1 = "?s\<lparr>dev := Some 0, trace := [EvOpen 0]\<rparr>"
    let ?s2 = "?s1\<lparr>trace := [EvOpen 0, EvWrite 0 [99], EvRead 0], replies := [Inl (ErrExternal 5)]\<rparr>"
    let ?s4 = "idle_world\<lparr>dev := Some 4,
        trace := [EvOpen 0, EvWrite 0 [99], EvRead 0,
                  EvClose 0, EvOpen 4, EvWrite 4 [27], EvRead 4, EvClose 4]\<rparr>"
    have c: "Connect ?s = (Returns None, ?s1)"
      by (simp add: Connect_eq idle_world_def log_event_def)
    have x: "exchange ReqBackup ?s1 = (Returns (Inr ?b0), ?s2)"
      by (simp add: exchange_def eval)
    have r: "ack_rounds ?s2 [] = Some ?s2" by simp
    have b: "ButtonAck ?s2 = (Returns (Inl (ErrExternal 5)), ?s4)"
      by (simp add: eval)
    from C10_Backup_acknowledges_in_a_loop [OF c x r, of "ErrExternal 5" ?s4] b
    show ?thesis by simp
  qed
  from 1 2 3 show ?thesis by simp
qed

subsection \<open>C7: one open handle at a time\<close>

text \<open>
  Claim C7: \<^verbatim>\<open>Connect\<close> first closes the handle held in \<^verbatim>\<open>d.dev\<close>, if there is one,
  and then asks the driver for a device exactly once; it holds the new handle when the
  driver returns one and no handle when the driver fails. Consequently the single-handle
  invariant (at no moment of the history were two handles open, and a handle that is open
  is the one held) holds for a new device and is preserved by every operation of
  \<^verbatim>\<open>Device\<close>, whether the operation returns, fails, blocks or panics.
\<close>
theorem C7_single_handle:
  "(Connect s = (r, s') \<longrightarrow>
      (r = Returns None \<and>
       (\<exists>h'. dev s' = Some h' \<and>
          trace s' = trace s @ (case dev s of None \<Rightarrow> [] | Some h \<Rightarrow> [EvClose h]) @ [EvOpen h'])) \<or>
      ((\<exists>e. r = Returns (Some e)) \<and> dev s' = None \<and>
       trace s' = trace s @ (case dev s of None \<Rightarrow> [] | Some h \<Rightarrow> [EvClose h]) @ [EvOpenFailed])) \<and>
   (trace world = [] \<longrightarrow> single_handle (NewDevice deviceType world)) \<and>
   (single_handle s \<longrightarrow>
      single_handle (snd (Connect s)) \<and>
      single_handle (snd (Disconnect s)) \<and>
      single_handle (snd (Connected s)) \<and>
      single_handle (snd (Available s)) \<and>
      single_handle (snd (Close s)) \<and>
      single_handle (snd (GetUsbInfo s)) \<and>
      single_handle (snd (AddressGen addressN startIndex confirmAddress s)) \<and>
      single_handle (snd (ApplySettings usePassphrase label language s)) \<and>
      single_handle (snd (Backup s)) \<and>
      single_handle (snd (Cancel s)) \<and>
      single_handle (snd (CheckMessageSignature message signature address s)) \<and>
      single_handle (snd (ChangePin removePin s)) \<and>
      single_handle (snd (FirmwareUpload payload hash s)) \<and>
      single_handle (snd (GetFeatures s)) \<and>
      single_handle (snd (GenerateMnemonic wordCount usePassphrase' s)) \<and>
      single_handle (snd (Recovery wordCount' usePassphrase'' dryRun s)) \<and>
      single_handle (snd (SetMnemonic mnemonic s)) \<and>
      single_handle (snd (TransactionSign inputs outputs s)) \<and>
      single_handle (snd (SignMessage addressIndex message' s)) \<and>
      single_handle (snd (Wipe s)) \<and>
      single_handle (snd (PinMatrixAck p s)) \<and>
      single_handle (snd (WordAck w s)) \<and>
      single_handle (snd (PassphraseAck passphrase s)) \<and>
      single_handle (snd (ButtonAck s)) \<and>
      single_handle (snd (SimulateButtonPress s)) \<and>
      single_handle (snd (SetAutoPressButton simulate buttonType s)) \<and>
      single_handle (snd (SaveDeviceEntropyInFile outFile entropyBytes getEntropyMsgBuilder s)))"
proof (intro conjI impI)
  assume "Connect s = (r, s')"
  then show "(r = Returns None \<and>
       (\<exists>h'. dev s' = Some h' \<and>
          trace s' = trace s @ (case dev s of None \<Rightarrow> [] | Some h \<Rightarrow> [EvClose h]) @ [EvOpen h'])) \<or>
      ((\<exists>e. r = Returns (Some e)) \<and> dev s' = None \<and>
       trace s' = trace s @ (case dev s of None \<Rightarrow> [] | Some h \<Rightarrow> [EvClose h]) @ [EvOpenFailed])"
    by (auto simp: Connect_eq Let_def log_event_def split: option.splits)
next
  assume "trace world = []"
  then show "single_handle (NewDevice deviceType world)"
    by (simp add: single_handle_def NewDevice_def open_handles_def)
next
  note st = stable_single_handle
  note io = stable_imp_io [OF stable_single_handle]
  assume s: "single_handle s"
  show "single_handle (snd (Connect s))" using s by (rule single_handle_Connect)
  show "single_handle (snd (Disconnect s))"
    using pres_Disconnect [OF io] s by (rule single_handle_run)
  show "single_handle (snd (Connected s))"
    using pres_Connected [OF io] s by (rule single_handle_run)
  show "single_handle (snd (Available s))"
    using pres_Available s by (rule single_handle_run)
  show "single_handle (snd (Close s))"
    using pres_Close [OF io] s by (rule single_handle_run)
  show "single_handle (snd (GetUsbInfo s))"
    using pres_GetUsbInfo [OF st] s by (rule single_handle_run)
  show "single_handle (snd (AddressGen addressN startIndex confirmAddress s))"
    using pres_AddressGen [OF st] s by (rule single_handle_run)
  show "single_handle (snd (ApplySettings usePassphrase label language s))"
    using pres_ApplySettings [OF st] s by (rule single_handle_run)
  show "single_handle (snd (Backup s))"
    using pres_Backup [OF st] s by (rule single_handle_run)
  show "single_handle (snd (Cancel s))"
    using pres_Cancel [OF st] s by (rule single_handle_run)
  show "single_handle (snd (CheckMessageSignature message signature address s))"
    using pres_CheckMessageSignature [OF st] s by (rule single_handle_run)
  show "single_handle (snd (ChangePin removePin s))"
    using pres_ChangePin [OF st] s by (rule single_handle_run)
  show "single_handle (snd (FirmwareUpload payload hash s))"
    using pres_FirmwareUpload [OF st] s by (rule single_handle_run)
  show "single_handle (snd (GetFeatures s))"
    using pres_GetFeatures [OF st] s by (rule single_handle_run)
  show "single_handle (snd (GenerateMnemonic wordCount usePassphrase' s))"
    using pres_GenerateMnemonic [OF st] s by (rule single_handle_run)
  show "single_handle (snd (Recovery wordCount' usePassphrase'' dryRun s))"
    using pres_Recovery [OF st] s by (rule single_handle_run)
  show "single_handle (snd (SetMnemonic mnemonic s))"
    using pres_SetMnemonic [OF st] s by (rule single_handle_run)
  show "single_handle (snd (TransactionSign inputs outputs s))"
    using pres_TransactionSign [OF st] s by (rule single_handle_run)
  show "single_handle (snd (SignMessage addressIndex message' s))"
    using pres_SignMessage [OF st] s by (rule single_handle_run)
  show "single_handle (snd (Wipe s))"
    using pres_Wipe [OF st] s by (rule single_handle_run)
  show "single_handle (snd (PinMatrixAck p s))"
    using pres_PinMatrixAck [OF st] s by (rule single_handle_run)
  show "single_handle (snd (WordAck w s))"
    using pres_WordAck [OF st] s by (rule single_handle_run)
  show "single_handle (snd (PassphraseAck passphrase s))"
    using pres_PassphraseAck [OF st] s by (rule single_handle_run)
  show "single_handle (snd (ButtonAck s))"
    using pres_ButtonAck [OF st] s by (rule single_handle_run)
  show "single_handle (snd (SimulateButtonPress s))"
    using pres_SimulateButtonPress [OF io] s by (rule single_handle_run)
  show "single_handle (snd (SetAutoPressButton simulate buttonType s))"
    using pres_SetAutoPressButton [OF io] s by (rule single_handle_run)
  show "single_handle (snd (SaveDeviceEntropyInFile outFile entropyBytes getEntropyMsgBuilder s))"
    using pres_SaveDeviceEntropyInFile [OF st] s by (rule single_handle_run)
qed

text \<open>
  Witness for C7: a new USB device on the idle world satisfies the invariant; its
  \<^verbatim>\<open>Connect\<close> opens handle 0; after a \<^verbatim>\<open>Backup\<close> with two button rounds the invariant
  holds and no handle is left open; a second \<^verbatim>\<open>Connect\<close> with handle 0 held closes it
  before it opens handle 2.
\<close>
theorem C7_single_handle_witness:
  "single_handle (NewDevice DeviceTypeUSB idle_world) \<and>
   Connect idle_world = (Returns None, idle_world\<lparr>dev := Some 0, trace := [EvOpen 0]\<rparr>) \<and>
   Connect (idle_world\<lparr>dev := Some 0, trace := [EvOpen 0]\<rparr>) =
     (Returns None, idle_world\<lparr>dev := Some 2, trace := [EvOpen 0, EvClose 0, EvOpen 2]\<rparr>) \<and>
   single_handle (snd (Backup (idle_world\<lparr>replies :=
       [Inr \<lparr>Kind = MessageType_ButtonRequest, Data = []\<rparr>,
        Inr \<lparr>Kind = MessageType_ButtonRequest, Data = [1]\<rparr>,
        Inr \<lparr>Kind = MessageType_Success, Data = [2]\<rparr>]\<rparr>))) \<and>
   open_handles [EvOpen 0, EvWrite 0 [99], EvRead 0,
                 EvClose 0, EvOpen 4, EvWrite 4 [27], EvRead 4, EvClose 4,
                 EvClose 4, EvOpen 9, EvWrite 9 [27], EvRead 9, EvClose 9] = []"
proof -
  let ?s = "idle_world\<lparr>replies :=
       [Inr \<lparr>Kind = MessageType_ButtonRequest, Data = []\<rparr>,
        Inr \<lparr>Kind = MessageType_ButtonRequest, Data = [1]\<rparr>,
        Inr \<lparr>Kind = MessageType_Success, Data = [2]\<rparr>]\<rparr>"
  have t: "trace idle_world = []" by (simp add: idle_world_def)
  have 1: "single_handle (NewDevice DeviceTypeUSB idle_world)"
    by (rule C7_single_handle [where world = idle_world and deviceType = DeviceTypeUSB,
          THEN conjunct2, THEN conjunct1, THEN mp, OF t])
  have i: "single_handle ?s"
    by (simp add: single_handle_def idle_world_def open_handles_def)
  note after = C7_single_handle [where s = ?s, THEN conjunct2, THEN conjunct2, THEN mp, OF i]
  have 2: "single_handle (snd (Backup ?s))"
    by (rule after [THEN conjunct2, THEN conjunct2, THEN conjunct2, THEN conjunct2,
          THEN conjunct2, THEN conjunct2, THEN conjunct2, THEN conjunct2, THEN conjunct1])
  have 3: "Connect idle_world = (Returns None, idle_world\<lparr>dev := Some 0, trace := [EvOpen 0]\<rparr>)"
    by (simp add: Connect_eq idle_world_def log_event_def)
  have 4: "Connect (idle_world\<lparr>dev := Some 0, trace := [EvOpen 0]\<rparr>) =
     (Returns None, idle_world\<lparr>dev := Some 2, trace := [EvOpen 0, EvClose 0, EvOpen 2]\<rparr>)"
    by (simp add: Connect_eq idle_world_def log_event_def)
  have 5: "open_handles [EvOpen 0, EvWrite 0 [99], EvRead 0,
                 EvClose 0, EvOpen 4, EvWrite 4 [27], EvRead 4, EvClose 4,
                 EvClose 4, EvOpen 9, EvWrite 9 [27], EvRead 9, EvClose 9] = []"
    by (simp add: open_handles_def)
  from 1 2 3 4 5 show ?thesis by simp
qed

subsection \<open>C4: the entropy stream\<close>




end
